theory Spec2Isabelle
  imports Complex_Main "HOL-Library.Sublist" "HOL-Library.AList" "HOL-Library.Word"
    "HOL-Library.Char_ord" "HOL-Library.List_Lexorder"
begin

chapter \<open>Pulse: alert engine, cluster failover client, monitor and metrics history\<close>

text \<open>
  A shallow embedding of the parts of the Pulse monitor that the specification's claims are
  about: \<^verbatim>\<open>internal/alerts/alerts.go\<close>, \<^verbatim>\<open>pkg/proxmox/cluster_client.go\<close>,
  \<^verbatim>\<open>internal/monitoring/monitor.go\<close> and \<^verbatim>\<open>internal/monitoring/metrics_history.go\<close>.

  Conventions of the embedding.
  \<^item> \<^verbatim>\<open>time.Time\<close> and \<^verbatim>\<open>time.Duration\<close> are integers counting nanoseconds, as in Go.
    Every function that reads the clock takes the reading as the argument \<open>now\<close>; a
    function that reads the clock several times in one call is given one reading.
  \<^item> \<^verbatim>\<open>float64\<close> values (metric values, thresholds) are reals: NaN, the infinities and
    rounding are outside the model.
  \<^item> Logging, locking and the writing of files are left out; a callback started with
    \<^verbatim>\<open>go\<close> or called directly is recorded as an event in the state.
\<close>

section \<open>Time\<close>

type_synonym time = int

definition second :: int where "second = 1000000000"
definition minute :: int where "minute = 60 * second"
definition hour :: int where "hour = 60 * minute"

section \<open>The alert engine (internal/alerts/alerts.go)\<close>

subsection \<open>Data\<close>

datatype AlertLevel = AlertLevelWarning | AlertLevelCritical

text \<open>
  The message of an alert is built with \<^verbatim>\<open>fmt.Sprintf\<close> from the resource type, the
  metric and the value; the model keeps the arguments instead of the formatted text.
\<close>

datatype message =
    UsageMessage string real
  | MetricMessage string string real
  | NodeOfflineMessage string

text \<open>
  \<^verbatim>\<open>Metadata\<close> is \<^verbatim>\<open>nil\<close> or the map with the two keys \<^verbatim>\<open>resourceType\<close> and
  \<^verbatim>\<open>clearThreshold\<close>.
\<close>

record Alert =
  ID :: string
  Type :: string
  Level :: AlertLevel
  ResourceID :: string
  ResourceName :: string
  Node :: string
  Instance :: string
  Message :: message
  Value :: real
  Threshold :: real
  StartTime :: time
  LastSeen :: time
  Acknowledged :: bool
  AckTime :: "time option"
  AckUser :: string
  Metadata :: "(string \<times> real) option"
  LastEscalation :: int
  EscalationTimes :: "time list"

record HysteresisThreshold =
  Trigger :: real
  Clear :: real

text \<open>
  The pointer fields of \<^verbatim>\<open>ThresholdConfig\<close>; \<open>None\<close> is \<^verbatim>\<open>nil\<close>. The legacy fields
  are read by \<^verbatim>\<open>getGuestThresholds\<close> only, whose result is an argument of \<open>CheckGuest\<close>
  below.
\<close>

record ThresholdConfig =
  CPU :: "HysteresisThreshold option"
  Memory :: "HysteresisThreshold option"
  Disk :: "HysteresisThreshold option"
  DiskRead :: "HysteresisThreshold option"
  DiskWrite :: "HysteresisThreshold option"
  NetworkIn :: "HysteresisThreshold option"
  NetworkOut :: "HysteresisThreshold option"

record EscalationLevel =
  After :: int
  Notify :: string

record EscalationConfig =
  EscalationEnabled :: bool
  Levels :: "EscalationLevel list"

text \<open>
  Of \<^verbatim>\<open>ScheduleConfig\<close> the engine reads \<^verbatim>\<open>MaxAlertsHour\<close>, \<^verbatim>\<open>Escalation\<close> and
  \<^verbatim>\<open>QuietHours\<close>; the outcome of \<^verbatim>\<open>isInQuietHours\<close> (a function of the wall clock
  and the time zone database) is the argument \<open>quiet\<close> of the functions below.
\<close>

record ScheduleConfig =
  MaxAlertsHour :: int
  Escalation :: EscalationConfig

record AlertConfig =
  Enabled :: bool
  NodeDefaults :: ThresholdConfig
  StorageDefault :: HysteresisThreshold
  Schedule :: ScheduleConfig
  MinimumDelta :: real
  SuppressionWindow :: int
  HysteresisMargin :: real
  TimeThreshold :: int

datatype event =
    AlertEvent nat
  | ResolvedEvent string
  | EscalateEvent nat int

text \<open>
  The manager. The Go maps hold \<^verbatim>\<open>*Alert\<close> pointers and the same pointer is stored in
  \<^verbatim>\<open>activeAlerts\<close>, \<^verbatim>\<open>recentAlerts\<close> and \<^verbatim>\<open>recentlyResolved\<close>, so the alerts live
  in a store indexed by addresses: \<open>store\<close> maps an address to the object, \<open>nextPtr\<close> is
  the next address to allocate. \<open>activeAlerts\<close> is an association list because the code
  ranges over it; the other maps are partial functions. \<open>history\<close> receives the copies
  passed to \<^verbatim>\<open>historyManager.AddAlert\<close>. \<open>onAlert\<close>, \<open>onResolved\<close>, \<open>onEscalate\<close> say
  whether the callback is set; \<open>events\<close> lists the callback invocations in order.
\<close>

record Manager =
  config :: AlertConfig
  store :: "nat \<Rightarrow> Alert"
  nextPtr :: nat
  activeAlerts :: "(string \<times> nat) list"
  history :: "Alert list"
  onAlert :: bool
  onResolved :: bool
  onEscalate :: bool
  events :: "event list"
  alertRateLimit :: "string \<rightharpoonup> time list"
  recentAlerts :: "string \<rightharpoonup> nat"
  suppressedUntil :: "string \<rightharpoonup> time"
  recentlyResolved :: "string \<rightharpoonup> (nat \<times> time)"
  pendingAlerts :: "string \<rightharpoonup> time"
  nodeOfflineCount :: "string \<rightharpoonup> nat"

text \<open>The active alert stored under an id, read through its pointer.\<close>

definition activeAlert :: "Manager \<Rightarrow> string \<Rightarrow> Alert option" where
  "activeAlert m alertID = map_option (store m) (map_of (activeAlerts m) alertID)"

text \<open>The alert kept in \<^verbatim>\<open>recentlyResolved\<close> under an id, with its resolution time.\<close>

definition resolvedAlert :: "Manager \<Rightarrow> string \<Rightarrow> (Alert \<times> time) option" where
  "resolvedAlert m alertID =
     map_option (\<lambda>(p, t). (store m p, t)) (recentlyResolved m alertID)"

subsection \<open>checkRateLimit\<close>

definition checkRateLimit :: "string \<Rightarrow> time \<Rightarrow> Manager \<Rightarrow> bool \<times> Manager" where
  "checkRateLimit alertID now m =
     (if MaxAlertsHour (Schedule (config m)) \<le> 0 then (True, m)
      else
        let cutoff = now - hour;
            times = (case alertRateLimit m alertID of None \<Rightarrow> [] | Some ts \<Rightarrow> ts);
            recent = filter (\<lambda>t. cutoff < t) times
        in if MaxAlertsHour (Schedule (config m)) \<le> int (length recent) then (False, m)
           else (True, m\<lparr>alertRateLimit := (alertRateLimit m)(alertID \<mapsto> recent @ [now])\<rparr>))"

subsection \<open>checkMetric\<close>

text \<open>\<^verbatim>\<open>alertID := fmt.Sprintf("%s-%s", resourceID, metricType)\<close>\<close>

definition metricAlertID :: "string \<Rightarrow> string \<Rightarrow> string" where
  "metricAlertID resourceID metricType = resourceID @ ''-'' @ metricType"

text \<open>\<^verbatim>\<open>suppressUntil, suppressed := m.suppressedUntil[alertID]; suppressed && now.Before(suppressUntil)\<close>\<close>

definition isSuppressed :: "Manager \<Rightarrow> string \<Rightarrow> time \<Rightarrow> bool" where
  "isSuppressed m alertID now =
     (case suppressedUntil m alertID of None \<Rightarrow> False | Some suppressUntil \<Rightarrow> now < suppressUntil)"

text \<open>
  The check for a recent similar alert: the entry of \<^verbatim>\<open>recentAlerts\<close> is read through
  its pointer, so it shows the latest value written to that alert object.
\<close>

definition isRecentDuplicate :: "Manager \<Rightarrow> string \<Rightarrow> real \<Rightarrow> time \<Rightarrow> bool" where
  "isRecentDuplicate m alertID v now =
     (case recentAlerts m alertID of
        None \<Rightarrow> False
      | Some r \<Rightarrow>
          0 < MinimumDelta (config m) \<and>
          now - StartTime (store m r) < SuppressionWindow (config m) * minute \<and>
          \<bar>Value (store m r) - v\<bar> < MinimumDelta (config m))"

text \<open>The block under \<^verbatim>\<open>// New alert\<close>, up to the notification.\<close>

definition newAlert ::
  "string \<Rightarrow> string \<Rightarrow> string \<Rightarrow> string \<Rightarrow> string \<Rightarrow> string \<Rightarrow> string \<Rightarrow> real
     \<Rightarrow> HysteresisThreshold \<Rightarrow> time \<Rightarrow> Alert" where
  "newAlert alertID resourceID resourceName node instance resourceType metricType v th now =
     \<lparr>ID = alertID, Type = metricType,
      Level = (if Trigger th + 10 \<le> v then AlertLevelCritical else AlertLevelWarning),
      ResourceID = resourceID, ResourceName = resourceName, Node = node, Instance = instance,
      Message = (if metricType = ''usage'' then UsageMessage resourceType v
                 else MetricMessage resourceType metricType v),
      Value = v, Threshold = Trigger th, StartTime = now, LastSeen = now,
      Acknowledged = False, AckTime = None, AckUser = [],
      Metadata = Some (resourceType, Clear th),
      LastEscalation = 0, EscalationTimes = []\<rparr>"

definition createAlert ::
  "string \<Rightarrow> string \<Rightarrow> string \<Rightarrow> string \<Rightarrow> string \<Rightarrow> string \<Rightarrow> string \<Rightarrow> real
     \<Rightarrow> HysteresisThreshold \<Rightarrow> time \<Rightarrow> bool \<Rightarrow> Manager \<Rightarrow> Manager" where
  "createAlert alertID resourceID resourceName node instance resourceType metricType v th now quiet m =
     (let alert = newAlert alertID resourceID resourceName node instance resourceType metricType v th now;
          p = nextPtr m;
          m1 = m\<lparr>store := (store m)(p := alert), nextPtr := Suc p,
                 activeAlerts := AList.update alertID p (activeAlerts m),
                 recentAlerts := (recentAlerts m)(alertID \<mapsto> p),
                 history := history m @ [alert]\<rparr>;
          (allowed, m2) = checkRateLimit alertID now m1
      in if \<not> allowed then m2
         else if quiet \<and> Level alert \<noteq> AlertLevelCritical then m2
         else if onAlert m2 then m2\<lparr>events := events m2 @ [AlertEvent p]\<rparr>
         else m2)"

text \<open>The dedup check followed by the creation: the code after the time-threshold block.\<close>

definition dedupOrCreate ::
  "string \<Rightarrow> string \<Rightarrow> string \<Rightarrow> string \<Rightarrow> string \<Rightarrow> string \<Rightarrow> string \<Rightarrow> real
     \<Rightarrow> HysteresisThreshold \<Rightarrow> time \<Rightarrow> bool \<Rightarrow> Manager \<Rightarrow> Manager" where
  "dedupOrCreate alertID resourceID resourceName node instance resourceType metricType v th now quiet m =
     (if isRecentDuplicate m alertID v now
      then m\<lparr>suppressedUntil :=
               (suppressedUntil m)(alertID \<mapsto> now + SuppressionWindow (config m) * minute)\<rparr>
      else createAlert alertID resourceID resourceName node instance resourceType metricType v th now quiet m)"

text \<open>
  The resolution of an active alert at address \<open>p\<close>. The goroutine that removes the entry of
  \<^verbatim>\<open>recentlyResolved\<close> five minutes later is not part of the call.
\<close>

definition resolveAlert :: "string \<Rightarrow> nat \<Rightarrow> time \<Rightarrow> Manager \<Rightarrow> Manager" where
  "resolveAlert alertID p now m =
     (let m1 = m\<lparr>activeAlerts := AList.delete alertID (activeAlerts m),
                 recentlyResolved := (recentlyResolved m)(alertID \<mapsto> (p, now))\<rparr>
      in if onResolved m1 then m1\<lparr>events := events m1 @ [ResolvedEvent alertID]\<rparr> else m1)"

text \<open>
  The threshold below which an active alert resolves: \<^verbatim>\<open>threshold.Clear\<close>, or the
  trigger when the clear value is not set (not positive).
\<close>

definition clearThreshold :: "HysteresisThreshold \<Rightarrow> real" where
  "clearThreshold th = (if Clear th \<le> 0 then Trigger th else Clear th)"

definition checkMetric ::
  "string \<Rightarrow> string \<Rightarrow> string \<Rightarrow> string \<Rightarrow> string \<Rightarrow> string \<Rightarrow> real
     \<Rightarrow> HysteresisThreshold option \<Rightarrow> time \<Rightarrow> bool \<Rightarrow> Manager \<Rightarrow> Manager" where
  "checkMetric resourceID resourceName node instance resourceType metricType v threshold now quiet m =
     (case threshold of
        None \<Rightarrow> m
      | Some th \<Rightarrow>
          if Trigger th \<le> 0 then m
          else
            let alertID = metricAlertID resourceID metricType in
            if isSuppressed m alertID now then m
            else if Trigger th \<le> v then
              (case map_of (activeAlerts m) alertID of
                 None \<Rightarrow>
                   if 0 < TimeThreshold (config m) then
                     (case pendingAlerts m alertID of
                        Some pendingTime \<Rightarrow>
                          if TimeThreshold (config m) * second \<le> now - pendingTime
                          then dedupOrCreate alertID resourceID resourceName node instance
                                 resourceType metricType v th now quiet
                                 (m\<lparr>pendingAlerts := (pendingAlerts m)(alertID := None)\<rparr>)
                          else m
                      | None \<Rightarrow> m\<lparr>pendingAlerts := (pendingAlerts m)(alertID \<mapsto> now)\<rparr>)
                   else dedupOrCreate alertID resourceID resourceName node instance
                          resourceType metricType v th now quiet m
               | Some p \<Rightarrow>
                   m\<lparr>store := (store m)(p := (store m p)
                        \<lparr>LastSeen := now, Value := v,
                         Level := (if Trigger th + 10 \<le> v then AlertLevelCritical
                                   else AlertLevelWarning)\<rparr>)\<rparr>)
            else
              (let m1 = m\<lparr>pendingAlerts := (pendingAlerts m)(alertID := None)\<rparr> in
               case map_of (activeAlerts m) alertID of
                 None \<Rightarrow> m1
               | Some p \<Rightarrow>
                   if v \<le> clearThreshold th then resolveAlert alertID p now m1 else m1))"

subsection \<open>The resources handed to the engine (internal/models)\<close>

text \<open>
  \<^verbatim>\<open>models.Memory\<close> and \<^verbatim>\<open>models.Disk\<close> have the same four fields; \<^verbatim>\<open>models.VM\<close> and
  \<^verbatim>\<open>models.Container\<close> have the same fields as far as the monitor and the engine use them.
  The field names carry a letter in front where two structs share a name.
\<close>

record Usage =
  uTotal :: int
  uUsed :: int
  uFree :: int
  uUsage :: real

record CPUInfo =
  cModel :: string
  cCores :: int
  cSockets :: int
  cMHz :: string

record Node =
  nID :: string
  nName :: string
  nInstance :: string
  nHost :: string
  nStatus :: string
  nType :: string
  nCPU :: real
  nMemory :: Usage
  nDisk :: Usage
  nUptime :: int
  nLoadAverage :: "real list"
  nKernelVersion :: string
  nPVEVersion :: string
  nCPUInfo :: CPUInfo
  nLastSeen :: time
  ConnectionHealth :: string

record Guest =
  gID :: string
  gVMID :: int
  gName :: string
  gNode :: string
  gInstance :: string
  gStatus :: string
  gType :: string
  gCPU :: real
  gCPUs :: int
  gMemory :: Usage
  gDisk :: Usage
  gNetworkIn :: int
  gNetworkOut :: int
  gDiskRead :: int
  gDiskWrite :: int
  gUptime :: int
  gTemplate :: bool
  gLastSeen :: time
  gTags :: "string list"

type_synonym VM = Guest
type_synonym Container = Guest

record Storage =
  sID :: string
  sName :: string
  sNode :: string
  sInstance :: string
  sType :: string
  sStatus :: string
  sTotal :: int
  sUsed :: int
  sFree :: int
  sUsage :: real
  sContent :: string
  sShared :: bool
  sEnabled :: bool
  sActive :: bool

text \<open>The argument of \<^verbatim>\<open>CheckGuest\<close> is an \<^verbatim>\<open>interface{}\<close>, told apart by a type switch.\<close>

datatype guest = GuestVM VM | GuestContainer Container | GuestOther

subsection \<open>CheckGuest, CheckStorage\<close>

text \<open>
  The body of \<^verbatim>\<open>CheckGuest\<close> after the type switch. \<open>thresholds\<close> is the value of
  \<^verbatim>\<open>m.getGuestThresholds(guest, guestID)\<close>, which reads the configuration only.
\<close>

definition clearStoppedGuest :: "string \<Rightarrow> Manager \<Rightarrow> Manager" where
  "clearStoppedGuest guestID m =
     m\<lparr>activeAlerts := filter (\<lambda>(alertID, p). ResourceID (store m p) \<noteq> guestID) (activeAlerts m)\<rparr>"

definition checkIOMetric ::
  "string \<Rightarrow> string \<Rightarrow> string \<Rightarrow> string \<Rightarrow> string \<Rightarrow> string \<Rightarrow> int
     \<Rightarrow> HysteresisThreshold option \<Rightarrow> time \<Rightarrow> bool \<Rightarrow> Manager \<Rightarrow> Manager" where
  "checkIOMetric guestID name node instanceName guestType metricType bytes threshold now quiet m =
     (case threshold of
        None \<Rightarrow> m
      | Some th \<Rightarrow>
          if 0 < Trigger th
          then checkMetric guestID name node instanceName guestType metricType
                 (real_of_int bytes / 1024 / 1024) threshold now quiet m
          else m)"

definition checkGuestBody ::
  "Guest \<Rightarrow> string \<Rightarrow> string \<Rightarrow> ThresholdConfig \<Rightarrow> time \<Rightarrow> bool \<Rightarrow> Manager \<Rightarrow> Manager" where
  "checkGuestBody g guestType instanceName thresholds now quiet m =
     (if gStatus g = ''stopped'' then clearStoppedGuest (gID g) m
      else
        let c = (\<lambda>metricType v th. checkMetric (gID g) (gName g) (gNode g) instanceName guestType
                                      metricType v th now quiet);
            io = (\<lambda>metricType bytes th. checkIOMetric (gID g) (gName g) (gNode g) instanceName guestType
                                      metricType bytes th now quiet);
            m1 = c ''cpu'' (gCPU g) (CPU thresholds) m;
            m2 = c ''memory'' (uUsage (gMemory g)) (Memory thresholds) m1;
            m3 = c ''disk'' (uUsage (gDisk g)) (Disk thresholds) m2;
            m4 = io ''diskRead'' (gDiskRead g) (DiskRead thresholds) m3;
            m5 = io ''diskWrite'' (gDiskWrite g) (DiskWrite thresholds) m4;
            m6 = io ''networkIn'' (gNetworkIn g) (NetworkIn thresholds) m5
        in io ''networkOut'' (gNetworkOut g) (NetworkOut thresholds) m6)"

definition CheckGuest ::
  "guest \<Rightarrow> string \<Rightarrow> ThresholdConfig \<Rightarrow> time \<Rightarrow> bool \<Rightarrow> Manager \<Rightarrow> Manager" where
  "CheckGuest guest instanceName thresholds now quiet m =
     (if \<not> Enabled (config m) then m
      else case guest of
             GuestVM g \<Rightarrow> checkGuestBody g ''VM'' instanceName thresholds now quiet m
           | GuestContainer g \<Rightarrow> checkGuestBody g ''Container'' instanceName thresholds now quiet m
           | GuestOther \<Rightarrow> m)"

definition CheckStorage :: "Storage \<Rightarrow> time \<Rightarrow> bool \<Rightarrow> Manager \<Rightarrow> Manager" where
  "CheckStorage storage now quiet m =
     (if \<not> Enabled (config m) then m
      else checkMetric (sID storage) (sName storage) (sNode storage) (sInstance storage)
             ''Storage'' ''usage'' (sUsage storage) (Some (StorageDefault (config m))) now quiet m)"

subsection \<open>CheckNode, checkNodeOffline, clearNodeOfflineAlert\<close>

text \<open>The zero \<^verbatim>\<open>time.Time\<close> (1 January of year 1), in nanoseconds from the Unix epoch.\<close>

definition zeroTime :: time where
  "zeroTime = - 62135596800 * second"

definition offlineAlertID :: "Node \<Rightarrow> string" where
  "offlineAlertID node = ''node-offline-'' @ nID node"

text \<open>
  Reading a missing key of a Go \<^verbatim>\<open>map[string]int\<close> gives 0. The counter is only ever
  incremented from 0 or deleted, so it is a natural number.
\<close>

definition offlineCount :: "Manager \<Rightarrow> string \<Rightarrow> nat" where
  "offlineCount m nodeID = (case nodeOfflineCount m nodeID of None \<Rightarrow> 0 | Some c \<Rightarrow> c)"

definition requiredOfflineCount :: nat where
  "requiredOfflineCount = 3"

definition offlineAlert :: "Node \<Rightarrow> time \<Rightarrow> Alert" where
  "offlineAlert node now =
     \<lparr>ID = offlineAlertID node, Type = ''connectivity'', Level = AlertLevelCritical,
      ResourceID = nID node, ResourceName = nName node, Node = nName node,
      Instance = nInstance node, Message = NodeOfflineMessage (nName node),
      Value = 0, Threshold = 0, StartTime = now, LastSeen = zeroTime,
      Acknowledged = False, AckTime = None, AckUser = [], Metadata = None,
      LastEscalation = 0, EscalationTimes = []\<rparr>"

definition checkNodeOffline :: "Node \<Rightarrow> time \<Rightarrow> Manager \<Rightarrow> Manager" where
  "checkNodeOffline node now m =
     (case map_of (activeAlerts m) (offlineAlertID node) of
        Some p \<Rightarrow> m\<lparr>store := (store m)(p := (store m p)\<lparr>StartTime := now\<rparr>)\<rparr>
      | None \<Rightarrow>
          let n = offlineCount m (nID node) + 1;
              m1 = m\<lparr>nodeOfflineCount := (nodeOfflineCount m)(nID node \<mapsto> n)\<rparr>
          in if n < requiredOfflineCount then m1
             else
               let alert = offlineAlert node now;
                   p = nextPtr m1;
                   m2 = m1\<lparr>store := (store m1)(p := alert), nextPtr := Suc p,
                           activeAlerts := AList.update (offlineAlertID node) p (activeAlerts m1),
                           recentAlerts := (recentAlerts m1)(offlineAlertID node \<mapsto> p),
                           history := history m1 @ [alert]\<rparr>
               in if onAlert m2 then m2\<lparr>events := events m2 @ [AlertEvent p]\<rparr> else m2)"

definition clearNodeOfflineAlert :: "Node \<Rightarrow> time \<Rightarrow> Manager \<Rightarrow> Manager" where
  "clearNodeOfflineAlert node now m =
     (let m1 = (if 0 < offlineCount m (nID node)
                then m\<lparr>nodeOfflineCount := (nodeOfflineCount m)(nID node := None)\<rparr> else m)
      in case map_of (activeAlerts m1) (offlineAlertID node) of
           None \<Rightarrow> m1
         | Some p \<Rightarrow>
             let m2 = m1\<lparr>activeAlerts := AList.delete (offlineAlertID node) (activeAlerts m1),
                         recentlyResolved :=
                           (recentlyResolved m1)(offlineAlertID node \<mapsto> (p, now))\<rparr>
             in if onResolved m2
                then m2\<lparr>events := events m2 @ [ResolvedEvent (offlineAlertID node)]\<rparr> else m2)"

definition nodeIsOffline :: "Node \<Rightarrow> bool" where
  "nodeIsOffline node \<longleftrightarrow>
     nStatus node = ''offline'' \<or> ConnectionHealth node = ''error'' \<or> ConnectionHealth node = ''failed''"

definition checkNodeMetrics :: "Node \<Rightarrow> ThresholdConfig \<Rightarrow> time \<Rightarrow> bool \<Rightarrow> Manager \<Rightarrow> Manager" where
  "checkNodeMetrics node thresholds now quiet m =
     (let c = (\<lambda>metricType v th. checkMetric (nID node) (nName node) (nName node) (nInstance node)
                                   ''Node'' metricType v th now quiet);
          m1 = c ''cpu'' (nCPU node * 100) (CPU thresholds) m;
          m2 = c ''memory'' (uUsage (nMemory node)) (Memory thresholds) m1
      in c ''disk'' (uUsage (nDisk node)) (Disk thresholds) m2)"

definition CheckNode :: "Node \<Rightarrow> time \<Rightarrow> bool \<Rightarrow> Manager \<Rightarrow> Manager" where
  "CheckNode node now quiet m =
     (if \<not> Enabled (config m) then m
      else
        let thresholds = NodeDefaults (config m);
            m1 = (if nodeIsOffline node then checkNodeOffline node now m
                  else clearNodeOfflineAlert node now m)
        in if nStatus node \<noteq> ''offline'' then checkNodeMetrics node thresholds now quiet m1
           else m1)"

subsection \<open>checkEscalations\<close>

text \<open>
  The inner loop over the escalation levels for the alert at address \<open>p\<close>; \<open>i\<close> is the
  index of the first level of the list.
\<close>

fun escalateLevels :: "time \<Rightarrow> nat \<Rightarrow> int \<Rightarrow> EscalationLevel list \<Rightarrow> Manager \<Rightarrow> Manager" where
  "escalateLevels now p i [] m = m"
| "escalateLevels now p i (level # levels) m =
     (if i + 1 \<le> LastEscalation (store m p) then escalateLevels now p (i + 1) levels m
      else
        let escalateTime = StartTime (store m p) + After level * minute in
        if escalateTime < now then
          let m1 = m\<lparr>store := (store m)(p := (store m p)
                       \<lparr>LastEscalation := i + 1,
                        EscalationTimes := EscalationTimes (store m p) @ [now]\<rparr>)\<rparr>;
              m2 = (if onEscalate m1 then m1\<lparr>events := events m1 @ [EscalateEvent p (i + 1)]\<rparr>
                    else m1)
          in escalateLevels now p (i + 1) levels m2
        else escalateLevels now p (i + 1) levels m)"

definition escalateAlert :: "time \<Rightarrow> nat \<Rightarrow> Manager \<Rightarrow> Manager" where
  "escalateAlert now p m =
     (if Acknowledged (store m p) then m
      else escalateLevels now p 0 (Levels (Escalation (Schedule (config m)))) m)"

definition checkEscalations :: "time \<Rightarrow> Manager \<Rightarrow> Manager" where
  "checkEscalations now m =
     (if \<not> EscalationEnabled (Escalation (Schedule (config m))) then m
      else fold (\<lambda>(alertID, p). escalateAlert now p) (activeAlerts m) m)"

subsection \<open>UpdateConfig\<close>

text \<open>
  \<^verbatim>\<open>UpdateConfig\<close> repairs four fields of the new configuration and installs it. It
  touches nothing else: the active alerts and the offline counters stay as they are, also
  when the new configuration switches alerting off.
\<close>

definition UpdateConfig :: "AlertConfig \<Rightarrow> Manager \<Rightarrow> Manager" where
  "UpdateConfig cfg m =
     (let c1 = (if Trigger (StorageDefault cfg) \<le> 0
                then cfg\<lparr>StorageDefault := \<lparr>Trigger = 85, Clear = 80\<rparr>\<rparr> else cfg);
          c2 = (if MinimumDelta c1 \<le> 0 then c1\<lparr>MinimumDelta := 2\<rparr> else c1);
          c3 = (if SuppressionWindow c2 \<le> 0 then c2\<lparr>SuppressionWindow := 5\<rparr> else c2);
          c4 = (if HysteresisMargin c3 \<le> 0 then c3\<lparr>HysteresisMargin := 5\<rparr> else c3)
      in m\<lparr>config := c4\<rparr>)"

subsection \<open>Well-formed managers\<close>

text \<open>
  In the Go program \<^verbatim>\<open>activeAlerts\<close> is a map, every \<^verbatim>\<open>*Alert\<close> in it was allocated
  by the manager, and no alert object is stored under two ids. The model states this about
  the association list and the store.
\<close>

definition wellFormed :: "Manager \<Rightarrow> bool" where
  "wellFormed m \<longleftrightarrow>
     distinct (map fst (activeAlerts m)) \<and> distinct (map snd (activeAlerts m)) \<and>
     (\<forall>p \<in> snd ` set (activeAlerts m). p < nextPtr m)"

subsection \<open>Runs of the engine on one node\<close>

text \<open>
  The monitor calls \<^verbatim>\<open>CheckNode\<close> once per poll of a node, and the escalation daemon
  calls \<^verbatim>\<open>checkEscalations\<close> once per tick. A run is a sequence of such calls, each with
  its clock reading.
\<close>

datatype step = Poll Node time bool | Tick time

fun runStep :: "step \<Rightarrow> Manager \<Rightarrow> Manager" where
  "runStep (Poll node now quiet) m = CheckNode node now quiet m"
| "runStep (Tick now) m = checkEscalations now m"

definition run :: "step list \<Rightarrow> Manager \<Rightarrow> Manager" where
  "run steps m = fold runStep steps m"

text \<open>
  \<open>pollsKeepAhead nodeID levels t steps\<close>: every poll of the run observes the node
  \<open>nodeID\<close> offline, and every tick comes, for each escalation level, no later than the
  level's delay after the latest poll before it (after \<open>t\<close> when no poll came before).
\<close>

fun pollsKeepAhead :: "string \<Rightarrow> EscalationLevel list \<Rightarrow> time \<Rightarrow> step list \<Rightarrow> bool" where
  "pollsKeepAhead nodeID levels t [] = True"
| "pollsKeepAhead nodeID levels t (Poll node now quiet # steps) =
     (nID node = nodeID \<and> nodeIsOffline node \<and> pollsKeepAhead nodeID levels now steps)"
| "pollsKeepAhead nodeID levels t (Tick now # steps) =
     ((\<forall>level \<in> set levels. now \<le> t + After level * minute)
        \<and> pollsKeepAhead nodeID levels t steps)"

text \<open>The invocations of the escalate callback for the alert at address \<open>p\<close>.\<close>

fun isEscalation :: "nat \<Rightarrow> event \<Rightarrow> bool" where
  "isEscalation p (EscalateEvent q level) = (q = p)"
| "isEscalation p (AlertEvent q) = False"
| "isEscalation p (ResolvedEvent alertID) = False"

definition escalationsOf :: "nat \<Rightarrow> Manager \<Rightarrow> event list" where
  "escalationsOf p m = filter (isEscalation p) (events m)"

text \<open>The number of invocations of a callback with the given arguments so far.\<close>

definition callsOf :: "event \<Rightarrow> Manager \<Rightarrow> nat" where
  "callsOf e m = count_list (events m) e"

section \<open>The cluster failover client (pkg/proxmox/cluster_client.go)\<close>

subsection \<open>Error classification\<close>

text \<open>\<^verbatim>\<open>strings.Contains(s, substr)\<close>: \<open>substr\<close> occurs in \<open>s\<close> as a contiguous run.\<close>

definition contains :: "string \<Rightarrow> string \<Rightarrow> bool" where
  "contains s substr = sublist substr s"

text \<open>\<^verbatim>\<open>IsAuthError\<close>, applied to the text of a non-nil error.\<close>

definition IsAuthError :: "string \<Rightarrow> bool" where
  "IsAuthError errStr \<longleftrightarrow>
     contains errStr ''authentication'' \<or> contains errStr ''401'' \<or> contains errStr ''403''"

text \<open>The test in \<^verbatim>\<open>executeWithFailover\<close> for a node-specific or configuration error.\<close>

definition isNodeSpecific :: "string \<Rightarrow> bool" where
  "isNodeSpecific errStr \<longleftrightarrow>
     contains errStr ''595'' \<or>
     (contains errStr ''500'' \<and> contains errStr ''hostname lookup'') \<or>
     (contains errStr ''500'' \<and> contains errStr ''Name or service not known'')"

subsection \<open>State and environment\<close>

text \<open>
  A \<^verbatim>\<open>*Client\<close> is \<open>None\<close> (the \<^verbatim>\<open>nil\<close> pointer) or \<open>Some p\<close> with the address \<open>p\<close> of
  a client object; \<open>nextClient\<close> is the next address \<^verbatim>\<open>NewClient\<close> allocates.
  \<^verbatim>\<open>clients\<close> and \<^verbatim>\<open>nodeHealth\<close> are association lists because the code ranges over
  them; a missing key of \<^verbatim>\<open>nodeHealth\<close> reads \<^verbatim>\<open>false\<close>. The order in which Go ranges
  over a map is unspecified: the code depends on it only through the endpoint it selects,
  for which the model draws an arbitrary number, and through the search for the endpoint of
  a client, whose result does not depend on the order when no two endpoints hold the same
  client.
\<close>

record ClusterClient =
  name :: string
  clients :: "(string \<times> nat option) list"
  endpoints :: "string list"
  nodeHealth :: "(string \<times> bool) list"
  lastHealthCheck :: "string \<rightharpoonup> time"
  nextClient :: nat

text \<open>
  What the outside world answers during one call of \<^verbatim>\<open>executeWithFailover\<close>, by attempt
  number: the clock, the number drawn by \<^verbatim>\<open>rand.Intn\<close> (reduced modulo the number of
  candidates), the outcome of connecting to an endpoint without a cached client, the
  outcome of the recovery probe of an endpoint, and the result of \<^verbatim>\<open>fn\<close> on the client at
  an address (\<open>None\<close> is a \<^verbatim>\<open>nil\<close> error, \<open>Some errStr\<close> an error with that text).
\<close>

datatype connectResult = Connected | NewClientFailed | ConnectivityTestFailed | FullClientFailed

text \<open>
  The recovery probe of an endpoint fails, or succeeds; after a successful probe the client
  with the full timeout is built by a second \<^verbatim>\<open>NewClient\<close> whose error is dropped, so the
  client stored is that client or \<^verbatim>\<open>nil\<close>.
\<close>

datatype recoverResult = ProbeFailed | Recovered | RecoveredNilClient

record env =
  clock :: "nat \<Rightarrow> time"
  rnd :: "nat \<Rightarrow> nat"
  connect :: "nat \<Rightarrow> string \<Rightarrow> connectResult"
  recovers :: "nat \<Rightarrow> string \<Rightarrow> recoverResult"
  fn :: "nat \<Rightarrow> nat \<Rightarrow> string option"

datatype failoverError =
    NoHealthyNodes
  | CreateClientFailed string
  | ConnectivityFailed string
  | CallError string
  | AllNodesFailed

text \<open>
  \<^verbatim>\<open>executeWithFailover\<close> returns an error (\<open>Returned None\<close> for \<^verbatim>\<open>nil\<close>) or panics: every
  \<^verbatim>\<open>fn\<close> passed to it in this file starts by calling a method of the client, which
  dereferences it, so a \<^verbatim>\<open>nil\<close> client makes the call panic.
\<close>

datatype outcome = Returned "failoverError option" | Panicked

definition isHealthy :: "ClusterClient \<Rightarrow> string \<Rightarrow> bool" where
  "isHealthy cc endpoint \<longleftrightarrow> map_of (nodeHealth cc) endpoint = Some True"

definition healthyEndpoints :: "ClusterClient \<Rightarrow> string list" where
  "healthyEndpoints cc = map fst (filter snd (nodeHealth cc))"

definition setHealth :: "string \<Rightarrow> bool \<Rightarrow> ClusterClient \<Rightarrow> ClusterClient" where
  "setHealth endpoint h cc = cc\<lparr>nodeHealth := AList.update endpoint h (nodeHealth cc)\<rparr>"

text \<open>\<^verbatim>\<open>cc.clients[endpoint] = NewClient(...)\<close> with a client at a fresh address.\<close>

definition storeNewClient :: "string \<Rightarrow> ClusterClient \<Rightarrow> ClusterClient" where
  "storeNewClient endpoint cc =
     cc\<lparr>clients := AList.update endpoint (Some (nextClient cc)) (clients cc),
        nextClient := Suc (nextClient cc)\<rparr>"

subsection \<open>NewClusterClient, initialHealthCheck\<close>

text \<open>
  The check of one endpoint at construction; \<open>probe endpoint\<close> is the outcome of the three
  steps (test client, \<^verbatim>\<open>GetNodes\<close>, full client) and \<open>now\<close> the clock reading.
\<close>

definition initialCheckEndpoint ::
  "(string \<Rightarrow> connectResult) \<Rightarrow> time \<Rightarrow> string \<Rightarrow> ClusterClient \<Rightarrow> ClusterClient" where
  "initialCheckEndpoint probe now endpoint cc =
     (let cc1 = (case probe endpoint of
                   Connected \<Rightarrow> storeNewClient endpoint (setHealth endpoint True cc)
                 | NewClientFailed \<Rightarrow> setHealth endpoint False cc
                 | ConnectivityTestFailed \<Rightarrow> setHealth endpoint False cc
                 | FullClientFailed \<Rightarrow> setHealth endpoint False cc)
      in cc1\<lparr>lastHealthCheck := (lastHealthCheck cc1)(endpoint \<mapsto> now)\<rparr>)"

definition NewClusterClient ::
  "(string \<Rightarrow> connectResult) \<Rightarrow> time \<Rightarrow> string \<Rightarrow> string list \<Rightarrow> ClusterClient" where
  "NewClusterClient probe now clusterName eps =
     fold (initialCheckEndpoint probe now) eps
       \<lparr>name = clusterName, clients = [], endpoints = eps,
        nodeHealth = fold (\<lambda>endpoint. AList.update endpoint False) eps [],
        lastHealthCheck = Map.empty, nextClient = 0\<rparr>"

subsection \<open>markUnhealthy, recoverUnhealthyNodes, getHealthyClient\<close>

definition markUnhealthy :: "string \<Rightarrow> ClusterClient \<Rightarrow> ClusterClient" where
  "markUnhealthy endpoint cc = (if isHealthy cc endpoint then setHealth endpoint False cc else cc)"

text \<open>One goroutine of the recovery pass: the probe of one unhealthy endpoint.\<close>

definition recoverEndpoint :: "env \<Rightarrow> nat \<Rightarrow> string \<Rightarrow> ClusterClient \<Rightarrow> ClusterClient" where
  "recoverEndpoint e i endpoint cc =
     (let cc1 = cc\<lparr>lastHealthCheck := (lastHealthCheck cc)(endpoint \<mapsto> clock e i)\<rparr>
      in case recovers e i endpoint of
           ProbeFailed \<Rightarrow> cc1
         | Recovered \<Rightarrow> storeNewClient endpoint (setHealth endpoint True cc1)
         | RecoveredNilClient \<Rightarrow>
             (setHealth endpoint True cc1)\<lparr>clients := AList.update endpoint None (clients cc1)\<rparr>)"

definition recoverUnhealthyNodes :: "env \<Rightarrow> nat \<Rightarrow> ClusterClient \<Rightarrow> ClusterClient" where
  "recoverUnhealthyNodes e i cc =
     (let now = clock e i;
          unhealthyEndpoints =
            filter (\<lambda>endpoint. case lastHealthCheck cc endpoint of
                                 Some lastCheck \<Rightarrow> \<not> now - lastCheck < 30 * second
                               | None \<Rightarrow> True)
              (map fst (filter (\<lambda>(endpoint, healthy). \<not> healthy) (nodeHealth cc)))
      in fold (recoverEndpoint e i) unhealthyEndpoints cc)"

text \<open>
  The endpoint \<^verbatim>\<open>getHealthyClient\<close> selects at attempt \<open>i\<close>: a healthy endpoint, after the
  recovery pass when none was healthy. It is only read when there is a healthy endpoint.
\<close>

definition afterRecovery :: "env \<Rightarrow> nat \<Rightarrow> ClusterClient \<Rightarrow> ClusterClient" where
  "afterRecovery e i cc = (if healthyEndpoints cc = [] then recoverUnhealthyNodes e i cc else cc)"

definition selectedEndpoint :: "env \<Rightarrow> nat \<Rightarrow> ClusterClient \<Rightarrow> string" where
  "selectedEndpoint e i cc =
     (let healthy = healthyEndpoints (afterRecovery e i cc)
      in healthy ! (rnd e i mod length healthy))"

definition getHealthyClient ::
  "env \<Rightarrow> nat \<Rightarrow> ClusterClient \<Rightarrow> ClusterClient \<times> (failoverError + nat option)" where
  "getHealthyClient e i cc =
     (let cc1 = afterRecovery e i cc
      in if healthyEndpoints cc1 = [] then (cc1, Inl NoHealthyNodes)
         else
           let endpoint = selectedEndpoint e i cc in
           case map_of (clients cc1) endpoint of
             Some client \<Rightarrow> (cc1, Inr client)
           | None \<Rightarrow>
               (case connect e i endpoint of
                  NewClientFailed \<Rightarrow>
                    (setHealth endpoint False cc1, Inl (CreateClientFailed endpoint))
                | ConnectivityTestFailed \<Rightarrow>
                    (setHealth endpoint False cc1, Inl (ConnectivityFailed endpoint))
                | FullClientFailed \<Rightarrow>
                    (setHealth endpoint False cc1, Inl (CreateClientFailed endpoint))
                | Connected \<Rightarrow>
                    (storeNewClient endpoint cc1, Inr (Some (nextClient cc1)))))"

subsection \<open>executeWithFailover\<close>

text \<open>
  The search of \<^verbatim>\<open>cc.clients\<close> for the endpoint of the client in hand; the empty string
  when no entry holds it.
\<close>

definition clientEndpointOf :: "ClusterClient \<Rightarrow> nat option \<Rightarrow> string" where
  "clientEndpointOf cc client =
     (case find (\<lambda>(endpoint, c). c = client) (clients cc) of
        Some (endpoint, c) \<Rightarrow> endpoint
      | None \<Rightarrow> [])"

text \<open>
  The loop of \<^verbatim>\<open>executeWithFailover\<close>: \<open>i\<close> is the attempt number and \<open>n\<close> the number of
  attempts left. The result is the final state, the outcome and the calls of \<^verbatim>\<open>fn\<close> that
  returned, each with the endpoint found for its client and its result.
\<close>

fun failoverLoop ::
  "env \<Rightarrow> nat \<Rightarrow> nat \<Rightarrow> ClusterClient
     \<Rightarrow> ClusterClient \<times> outcome \<times> (string \<times> string option) list" where
  "failoverLoop e i 0 cc = (cc, Returned (Some AllNodesFailed), [])"
| "failoverLoop e i (Suc n) cc =
     (case getHealthyClient e i cc of
        (cc1, Inl err) \<Rightarrow> (cc1, Returned (Some err), [])
      | (cc1, Inr None) \<Rightarrow> (cc1, Panicked, [])
      | (cc1, Inr (Some p)) \<Rightarrow>
          (case fn e i p of
             None \<Rightarrow> (cc1, Returned None, [(clientEndpointOf cc1 (Some p), None)])
           | Some errStr \<Rightarrow>
               if isNodeSpecific errStr
               then (cc1, Returned (Some (CallError errStr)),
                     [(clientEndpointOf cc1 (Some p), Some errStr)])
               else if IsAuthError errStr
               then (cc1, Returned (Some (CallError errStr)),
                     [(clientEndpointOf cc1 (Some p), Some errStr)])
               else
                 (case failoverLoop e (i + 1) n
                         (markUnhealthy (clientEndpointOf cc1 (Some p)) cc1) of
                    (cc2, result, calls) \<Rightarrow>
                      (cc2, result, (clientEndpointOf cc1 (Some p), Some errStr) # calls))))"

definition executeWithFailover ::
  "env \<Rightarrow> ClusterClient \<Rightarrow> ClusterClient \<times> outcome \<times> (string \<times> string option) list" where
  "executeWithFailover e cc = failoverLoop e 0 (length (endpoints cc)) cc"

text \<open>
  The invariant of the two maps: each is a map (no key twice), every client object was
  allocated by \<^verbatim>\<open>NewClient\<close>, and no client object is stored under two endpoints.
\<close>

definition ccWellFormed :: "ClusterClient \<Rightarrow> bool" where
  "ccWellFormed cc \<longleftrightarrow>
     distinct (map fst (nodeHealth cc)) \<and> distinct (map fst (clients cc)) \<and>
     (\<forall>endpoint p. map_of (clients cc) endpoint = Some (Some p) \<longrightarrow> p < nextClient cc) \<and>
     (\<forall>endpoint endpoint' p.
        map_of (clients cc) endpoint = Some (Some p) \<and>
        map_of (clients cc) endpoint' = Some (Some p) \<longrightarrow> endpoint = endpoint')"

section \<open>Initial states and example inputs\<close>

text \<open>The configuration that \<^verbatim>\<open>NewManager\<close> installs, as far as the model has its fields.\<close>

definition defaultNodeThresholds :: ThresholdConfig where
  "defaultNodeThresholds =
     \<lparr>CPU = Some \<lparr>Trigger = 80, Clear = 75\<rparr>, Memory = Some \<lparr>Trigger = 85, Clear = 80\<rparr>,
      Disk = Some \<lparr>Trigger = 90, Clear = 85\<rparr>, DiskRead = None, DiskWrite = None,
      NetworkIn = None, NetworkOut = None\<rparr>"

definition defaultConfig :: AlertConfig where
  "defaultConfig =
     \<lparr>Enabled = True, NodeDefaults = defaultNodeThresholds,
      StorageDefault = \<lparr>Trigger = 85, Clear = 80\<rparr>,
      Schedule = \<lparr>MaxAlertsHour = 10,
                  Escalation = \<lparr>EscalationEnabled = False,
                                Levels = [\<lparr>After = 15, Notify = ''email''\<rparr>,
                                          \<lparr>After = 30, Notify = ''webhook''\<rparr>,
                                          \<lparr>After = 60, Notify = ''all''\<rparr>]\<rparr>\<rparr>,
      MinimumDelta = 2, SuppressionWindow = 5, HysteresisMargin = 5, TimeThreshold = 0\<rparr>"

definition emptyAlert :: Alert where
  "emptyAlert =
     \<lparr>ID = [], Type = [], Level = AlertLevelWarning, ResourceID = [], ResourceName = [],
      Node = [], Instance = [], Message = NodeOfflineMessage [], Value = 0, Threshold = 0,
      StartTime = zeroTime, LastSeen = zeroTime, Acknowledged = False, AckTime = None,
      AckUser = [], Metadata = None, LastEscalation = 0, EscalationTimes = []\<rparr>"

text \<open>
  The manager that \<^verbatim>\<open>NewManager\<close> builds when no alert file is loaded, with the three
  callbacks set.
\<close>

definition newManager :: "AlertConfig \<Rightarrow> Manager" where
  "newManager cfg =
     \<lparr>config = cfg, store = (\<lambda>p. emptyAlert), nextPtr = 0, activeAlerts = [], history = [],
      onAlert = True, onResolved = True, onEscalate = True, events = [],
      alertRateLimit = Map.empty, recentAlerts = Map.empty, suppressedUntil = Map.empty,
      recentlyResolved = Map.empty, pendingAlerts = Map.empty, nodeOfflineCount = Map.empty\<rparr>"

text \<open>Node \<^verbatim>\<open>px1\<close> of instance \<^verbatim>\<open>lab\<close>, seen offline and seen online.\<close>

definition noUsage :: Usage where
  "noUsage = \<lparr>uTotal = 0, uUsed = 0, uFree = 0, uUsage = 0\<rparr>"

definition offlineNode :: Node where
  "offlineNode =
     \<lparr>nID = ''lab-px1'', nName = ''px1'', nInstance = ''lab'', nHost = ''https://px1:8006'',
      nStatus = ''offline'', nType = ''node'', nCPU = 0, nMemory = noUsage, nDisk = noUsage,
      nUptime = 0, nLoadAverage = [], nKernelVersion = [], nPVEVersion = [],
      nCPUInfo = \<lparr>cModel = [], cCores = 0, cSockets = 0, cMHz = []\<rparr>,
      nLastSeen = 0, ConnectionHealth = ''error''\<rparr>"

definition onlineNode :: Node where
  "onlineNode = offlineNode\<lparr>nStatus := ''online'', ConnectionHealth := ''healthy''\<rparr>"

text \<open>Guest 100 on node \<^verbatim>\<open>px1\<close> of instance \<^verbatim>\<open>lab\<close>, stopped.\<close>

definition stoppedGuest :: Guest where
  "stoppedGuest =
     \<lparr>gID = ''lab-px1-100'', gVMID = 100, gName = ''vm100'', gNode = ''px1'', gInstance = ''lab'',
      gStatus = ''stopped'', gType = ''qemu'', gCPU = 0, gCPUs = 2, gMemory = noUsage,
      gDisk = noUsage, gNetworkIn = 0, gNetworkOut = 0, gDiskRead = 0, gDiskWrite = 0,
      gUptime = 0, gTemplate = False, gLastSeen = 0, gTags = []\<rparr>"

text \<open>The same guest running, with its CPU at 95 percent.\<close>

definition runningGuest :: Guest where
  "runningGuest = stoppedGuest\<lparr>gStatus := ''running'', gCPU := 95\<rparr>"

definition guestThresholds :: ThresholdConfig where
  "guestThresholds =
     \<lparr>CPU = Some \<lparr>Trigger = 80, Clear = 75\<rparr>, Memory = Some \<lparr>Trigger = 85, Clear = 80\<rparr>,
      Disk = Some \<lparr>Trigger = 90, Clear = 85\<rparr>,
      DiskRead = Some \<lparr>Trigger = 150, Clear = 125\<rparr>, DiskWrite = Some \<lparr>Trigger = 150, Clear = 125\<rparr>,
      NetworkIn = Some \<lparr>Trigger = 200, Clear = 175\<rparr>, NetworkOut = Some \<lparr>Trigger = 200, Clear = 175\<rparr>\<rparr>"

text \<open>A manager with a CPU alert for guest 100 and one for guest 101.\<close>

definition twoAlertManager :: Manager where
  "twoAlertManager =
     (newManager defaultConfig)
       \<lparr>store := (\<lambda>p. emptyAlert)
          (0 := newAlert ''lab-px1-100-cpu'' ''lab-px1-100'' ''vm100'' ''px1'' ''lab'' ''VM'' ''cpu''
                  90 \<lparr>Trigger = 80, Clear = 75\<rparr> 0,
           1 := newAlert ''lab-px1-101-cpu'' ''lab-px1-101'' ''vm101'' ''px1'' ''lab'' ''VM'' ''cpu''
                  85 \<lparr>Trigger = 80, Clear = 75\<rparr> 0),
        nextPtr := 2,
        activeAlerts := [(''lab-px1-100-cpu'', 0), (''lab-px1-101-cpu'', 1)]\<rparr>"

text \<open>
  A manager with escalation switched on and the offline alert of node \<^verbatim>\<open>px1\<close> active,
  raised at time 0.
\<close>

definition escalatingConfig :: AlertConfig where
  "escalatingConfig =
     defaultConfig\<lparr>Schedule :=
       \<lparr>MaxAlertsHour = 10,
        Escalation = \<lparr>EscalationEnabled = True,
                      Levels = [\<lparr>After = 15, Notify = ''email''\<rparr>,
                                \<lparr>After = 30, Notify = ''webhook''\<rparr>,
                                \<lparr>After = 60, Notify = ''all''\<rparr>]\<rparr>\<rparr>\<rparr>"

definition offlineAlertManager :: Manager where
  "offlineAlertManager =
     (newManager escalatingConfig)
       \<lparr>store := (\<lambda>p. emptyAlert)(0 := offlineAlert offlineNode 0),
        nextPtr := 1,
        activeAlerts := [(''node-offline-lab-px1'', 0)],
        nodeOfflineCount := [''lab-px1'' \<mapsto> 3]\<rparr>"

text \<open>
  Samples of the CPU metric of guest 100 against trigger 80 and clear 75, and of its memory
  metric against trigger 85 and clear 80, outside quiet hours.
\<close>

definition sampleCPU :: "real \<Rightarrow> time \<Rightarrow> Manager \<Rightarrow> Manager" where
  "sampleCPU v now m =
     checkMetric ''lab-px1-100'' ''vm100'' ''px1'' ''lab'' ''VM'' ''cpu'' v
       (Some \<lparr>Trigger = 80, Clear = 75\<rparr>) now False m"

definition sampleMemory :: "real \<Rightarrow> time \<Rightarrow> Manager \<Rightarrow> Manager" where
  "sampleMemory v now m =
     checkMetric ''lab-px1-100'' ''vm100'' ''px1'' ''lab'' ''VM'' ''memory'' v
       (Some \<lparr>Trigger = 85, Clear = 80\<rparr>) now False m"

definition timeThresholdConfig :: AlertConfig where
  "timeThresholdConfig = defaultConfig\<lparr>TimeThreshold := 30\<rparr>"

text \<open>
  A storage pool checked against a storage threshold whose \<^verbatim>\<open>clear\<close> was left at 0: the
  first argument is the pool's usage.
\<close>

definition unsetClearConfig :: AlertConfig where
  "unsetClearConfig = defaultConfig\<lparr>StorageDefault := \<lparr>Trigger = 85, Clear = 0\<rparr>\<rparr>"

definition cephStorage :: "real \<Rightarrow> Storage" where
  "cephStorage usage =
     \<lparr>sID = ''shared-ceph'', sName = ''ceph'', sNode = ''shared'', sInstance = ''lab'',
      sType = ''rbd'', sStatus = ''available'', sTotal = 100, sUsed = 0, sFree = 0,
      sUsage = usage, sContent = ''images'', sShared = True, sEnabled = True, sActive = True\<rparr>"

text \<open>
  \<open>feedCPU vs m\<close> and \<open>feedMemory vs m\<close> hand the samples \<open>vs\<close> to the engine one poll
  after the other, ten seconds apart, starting at time 0.
\<close>

definition feedCPU :: "real list \<Rightarrow> Manager \<Rightarrow> Manager" where
  "feedCPU vs m = fold (\<lambda>(i, v). sampleCPU v (int i * (10 * second))) (enumerate 0 vs) m"

definition feedMemory :: "real list \<Rightarrow> Manager \<Rightarrow> Manager" where
  "feedMemory vs m = fold (\<lambda>(i, v). sampleMemory v (int i * (10 * second))) (enumerate 0 vs) m"

text \<open>
  The cluster client built by \<^verbatim>\<open>NewClusterClient\<close> for the endpoints \<^verbatim>\<open>e1\<close>,
  \<^verbatim>\<open>e2\<close>, \<^verbatim>\<open>e3\<close> when all three pass the initial health check, and a world in which
  the call fails with status 595 on every client.
\<close>

definition threeHealthy :: ClusterClient where
  "threeHealthy = NewClusterClient (\<lambda>endpoint. Connected) 0 ''lab'' [''e1'', ''e2'', ''e3'']"

definition world595 :: env where
  "world595 =
     \<lparr>clock = (\<lambda>i. 0), rnd = (\<lambda>i. 1), connect = (\<lambda>i endpoint. Connected),
      recovers = (\<lambda>i endpoint. ProbeFailed),
      fn = (\<lambda>i p. Some ''API error 595: no ticket for hostname lookup'')\<rparr>"

text \<open>A world in which the call is refused on every client.\<close>

definition worldRefused :: env where
  "worldRefused = world595\<lparr>fn := (\<lambda>i p. Some ''connection refused'')\<rparr>"

section \<open>Properties of the alert engine\<close>

subsection \<open>What each step of checkMetric changes\<close>

lemma metricAlertID_eq_iff:
  "metricAlertID rid mt = metricAlertID rid mt' \<longleftrightarrow> mt = mt'"
  by (simp add: metricAlertID_def)

lemma checkRateLimit_frame:
  "store (snd (checkRateLimit a now m)) = store m"
  "nextPtr (snd (checkRateLimit a now m)) = nextPtr m"
  "activeAlerts (snd (checkRateLimit a now m)) = activeAlerts m"
  "events (snd (checkRateLimit a now m)) = events m"
  "onAlert (snd (checkRateLimit a now m)) = onAlert m"
  "onResolved (snd (checkRateLimit a now m)) = onResolved m"
  "recentlyResolved (snd (checkRateLimit a now m)) = recentlyResolved m"
  "nodeOfflineCount (snd (checkRateLimit a now m)) = nodeOfflineCount m"
  "pendingAlerts (snd (checkRateLimit a now m)) = pendingAlerts m"
  "recentAlerts (snd (checkRateLimit a now m)) = recentAlerts m"
  "suppressedUntil (snd (checkRateLimit a now m)) = suppressedUntil m"
  "config (snd (checkRateLimit a now m)) = config m"
  by (simp_all add: checkRateLimit_def Let_def)

lemma createAlert_store:
  "store (createAlert a rid rn nd inst rt mt v th now quiet m)
     = (store m)(nextPtr m := newAlert a rid rn nd inst rt mt v th now)"
  by (simp add: createAlert_def Let_def split_beta checkRateLimit_frame)

lemma createAlert_frame:
  "nextPtr (createAlert a rid rn nd inst rt mt v th now quiet m) = Suc (nextPtr m)"
  "activeAlerts (createAlert a rid rn nd inst rt mt v th now quiet m)
     = AList.update a (nextPtr m) (activeAlerts m)"
  "recentlyResolved (createAlert a rid rn nd inst rt mt v th now quiet m) = recentlyResolved m"
  "nodeOfflineCount (createAlert a rid rn nd inst rt mt v th now quiet m) = nodeOfflineCount m"
  "pendingAlerts (createAlert a rid rn nd inst rt mt v th now quiet m) = pendingAlerts m"
  "onResolved (createAlert a rid rn nd inst rt mt v th now quiet m) = onResolved m"
  "suppressedUntil (createAlert a rid rn nd inst rt mt v th now quiet m) = suppressedUntil m"
  "config (createAlert a rid rn nd inst rt mt v th now quiet m) = config m"
  "recentAlerts (createAlert a rid rn nd inst rt mt v th now quiet m) = (recentAlerts m)(a \<mapsto> nextPtr m)"
  by (simp_all add: createAlert_def Let_def split_beta checkRateLimit_frame)

lemma createAlert_events:
  "events (createAlert a rid rn nd inst rt mt v th now quiet m) = events m \<or>
   events (createAlert a rid rn nd inst rt mt v th now quiet m) = events m @ [AlertEvent (nextPtr m)]"
  by (simp add: createAlert_def Let_def split_beta checkRateLimit_frame)

lemma dedupOrCreate_cases:
  "dedupOrCreate a rid rn nd inst rt mt v th now quiet m =
     (if isRecentDuplicate m a v now
      then m\<lparr>suppressedUntil := (suppressedUntil m)(a \<mapsto> now + SuppressionWindow (config m) * minute)\<rparr>
      else createAlert a rid rn nd inst rt mt v th now quiet m)"
  by (simp only: dedupOrCreate_def)

lemma isRecentDuplicate_pendingAlerts:
  "isRecentDuplicate (m\<lparr>pendingAlerts := x\<rparr>) a v now = isRecentDuplicate m a v now"
  by (simp add: isRecentDuplicate_def split: option.splits)

lemma dedupOrCreate_frame:
  "recentlyResolved (dedupOrCreate a rid rn nd inst rt mt v th now quiet m) = recentlyResolved m"
  "nodeOfflineCount (dedupOrCreate a rid rn nd inst rt mt v th now quiet m) = nodeOfflineCount m"
  "onResolved (dedupOrCreate a rid rn nd inst rt mt v th now quiet m) = onResolved m"
  "config (dedupOrCreate a rid rn nd inst rt mt v th now quiet m) = config m"
  "pendingAlerts (dedupOrCreate a rid rn nd inst rt mt v th now quiet m) = pendingAlerts m"
  "nextPtr (dedupOrCreate a rid rn nd inst rt mt v th now quiet m)
     = (if isRecentDuplicate m a v now then nextPtr m else Suc (nextPtr m))"
  "activeAlerts (dedupOrCreate a rid rn nd inst rt mt v th now quiet m)
     = (if isRecentDuplicate m a v now then activeAlerts m
        else AList.update a (nextPtr m) (activeAlerts m))"
  "store (dedupOrCreate a rid rn nd inst rt mt v th now quiet m)
     = (if isRecentDuplicate m a v now then store m
        else (store m)(nextPtr m := newAlert a rid rn nd inst rt mt v th now))"
  by (simp_all add: dedupOrCreate_cases createAlert_frame createAlert_store)

lemma dedupOrCreate_events:
  "events m = es0 \<Longrightarrow> \<exists>es. events (dedupOrCreate a rid rn nd inst rt mt v th now quiet m) = es0 @ es"
  using createAlert_events [of a rid rn nd inst rt mt v th now quiet m]
  by (auto simp: dedupOrCreate_cases)

lemma dedupOrCreate_events_cases:
  "events m = es0 \<Longrightarrow>
     events (dedupOrCreate a rid rn nd inst rt mt v th now quiet m) = es0 \<or>
     events (dedupOrCreate a rid rn nd inst rt mt v th now quiet m) = es0 @ [AlertEvent (nextPtr m)]"
  using createAlert_events [of a rid rn nd inst rt mt v th now quiet m]
  by (auto simp: dedupOrCreate_cases)

lemma resolveAlert_frame:
  "nodeOfflineCount (resolveAlert a p now m) = nodeOfflineCount m"
  "onResolved (resolveAlert a p now m) = onResolved m"
  "config (resolveAlert a p now m) = config m"
  "store (resolveAlert a p now m) = store m"
  "nextPtr (resolveAlert a p now m) = nextPtr m"
  "pendingAlerts (resolveAlert a p now m) = pendingAlerts m"
  "suppressedUntil (resolveAlert a p now m) = suppressedUntil m"
  "recentAlerts (resolveAlert a p now m) = recentAlerts m"
  "activeAlerts (resolveAlert a p now m) = AList.delete a (activeAlerts m)"
  "recentlyResolved (resolveAlert a p now m) = (recentlyResolved m)(a \<mapsto> (p, now))"
  "events (resolveAlert a p now m) = (if onResolved m then events m @ [ResolvedEvent a] else events m)"
  by (simp_all add: resolveAlert_def Let_def)


lemma checkMetric_frame:
  "nodeOfflineCount (checkMetric rid rn nd inst rt mt v threshold now quiet m) = nodeOfflineCount m"
  "onResolved (checkMetric rid rn nd inst rt mt v threshold now quiet m) = onResolved m"
  "config (checkMetric rid rn nd inst rt mt v threshold now quiet m) = config m"
  "nextPtr m \<le> nextPtr (checkMetric rid rn nd inst rt mt v threshold now quiet m)"
  by (simp_all add: checkMetric_def Let_def dedupOrCreate_frame resolveAlert_frame
        isRecentDuplicate_pendingAlerts split: option.splits)

lemma checkMetric_active_other:
  "k \<noteq> metricAlertID rid mt \<Longrightarrow>
     map_of (activeAlerts (checkMetric rid rn nd inst rt mt v threshold now quiet m)) k
       = map_of (activeAlerts m) k"
  by (simp add: checkMetric_def Let_def dedupOrCreate_frame resolveAlert_frame delete_conv'
        update_conv' isRecentDuplicate_pendingAlerts split: option.splits)

lemma checkMetric_resolved_other:
  "k \<noteq> metricAlertID rid mt \<Longrightarrow>
     recentlyResolved (checkMetric rid rn nd inst rt mt v threshold now quiet m) k
       = recentlyResolved m k"
  by (simp add: checkMetric_def Let_def dedupOrCreate_frame resolveAlert_frame
        split: option.splits)

lemma checkMetric_store_other:
  "p < nextPtr m \<Longrightarrow> map_of (activeAlerts m) (metricAlertID rid mt) \<noteq> Some p \<Longrightarrow>
     store (checkMetric rid rn nd inst rt mt v threshold now quiet m) p = store m p"
  by (auto simp: checkMetric_def Let_def dedupOrCreate_frame resolveAlert_frame
        isRecentDuplicate_pendingAlerts split: option.splits)

lemma checkMetric_events:
  "\<exists>es. events (checkMetric rid rn nd inst rt mt v threshold now quiet m) = events m @ es"
  by (auto simp: checkMetric_def Let_def resolveAlert_frame intro: dedupOrCreate_events
        split: option.splits)

subsection \<open>Well-formedness is preserved\<close>

lemma snd_set_update: "snd ` set (AList.update k p al) \<subseteq> insert p (snd ` set al)"
  by (induction al) auto

lemma snd_set_delete: "snd ` set (AList.delete k al) \<subseteq> snd ` set al"
  by (induction al) auto

lemma map_snd_update_fresh:
  "distinct (map snd al) \<Longrightarrow> p \<notin> snd ` set al \<Longrightarrow> distinct (map snd (AList.update k p al))"
proof (induction al)
  case Nil
  then show ?case by simp
next
  case (Cons x al)
  obtain k' q where x: "x = (k', q)" by (cases x)
  show ?case
  proof (cases "k' = k")
    case True
    then show ?thesis using Cons.prems x by auto
  next
    case False
    have "q \<notin> snd ` set (AList.update k p al)"
      using snd_set_update [of k p al] Cons.prems x by auto
    then show ?thesis using Cons False x by auto
  qed
qed

lemma map_snd_delete: "distinct (map snd al) \<Longrightarrow> distinct (map snd (AList.delete k al))"
proof (induction al)
  case Nil
  then show ?case by simp
next
  case (Cons x al)
  obtain k' q where x: "x = (k', q)" by (cases x)
  have "q \<notin> snd ` set (AList.delete k al)"
    using snd_set_delete [of k al] Cons.prems x by auto
  then show ?case using Cons x by auto
qed

lemma alist_update_fresh:
  assumes "distinct (map fst al)" and "distinct (map snd al)" and "\<forall>p \<in> snd ` set al. p < (n::nat)"
  shows "distinct (map fst (AList.update k n al)) \<and> distinct (map snd (AList.update k n al))
           \<and> (\<forall>p \<in> snd ` set (AList.update k n al). p < Suc n)"
proof -
  have fresh: "n \<notin> snd ` set al" using assms(3) by blast
  have "p < Suc n" if "p \<in> snd ` set (AList.update k n al)" for p
  proof -
    have "p \<in> insert n (snd ` set al)" using that snd_set_update [of k n al] by blast
    then show ?thesis using assms(3) by (cases "p = n") (auto simp: less_Suc_eq)
  qed
  then show ?thesis
    using assms(1,2) fresh distinct_update [of al k n] map_snd_update_fresh [of al n k] by blast
qed

lemma alist_delete_wf:
  assumes "distinct (map fst al)" and "distinct (map snd al)" and "\<forall>p \<in> snd ` set al. p < (n::nat)"
    and "n \<le> n'"
  shows "distinct (map fst (AList.delete k al)) \<and> distinct (map snd (AList.delete k al))
           \<and> (\<forall>p \<in> snd ` set (AList.delete k al). p < n')"
proof -
  have "p < n'" if "p \<in> snd ` set (AList.delete k al)" for p
  proof -
    have "p \<in> snd ` set al" using that snd_set_delete [of k al] by blast
    then have "p < n" using assms(3) by blast
    then show ?thesis using assms(4) by simp
  qed
  then show ?thesis
    using assms(1,2) distinct_delete [of al k] map_snd_delete [of al k] by blast
qed

lemma wellFormed_update:
  assumes "wellFormed m" and "activeAlerts m' = AList.update k (nextPtr m) (activeAlerts m)"
    and "nextPtr m' = Suc (nextPtr m)"
  shows "wellFormed m'"
  unfolding wellFormed_def assms(2,3)
  using assms(1) alist_update_fresh [of "activeAlerts m" "nextPtr m" k]
  unfolding wellFormed_def by blast

lemma wellFormed_delete:
  assumes "wellFormed m" and "activeAlerts m' = AList.delete k (activeAlerts m)"
    and "nextPtr m \<le> nextPtr m'"
  shows "wellFormed m'"
  unfolding wellFormed_def assms(2)
  using assms(1,3) alist_delete_wf [of "activeAlerts m" "nextPtr m" "nextPtr m'" k]
  unfolding wellFormed_def by blast

lemma wellFormed_same:
  assumes "wellFormed m" and "activeAlerts m' = activeAlerts m" and "nextPtr m \<le> nextPtr m'"
  shows "wellFormed m'"
  unfolding wellFormed_def assms(2)
  using assms(1,3) unfolding wellFormed_def by (meson less_le_trans)

lemma wellFormed_ptr_inj:
  assumes "wellFormed m" and "map_of (activeAlerts m) k = Some p"
    and "map_of (activeAlerts m) k' = Some p"
  shows "k = k'"
proof -
  have a: "(k, p) \<in> set (activeAlerts m)" and b: "(k', p) \<in> set (activeAlerts m)"
    using assms(2,3) by (auto dest: map_of_SomeD)
  have "distinct (map snd (activeAlerts m))" using assms(1) by (simp add: wellFormed_def)
  then have "inj_on snd (set (activeAlerts m))" by (simp add: distinct_map)
  then have "(k, p) = (k', p)" using a b by (auto dest: inj_onD [of snd _ "(k, p)" "(k', p)"])
  then show ?thesis by simp
qed

lemma wellFormed_ptr_allocated:
  assumes "wellFormed m" and "map_of (activeAlerts m) k = Some p"
  shows "p < nextPtr m"
proof -
  have "(k, p) \<in> set (activeAlerts m)" using assms(2) by (rule map_of_SomeD)
  then have "p \<in> snd ` set (activeAlerts m)" by force
  then show ?thesis using assms(1) by (auto simp: wellFormed_def)
qed

subsection \<open>checkMetric, branch by branch\<close>

lemma checkMetric_None: "checkMetric rid rn nd inst rt mt v None now quiet m = m"
  by (simp add: checkMetric_def Let_def)

lemma checkMetric_disabled:
  "Trigger th \<le> 0 \<Longrightarrow> checkMetric rid rn nd inst rt mt v (Some th) now quiet m = m"
  by (simp add: checkMetric_def Let_def)

lemma checkMetric_suppressed:
  "isSuppressed m (metricAlertID rid mt) now \<Longrightarrow>
     checkMetric rid rn nd inst rt mt v (Some th) now quiet m = m"
  by (simp add: checkMetric_def Let_def)

lemma checkMetric_update:
  "0 < Trigger th \<Longrightarrow> \<not> isSuppressed m (metricAlertID rid mt) now \<Longrightarrow> Trigger th \<le> v \<Longrightarrow>
   map_of (activeAlerts m) (metricAlertID rid mt) = Some p \<Longrightarrow>
     checkMetric rid rn nd inst rt mt v (Some th) now quiet m
       = m\<lparr>store := (store m)(p := (store m p)
             \<lparr>LastSeen := now, Value := v,
              Level := (if Trigger th + 10 \<le> v then AlertLevelCritical else AlertLevelWarning)\<rparr>)\<rparr>"
  by (simp add: checkMetric_def Let_def)

lemma checkMetric_pending_start:
  "0 < Trigger th \<Longrightarrow> \<not> isSuppressed m (metricAlertID rid mt) now \<Longrightarrow> Trigger th \<le> v \<Longrightarrow>
   map_of (activeAlerts m) (metricAlertID rid mt) = None \<Longrightarrow> 0 < TimeThreshold (config m) \<Longrightarrow>
   pendingAlerts m (metricAlertID rid mt) = None \<Longrightarrow>
     checkMetric rid rn nd inst rt mt v (Some th) now quiet m
       = m\<lparr>pendingAlerts := (pendingAlerts m)(metricAlertID rid mt \<mapsto> now)\<rparr>"
  by (simp add: checkMetric_def Let_def)

lemma checkMetric_pending_wait:
  "0 < Trigger th \<Longrightarrow> \<not> isSuppressed m (metricAlertID rid mt) now \<Longrightarrow> Trigger th \<le> v \<Longrightarrow>
   map_of (activeAlerts m) (metricAlertID rid mt) = None \<Longrightarrow> 0 < TimeThreshold (config m) \<Longrightarrow>
   pendingAlerts m (metricAlertID rid mt) = Some t \<Longrightarrow> \<not> TimeThreshold (config m) * second \<le> now - t \<Longrightarrow>
     checkMetric rid rn nd inst rt mt v (Some th) now quiet m = m"
  by (simp add: checkMetric_def Let_def)

lemma checkMetric_pending_met:
  "0 < Trigger th \<Longrightarrow> \<not> isSuppressed m (metricAlertID rid mt) now \<Longrightarrow> Trigger th \<le> v \<Longrightarrow>
   map_of (activeAlerts m) (metricAlertID rid mt) = None \<Longrightarrow> 0 < TimeThreshold (config m) \<Longrightarrow>
   pendingAlerts m (metricAlertID rid mt) = Some t \<Longrightarrow> TimeThreshold (config m) * second \<le> now - t \<Longrightarrow>
     checkMetric rid rn nd inst rt mt v (Some th) now quiet m
       = dedupOrCreate (metricAlertID rid mt) rid rn nd inst rt mt v th now quiet
           (m\<lparr>pendingAlerts := (pendingAlerts m)(metricAlertID rid mt := None)\<rparr>)"
  by (simp add: checkMetric_def Let_def)

lemma checkMetric_immediate:
  "0 < Trigger th \<Longrightarrow> \<not> isSuppressed m (metricAlertID rid mt) now \<Longrightarrow> Trigger th \<le> v \<Longrightarrow>
   map_of (activeAlerts m) (metricAlertID rid mt) = None \<Longrightarrow> \<not> 0 < TimeThreshold (config m) \<Longrightarrow>
     checkMetric rid rn nd inst rt mt v (Some th) now quiet m
       = dedupOrCreate (metricAlertID rid mt) rid rn nd inst rt mt v th now quiet m"
  by (simp add: checkMetric_def Let_def)

lemma checkMetric_below_inactive:
  "0 < Trigger th \<Longrightarrow> \<not> isSuppressed m (metricAlertID rid mt) now \<Longrightarrow> \<not> Trigger th \<le> v \<Longrightarrow>
   map_of (activeAlerts m) (metricAlertID rid mt) = None \<Longrightarrow>
     checkMetric rid rn nd inst rt mt v (Some th) now quiet m
       = m\<lparr>pendingAlerts := (pendingAlerts m)(metricAlertID rid mt := None)\<rparr>"
  by (simp add: checkMetric_def Let_def)

lemma checkMetric_below_resolve:
  "0 < Trigger th \<Longrightarrow> \<not> isSuppressed m (metricAlertID rid mt) now \<Longrightarrow> \<not> Trigger th \<le> v \<Longrightarrow>
   map_of (activeAlerts m) (metricAlertID rid mt) = Some p \<Longrightarrow>
   v \<le> clearThreshold th \<Longrightarrow>
     checkMetric rid rn nd inst rt mt v (Some th) now quiet m
       = resolveAlert (metricAlertID rid mt) p now
           (m\<lparr>pendingAlerts := (pendingAlerts m)(metricAlertID rid mt := None)\<rparr>)"
  by (simp add: checkMetric_def Let_def)

lemma checkMetric_below_keep:
  "0 < Trigger th \<Longrightarrow> \<not> isSuppressed m (metricAlertID rid mt) now \<Longrightarrow> \<not> Trigger th \<le> v \<Longrightarrow>
   map_of (activeAlerts m) (metricAlertID rid mt) = Some p \<Longrightarrow>
   \<not> v \<le> clearThreshold th \<Longrightarrow>
     checkMetric rid rn nd inst rt mt v (Some th) now quiet m
       = m\<lparr>pendingAlerts := (pendingAlerts m)(metricAlertID rid mt := None)\<rparr>"
  by (simp add: checkMetric_def Let_def)


lemma checkMetric_shape:
  fixes m rid mt
  defines "m' \<equiv> \<lambda>rn nd inst rt v threshold now quiet.
             checkMetric rid rn nd inst rt mt v threshold now quiet m"
  shows "(activeAlerts (m' rn nd inst rt v threshold now quiet) = activeAlerts m
            \<and> nextPtr (m' rn nd inst rt v threshold now quiet) = nextPtr m)
       \<or> (activeAlerts (m' rn nd inst rt v threshold now quiet)
              = AList.update (metricAlertID rid mt) (nextPtr m) (activeAlerts m)
            \<and> nextPtr (m' rn nd inst rt v threshold now quiet) = Suc (nextPtr m))
       \<or> (activeAlerts (m' rn nd inst rt v threshold now quiet)
              = AList.delete (metricAlertID rid mt) (activeAlerts m)
            \<and> nextPtr (m' rn nd inst rt v threshold now quiet) = nextPtr m)"
proof (cases threshold)
  case None
  then show ?thesis by (simp add: m'_def checkMetric_None)
next
  case (Some th)
  let ?a = "metricAlertID rid mt"
  show ?thesis
  proof (cases "Trigger th \<le> 0 \<or> isSuppressed m ?a now")
    case True
    then show ?thesis
      using checkMetric_disabled [of th rid rn nd inst rt mt v now quiet m]
        checkMetric_suppressed [of m rid mt now rn nd inst rt v th quiet]
      by (auto simp: m'_def Some)
  next
    case False
    then have pos: "0 < Trigger th" and ns: "\<not> isSuppressed m ?a now" by auto
    show ?thesis
    proof (cases "Trigger th \<le> v")
      case above: True
      show ?thesis
      proof (cases "map_of (activeAlerts m) ?a")
        case (Some p)
        show ?thesis
          by (simp add: m'_def \<open>threshold = Some th\<close> checkMetric_update [OF pos ns above Some])
      next
        case None
        show ?thesis
        proof (cases "0 < TimeThreshold (config m)")
          case nt: False
          show ?thesis
            by (simp add: m'_def \<open>threshold = Some th\<close> checkMetric_immediate [OF pos ns above None nt]
                  dedupOrCreate_frame)
        next
          case tt: True
          show ?thesis
          proof (cases "pendingAlerts m ?a")
            case pn: None
            show ?thesis
              by (simp add: m'_def \<open>threshold = Some th\<close>
                    checkMetric_pending_start [OF pos ns above None tt pn])
          next
            case ps: (Some t)
            show ?thesis
            proof (cases "TimeThreshold (config m) * second \<le> now - t")
              case True
              show ?thesis
                by (simp add: m'_def \<open>threshold = Some th\<close>
                      checkMetric_pending_met [OF pos ns above None tt ps True]
                      dedupOrCreate_frame isRecentDuplicate_pendingAlerts)
            next
              case False
              show ?thesis
                by (simp add: m'_def \<open>threshold = Some th\<close>
                      checkMetric_pending_wait [OF pos ns above None tt ps False])
            qed
          qed
        qed
      qed
    next
      case below: False
      show ?thesis
      proof (cases "map_of (activeAlerts m) ?a")
        case None
        show ?thesis
          by (simp add: m'_def \<open>threshold = Some th\<close> checkMetric_below_inactive [OF pos ns below None])
      next
        case (Some p)
        show ?thesis
        proof (cases "v \<le> clearThreshold th")
          case True
          show ?thesis
            by (simp add: m'_def \<open>threshold = Some th\<close>
                  checkMetric_below_resolve [OF pos ns below Some True] resolveAlert_frame)
        next
          case False
          show ?thesis
            by (simp add: m'_def \<open>threshold = Some th\<close>
                  checkMetric_below_keep [OF pos ns below Some False])
        qed
      qed
    qed
  qed
qed

lemma wellFormed_checkMetric:
  assumes "wellFormed m"
  shows "wellFormed (checkMetric rid rn nd inst rt mt v threshold now quiet m)"
  using checkMetric_shape [of rid rn nd inst rt mt v threshold now quiet m]
    wellFormed_same [OF assms, of "checkMetric rid rn nd inst rt mt v threshold now quiet m"]
    wellFormed_update [OF assms, of "checkMetric rid rn nd inst rt mt v threshold now quiet m"]
    wellFormed_delete [OF assms, of "checkMetric rid rn nd inst rt mt v threshold now quiet m"]
  by auto

subsection \<open>The node checks\<close>

lemma offlineAlertID_neq:
  "length mt < 12 \<Longrightarrow> offlineAlertID node \<noteq> metricAlertID (nID node) mt"
proof
  assume l: "length mt < 12" and e: "offlineAlertID node = metricAlertID (nID node) mt"
  have "length (offlineAlertID node) = length (metricAlertID (nID node) mt)" using e by simp
  then show False using l by (simp add: offlineAlertID_def metricAlertID_def)
qed

lemma offlineAlertID_neq_metrics:
  "offlineAlertID node \<noteq> metricAlertID (nID node) ''cpu''"
  "offlineAlertID node \<noteq> metricAlertID (nID node) ''memory''"
  "offlineAlertID node \<noteq> metricAlertID (nID node) ''disk''"
  by (rule offlineAlertID_neq, simp)+

lemma checkNodeMetrics_frame:
  "nodeOfflineCount (checkNodeMetrics node th now quiet m) = nodeOfflineCount m"
  "onResolved (checkNodeMetrics node th now quiet m) = onResolved m"
  "config (checkNodeMetrics node th now quiet m) = config m"
  by (simp_all add: checkNodeMetrics_def Let_def checkMetric_frame)

lemma checkNodeMetrics_active:
  "map_of (activeAlerts (checkNodeMetrics node th now quiet m)) (offlineAlertID node)
     = map_of (activeAlerts m) (offlineAlertID node)"
  unfolding checkNodeMetrics_def Let_def
  by (simp only: checkMetric_active_other [OF offlineAlertID_neq_metrics(1)]
        checkMetric_active_other [OF offlineAlertID_neq_metrics(2)]
        checkMetric_active_other [OF offlineAlertID_neq_metrics(3)])

lemma checkNodeMetrics_resolved:
  "recentlyResolved (checkNodeMetrics node th now quiet m) (offlineAlertID node)
     = recentlyResolved m (offlineAlertID node)"
  unfolding checkNodeMetrics_def Let_def
  by (simp only: checkMetric_resolved_other [OF offlineAlertID_neq_metrics(1)]
        checkMetric_resolved_other [OF offlineAlertID_neq_metrics(2)]
        checkMetric_resolved_other [OF offlineAlertID_neq_metrics(3)])

lemma checkNodeMetrics_nextPtr: "nextPtr m \<le> nextPtr (checkNodeMetrics node th now quiet m)"
  unfolding checkNodeMetrics_def Let_def
  by (meson checkMetric_frame(4) le_trans)

lemma checkNodeMetrics_wellFormed:
  "wellFormed m \<Longrightarrow> wellFormed (checkNodeMetrics node th now quiet m)"
  unfolding checkNodeMetrics_def Let_def by (intro wellFormed_checkMetric)

lemma checkNodeMetrics_events:
  "\<exists>es. events (checkNodeMetrics node th now quiet m) = events m @ es"
proof -
  let ?c = "\<lambda>mt v t. checkMetric (nID node) (nName node) (nName node) (nInstance node) ''Node'' mt v t now quiet"
  let ?m1 = "?c ''cpu'' (nCPU node * 100) (CPU th) m"
  let ?m2 = "?c ''memory'' (uUsage (nMemory node)) (Memory th) ?m1"
  let ?m3 = "?c ''disk'' (uUsage (nDisk node)) (Disk th) ?m2"
  obtain e1 where e1: "events ?m1 = events m @ e1" using checkMetric_events by blast
  obtain e2 where e2: "events ?m2 = events ?m1 @ e2" using checkMetric_events by blast
  obtain e3 where e3: "events ?m3 = events ?m2 @ e3" using checkMetric_events by blast
  have "events ?m3 = events m @ (e1 @ e2 @ e3)" using e1 e2 e3 by simp
  then show ?thesis unfolding checkNodeMetrics_def Let_def by blast
qed

text \<open>An object that none of the node's three metric alerts points to is left alone.\<close>

lemma checkNodeMetrics_store:
  assumes "p < nextPtr m"
    and "map_of (activeAlerts m) (metricAlertID (nID node) ''cpu'') \<noteq> Some p"
    and "map_of (activeAlerts m) (metricAlertID (nID node) ''memory'') \<noteq> Some p"
    and "map_of (activeAlerts m) (metricAlertID (nID node) ''disk'') \<noteq> Some p"
  shows "store (checkNodeMetrics node th now quiet m) p = store m p"
proof -
  let ?c = "\<lambda>mt v t. checkMetric (nID node) (nName node) (nName node) (nInstance node) ''Node'' mt v t now quiet"
  let ?m1 = "?c ''cpu'' (nCPU node * 100) (CPU th) m"
  let ?m2 = "?c ''memory'' (uUsage (nMemory node)) (Memory th) ?m1"
  let ?m3 = "?c ''disk'' (uUsage (nDisk node)) (Disk th) ?m2"
  have s1: "store ?m1 p = store m p"
    using assms(1,2) by (rule checkMetric_store_other)
  have p1: "p < nextPtr ?m1"
    using assms(1) checkMetric_frame(4) [of m "nID node" _ _ _ _ "''cpu''"] by (meson less_le_trans)
  have a1: "map_of (activeAlerts ?m1) (metricAlertID (nID node) ''memory'') \<noteq> Some p"
    using assms(3) by (simp add: checkMetric_active_other metricAlertID_eq_iff)
  have s2: "store ?m2 p = store ?m1 p"
    using p1 a1 by (rule checkMetric_store_other)
  have p2: "p < nextPtr ?m2"
    using p1 checkMetric_frame(4) [of ?m1 "nID node" _ _ _ _ "''memory''"] by (meson less_le_trans)
  have a2: "map_of (activeAlerts ?m2) (metricAlertID (nID node) ''disk'') \<noteq> Some p"
    using assms(4) by (simp add: checkMetric_active_other metricAlertID_eq_iff)
  have s3: "store ?m3 p = store ?m2 p"
    using p2 a2 by (rule checkMetric_store_other)
  show ?thesis unfolding checkNodeMetrics_def Let_def using s1 s2 s3 by simp
qed

lemma checkNodeOffline_existing:
  "map_of (activeAlerts m) (offlineAlertID node) = Some p \<Longrightarrow>
     checkNodeOffline node now m = m\<lparr>store := (store m)(p := (store m p)\<lparr>StartTime := now\<rparr>)\<rparr>"
  by (simp add: checkNodeOffline_def)

lemma checkNodeOffline_wait:
  "map_of (activeAlerts m) (offlineAlertID node) = None \<Longrightarrow>
   offlineCount m (nID node) + 1 < requiredOfflineCount \<Longrightarrow>
     checkNodeOffline node now m
       = m\<lparr>nodeOfflineCount := (nodeOfflineCount m)(nID node \<mapsto> offlineCount m (nID node) + 1)\<rparr>"
  by (simp add: checkNodeOffline_def Let_def)

lemma checkNodeOffline_raise:
  assumes "map_of (activeAlerts m) (offlineAlertID node) = None"
    and "\<not> offlineCount m (nID node) + 1 < requiredOfflineCount"
  shows "activeAlerts (checkNodeOffline node now m)
           = AList.update (offlineAlertID node) (nextPtr m) (activeAlerts m)"
    and "store (checkNodeOffline node now m) = (store m)(nextPtr m := offlineAlert node now)"
    and "nextPtr (checkNodeOffline node now m) = Suc (nextPtr m)"
    and "nodeOfflineCount (checkNodeOffline node now m)
           = (nodeOfflineCount m)(nID node \<mapsto> offlineCount m (nID node) + 1)"
    and "events (checkNodeOffline node now m)
           = (if onAlert m then events m @ [AlertEvent (nextPtr m)] else events m)"
  using assms by (simp_all add: checkNodeOffline_def Let_def)

lemma checkNodeOffline_frame:
  "config (checkNodeOffline node now m) = config m"
  "onResolved (checkNodeOffline node now m) = onResolved m"
  "onEscalate (checkNodeOffline node now m) = onEscalate m"
  "nextPtr m \<le> nextPtr (checkNodeOffline node now m)"
  by (simp_all add: checkNodeOffline_def Let_def split: option.splits)

lemma wellFormed_checkNodeOffline:
  assumes "wellFormed m"
  shows "wellFormed (checkNodeOffline node now m)"
proof (cases "map_of (activeAlerts m) (offlineAlertID node)")
  case (Some p)
  show ?thesis
    by (rule wellFormed_same [OF assms]) (simp_all add: checkNodeOffline_existing [OF Some])
next
  case None
  show ?thesis
  proof (cases "offlineCount m (nID node) + 1 < requiredOfflineCount")
    case True
    show ?thesis
      by (rule wellFormed_same [OF assms]) (simp_all add: checkNodeOffline_wait [OF None True])
  next
    case False
    show ?thesis
      by (rule wellFormed_update [OF assms])
         (simp_all add: checkNodeOffline_raise [OF None False])
  qed
qed

lemma clearNodeOfflineAlert_count:
  "offlineCount (clearNodeOfflineAlert node now m) (nID node) = 0"
  by (simp add: clearNodeOfflineAlert_def Let_def offlineCount_def split: option.splits)

lemma clearNodeOfflineAlert_inactive:
  "map_of (activeAlerts m) (offlineAlertID node) = None \<Longrightarrow>
     activeAlerts (clearNodeOfflineAlert node now m) = activeAlerts m \<and>
     store (clearNodeOfflineAlert node now m) = store m \<and>
     nextPtr (clearNodeOfflineAlert node now m) = nextPtr m \<and>
     events (clearNodeOfflineAlert node now m) = events m \<and>
     recentlyResolved (clearNodeOfflineAlert node now m) = recentlyResolved m"
  by (simp add: clearNodeOfflineAlert_def Let_def)

lemma clearNodeOfflineAlert_active:
  "map_of (activeAlerts m) (offlineAlertID node) = Some p \<Longrightarrow>
     activeAlerts (clearNodeOfflineAlert node now m)
       = AList.delete (offlineAlertID node) (activeAlerts m) \<and>
     store (clearNodeOfflineAlert node now m) = store m \<and>
     nextPtr (clearNodeOfflineAlert node now m) = nextPtr m \<and>
     events (clearNodeOfflineAlert node now m)
       = (if onResolved m then events m @ [ResolvedEvent (offlineAlertID node)] else events m) \<and>
     recentlyResolved (clearNodeOfflineAlert node now m)
       = (recentlyResolved m)(offlineAlertID node \<mapsto> (p, now))"
  by (simp add: clearNodeOfflineAlert_def Let_def)

lemma clearNodeOfflineAlert_frame:
  "config (clearNodeOfflineAlert node now m) = config m"
  "onResolved (clearNodeOfflineAlert node now m) = onResolved m"
  "nextPtr (clearNodeOfflineAlert node now m) = nextPtr m"
  "store (clearNodeOfflineAlert node now m) = store m"
  by (simp_all add: clearNodeOfflineAlert_def Let_def split: option.splits)

lemma wellFormed_clearNodeOfflineAlert:
  assumes "wellFormed m"
  shows "wellFormed (clearNodeOfflineAlert node now m)"
proof (cases "map_of (activeAlerts m) (offlineAlertID node)")
  case None
  show ?thesis
    by (rule wellFormed_same [OF assms]) (simp_all add: clearNodeOfflineAlert_inactive [OF None])
next
  case (Some p)
  show ?thesis
    by (rule wellFormed_delete [OF assms]) (simp_all add: clearNodeOfflineAlert_active [OF Some])
qed

lemma CheckNode_enabled:
  "Enabled (config m) \<Longrightarrow>
     CheckNode node now quiet m =
       (let m1 = (if nodeIsOffline node then checkNodeOffline node now m
                  else clearNodeOfflineAlert node now m)
        in if nStatus node \<noteq> ''offline''
           then checkNodeMetrics node (NodeDefaults (config m)) now quiet m1 else m1)"
  by (simp add: CheckNode_def Let_def)

lemma CheckNode_config: "config (CheckNode node now quiet m) = config m"
  by (simp add: CheckNode_def Let_def checkNodeMetrics_frame checkNodeOffline_frame
        clearNodeOfflineAlert_frame)

lemma wellFormed_CheckNode:
  "wellFormed m \<Longrightarrow> wellFormed (CheckNode node now quiet m)"
  by (simp add: CheckNode_def Let_def checkNodeMetrics_wellFormed wellFormed_checkNodeOffline
        wellFormed_clearNodeOfflineAlert)

lemma CheckNode_offline_step:
  assumes en: "Enabled (config m)" and wf: "wellFormed m" and off: "nodeIsOffline node"
    and none: "map_of (activeAlerts m) (offlineAlertID node) = None"
  shows "offlineCount (CheckNode node now quiet m) (nID node) = offlineCount m (nID node) + 1"
    and "offlineCount m (nID node) + 1 < requiredOfflineCount \<Longrightarrow>
           map_of (activeAlerts (CheckNode node now quiet m)) (offlineAlertID node) = None"
    and "\<not> offlineCount m (nID node) + 1 < requiredOfflineCount \<Longrightarrow>
           map_of (activeAlerts (CheckNode node now quiet m)) (offlineAlertID node) = Some (nextPtr m)
           \<and> store (CheckNode node now quiet m) (nextPtr m) = offlineAlert node now
           \<and> (onAlert m \<longrightarrow> AlertEvent (nextPtr m) \<in> set (events (CheckNode node now quiet m)))"
proof -
  let ?k = "offlineAlertID node"
  let ?m1 = "checkNodeOffline node now m"
  let ?m' = "CheckNode node now quiet m"
  have m': "?m' = (if nStatus node \<noteq> ''offline''
                   then checkNodeMetrics node (NodeDefaults (config m)) now quiet ?m1 else ?m1)"
    using en off by (simp add: CheckNode_enabled)
  have cnt1: "nodeOfflineCount ?m1 = (nodeOfflineCount m)(nID node \<mapsto> offlineCount m (nID node) + 1)"
    using none by (simp add: checkNodeOffline_def Let_def)
  have "nodeOfflineCount ?m' = nodeOfflineCount ?m1"
    by (simp add: m' checkNodeMetrics_frame)
  then show "offlineCount ?m' (nID node) = offlineCount m (nID node) + 1"
    by (simp add: offlineCount_def cnt1)
  have act: "map_of (activeAlerts ?m') ?k = map_of (activeAlerts ?m1) ?k"
    by (simp add: m' checkNodeMetrics_active)
  show "map_of (activeAlerts ?m') ?k = None" if w: "offlineCount m (nID node) + 1 < requiredOfflineCount"
    unfolding act by (simp add: checkNodeOffline_wait [OF none w] none)
  show "map_of (activeAlerts ?m') ?k = Some (nextPtr m)
           \<and> store ?m' (nextPtr m) = offlineAlert node now
           \<and> (onAlert m \<longrightarrow> AlertEvent (nextPtr m) \<in> set (events ?m'))"
    if r: "\<not> offlineCount m (nID node) + 1 < requiredOfflineCount"
  proof -
    note raise = checkNodeOffline_raise [OF none r, of now]
    have a1: "map_of (activeAlerts ?m1) ?k = Some (nextPtr m)"
      by (simp add: raise(1) update_conv')
    have s1: "store ?m1 (nextPtr m) = offlineAlert node now"
      by (simp add: raise(2))
    have e1: "onAlert m \<longrightarrow> AlertEvent (nextPtr m) \<in> set (events ?m1)"
      by (simp add: raise(5))
    have fresh: "map_of (activeAlerts ?m1) (metricAlertID (nID node) mt) \<noteq> Some (nextPtr m)"
      if "offlineAlertID node \<noteq> metricAlertID (nID node) mt" for mt
    proof
      assume "map_of (activeAlerts ?m1) (metricAlertID (nID node) mt) = Some (nextPtr m)"
      then have "map_of (activeAlerts m) (metricAlertID (nID node) mt) = Some (nextPtr m)"
        using that by (simp add: raise(1) update_conv')
      then have "nextPtr m < nextPtr m" by (rule wellFormed_ptr_allocated [OF wf])
      then show False by simp
    qed
    have s': "store (checkNodeMetrics node (NodeDefaults (config m)) now quiet ?m1) (nextPtr m)
                = store ?m1 (nextPtr m)"
      by (rule checkNodeMetrics_store [OF _ fresh [OF offlineAlertID_neq_metrics(1)]
            fresh [OF offlineAlertID_neq_metrics(2)] fresh [OF offlineAlertID_neq_metrics(3)]])
         (simp add: raise(3))
    obtain es where es: "events (checkNodeMetrics node (NodeDefaults (config m)) now quiet ?m1)
                           = events ?m1 @ es"
      using checkNodeMetrics_events by blast
    have s: "store ?m' (nextPtr m) = offlineAlert node now"
      using s' s1 by (simp add: m')
    have e: "onAlert m \<longrightarrow> AlertEvent (nextPtr m) \<in> set (events ?m')"
      using e1 es by (auto simp: m')
    show ?thesis using a1 s e unfolding act by simp
  qed
qed

lemma CheckNode_online_step:
  assumes en: "Enabled (config m)" and wf: "wellFormed m" and on: "\<not> nodeIsOffline node"
  shows "offlineCount (CheckNode node now quiet m) (nID node) = 0"
    and "map_of (activeAlerts (CheckNode node now quiet m)) (offlineAlertID node) = None"
    and "map_of (activeAlerts m) (offlineAlertID node) = Some p \<Longrightarrow>
           recentlyResolved (CheckNode node now quiet m) (offlineAlertID node) = Some (p, now)
           \<and> store (CheckNode node now quiet m) p = store m p
           \<and> (onResolved m \<longrightarrow>
                ResolvedEvent (offlineAlertID node) \<in> set (events (CheckNode node now quiet m)))"
proof -
  let ?k = "offlineAlertID node"
  let ?m1 = "clearNodeOfflineAlert node now m"
  let ?m' = "CheckNode node now quiet m"
  have st: "nStatus node \<noteq> ''offline''" using on by (simp add: nodeIsOffline_def)
  have m': "?m' = checkNodeMetrics node (NodeDefaults (config m)) now quiet ?m1"
    using en on st by (simp add: CheckNode_enabled)
  have "nodeOfflineCount ?m' = nodeOfflineCount ?m1" by (simp add: m' checkNodeMetrics_frame)
  then show "offlineCount ?m' (nID node) = 0"
    using clearNodeOfflineAlert_count [of node now m] by (simp add: offlineCount_def)
  have act: "map_of (activeAlerts ?m') ?k = map_of (activeAlerts ?m1) ?k"
    by (simp add: m' checkNodeMetrics_active)
  show "map_of (activeAlerts ?m') ?k = None"
  proof (cases "map_of (activeAlerts m) ?k")
    case None
    then show ?thesis unfolding act by (simp add: clearNodeOfflineAlert_inactive)
  next
    case (Some q)
    then show ?thesis unfolding act by (simp add: clearNodeOfflineAlert_active delete_conv')
  qed
  show "recentlyResolved ?m' ?k = Some (p, now) \<and> store ?m' p = store m p
           \<and> (onResolved m \<longrightarrow> ResolvedEvent ?k \<in> set (events ?m'))"
    if act_p: "map_of (activeAlerts m) ?k = Some p"
  proof -
    note c = clearNodeOfflineAlert_active [OF act_p, of now]
    have r: "recentlyResolved ?m' ?k = Some (p, now)"
      by (simp add: m' checkNodeMetrics_resolved c)
    have other: "map_of (activeAlerts ?m1) (metricAlertID (nID node) mt) \<noteq> Some p"
      if ne: "offlineAlertID node \<noteq> metricAlertID (nID node) mt" for mt
    proof
      assume "map_of (activeAlerts ?m1) (metricAlertID (nID node) mt) = Some p"
      then have "map_of (activeAlerts m) (metricAlertID (nID node) mt) = Some p"
        using ne by (simp add: c delete_conv')
      then have "?k = metricAlertID (nID node) mt" by (rule wellFormed_ptr_inj [OF wf act_p])
      then show False using ne by simp
    qed
    have "p < nextPtr m" by (rule wellFormed_ptr_allocated [OF wf act_p])
    then have "p < nextPtr ?m1" by (simp add: c)
    then have "store ?m' p = store ?m1 p"
      unfolding m'
      by (rule checkNodeMetrics_store [OF _ other [OF offlineAlertID_neq_metrics(1)]
            other [OF offlineAlertID_neq_metrics(2)] other [OF offlineAlertID_neq_metrics(3)]])
    then have s: "store ?m' p = store m p" by (simp add: c)
    obtain es where es: "events ?m' = events ?m1 @ es"
      unfolding m' using checkNodeMetrics_events by blast
    have e: "onResolved m \<longrightarrow> ResolvedEvent ?k \<in> set (events ?m')"
      by (simp add: es c)
    show ?thesis using r s e by simp
  qed
qed

subsection \<open>Counting callback invocations\<close>


lemma callsOf_frame:
  "callsOf e (m\<lparr>pendingAlerts := x\<rparr>) = callsOf e m"
  "callsOf e (m\<lparr>store := y\<rparr>) = callsOf e m"
  by (simp_all add: callsOf_def)

lemma dedupOrCreate_callsOf:
  "e \<noteq> AlertEvent (nextPtr m) \<Longrightarrow>
     callsOf e (dedupOrCreate a rid rn nd inst rt mt v th now quiet m) = callsOf e m"
  using dedupOrCreate_events_cases [OF refl, of a rid rn nd inst rt mt v th now quiet m]
  by (auto simp: callsOf_def)

lemma resolveAlert_callsOf:
  "e \<noteq> ResolvedEvent a \<Longrightarrow> callsOf e (resolveAlert a q now m) = callsOf e m"
  by (simp add: callsOf_def resolveAlert_frame)

lemma checkMetric_callsOf:
  assumes na: "e \<noteq> AlertEvent (nextPtr m)" and nr: "e \<noteq> ResolvedEvent (metricAlertID rid mt)"
  shows "callsOf e (checkMetric rid rn nd inst rt mt v threshold now quiet m) = callsOf e m"
proof -
  have na': "e \<noteq> AlertEvent (nextPtr (m\<lparr>pendingAlerts := x\<rparr>))" for x using na by simp
  show ?thesis
    by (simp add: checkMetric_def Let_def callsOf_frame dedupOrCreate_callsOf [OF na]
          dedupOrCreate_callsOf [OF na'] resolveAlert_callsOf [OF nr] split: option.splits)
qed


lemma checkNodeMetrics_callsOf_resolved:
  "callsOf (ResolvedEvent (offlineAlertID node)) (checkNodeMetrics node th now quiet m)
     = callsOf (ResolvedEvent (offlineAlertID node)) m"
  by (simp add: checkNodeMetrics_def Let_def checkMetric_callsOf offlineAlertID_neq_metrics)

lemma checkNodeMetrics_callsOf_alert:
  assumes "q < nextPtr m"
  shows "callsOf (AlertEvent q) (checkNodeMetrics node th now quiet m) = callsOf (AlertEvent q) m"
proof -
  let ?c = "\<lambda>mt v t. checkMetric (nID node) (nName node) (nName node) (nInstance node) ''Node'' mt v t now quiet"
  let ?m1 = "?c ''cpu'' (nCPU node * 100) (CPU th) m"
  let ?m2 = "?c ''memory'' (uUsage (nMemory node)) (Memory th) ?m1"
  let ?m3 = "?c ''disk'' (uUsage (nDisk node)) (Disk th) ?m2"
  have p1: "q < nextPtr ?m1"
    using assms checkMetric_frame(4) [of m "nID node" _ _ _ _ "''cpu''"] by (meson less_le_trans)
  have p2: "q < nextPtr ?m2"
    using p1 checkMetric_frame(4) [of ?m1 "nID node" _ _ _ _ "''memory''"] by (meson less_le_trans)
  have c1: "callsOf (AlertEvent q) ?m1 = callsOf (AlertEvent q) m"
    using assms by (intro checkMetric_callsOf) simp_all
  have c2: "callsOf (AlertEvent q) ?m2 = callsOf (AlertEvent q) ?m1"
    using p1 by (intro checkMetric_callsOf) simp_all
  have c3: "callsOf (AlertEvent q) ?m3 = callsOf (AlertEvent q) ?m2"
    using p2 by (intro checkMetric_callsOf) simp_all
  show ?thesis unfolding checkNodeMetrics_def Let_def using c1 c2 c3 by simp
qed

lemma offlineAlert_record:
  "offlineAlert node now =
     \<lparr>ID = ''node-offline-'' @ nID node, Type = ''connectivity'', Level = AlertLevelCritical,
      ResourceID = nID node, ResourceName = nName node, Node = nName node,
      Instance = nInstance node, Message = NodeOfflineMessage (nName node),
      Value = 0, Threshold = 0, StartTime = now, LastSeen = zeroTime,
      Acknowledged = False, AckTime = None, AckUser = [], Metadata = None,
      LastEscalation = 0, EscalationTimes = []\<rparr>"
  by (simp add: offlineAlert_def offlineAlertID_def)

lemma CheckNode_disabled: "\<not> Enabled (config m) \<Longrightarrow> CheckNode node now quiet m = m"
  by (simp add: CheckNode_def)

lemma CheckNode_offline_calls:
  assumes en: "Enabled (config m)" and off: "nodeIsOffline node"
    and none: "map_of (activeAlerts m) (offlineAlertID node) = None"
    and r: "\<not> offlineCount m (nID node) + 1 < requiredOfflineCount"
  shows "callsOf (AlertEvent (nextPtr m)) (CheckNode node now quiet m)
           = callsOf (AlertEvent (nextPtr m)) m + (if onAlert m then 1 else 0)"
proof -
  let ?m1 = "checkNodeOffline node now m"
  let ?m' = "CheckNode node now quiet m"
  have m': "?m' = (if nStatus node \<noteq> ''offline''
                   then checkNodeMetrics node (NodeDefaults (config m)) now quiet ?m1 else ?m1)"
    using en off by (simp add: CheckNode_enabled)
  note raise = checkNodeOffline_raise [OF none r, of now]
  have c1: "callsOf (AlertEvent (nextPtr m)) ?m1
              = callsOf (AlertEvent (nextPtr m)) m + (if onAlert m then 1 else 0)"
    by (simp add: callsOf_def raise(5))
  have "nextPtr m < nextPtr ?m1" by (simp add: raise(3))
  then have "callsOf (AlertEvent (nextPtr m))
               (checkNodeMetrics node (NodeDefaults (config m)) now quiet ?m1)
             = callsOf (AlertEvent (nextPtr m)) ?m1"
    by (rule checkNodeMetrics_callsOf_alert)
  then show ?thesis using c1 by (simp add: m')
qed

lemma CheckNode_online_calls:
  assumes en: "Enabled (config m)" and on: "\<not> nodeIsOffline node"
  shows "map_of (activeAlerts m) (offlineAlertID node) = None \<Longrightarrow>
           recentlyResolved (CheckNode node now quiet m) (offlineAlertID node)
             = recentlyResolved m (offlineAlertID node)
         \<and> callsOf (ResolvedEvent (offlineAlertID node)) (CheckNode node now quiet m)
             = callsOf (ResolvedEvent (offlineAlertID node)) m"
    and "map_of (activeAlerts m) (offlineAlertID node) = Some p \<Longrightarrow>
           callsOf (ResolvedEvent (offlineAlertID node)) (CheckNode node now quiet m)
             = callsOf (ResolvedEvent (offlineAlertID node)) m + (if onResolved m then 1 else 0)"
proof -
  let ?k = "offlineAlertID node"
  let ?m1 = "clearNodeOfflineAlert node now m"
  let ?m' = "CheckNode node now quiet m"
  have st: "nStatus node \<noteq> ''offline''" using on by (simp add: nodeIsOffline_def)
  have m': "?m' = checkNodeMetrics node (NodeDefaults (config m)) now quiet ?m1"
    using en on st by (simp add: CheckNode_enabled)
  show "recentlyResolved ?m' ?k = recentlyResolved m ?k
         \<and> callsOf (ResolvedEvent ?k) ?m' = callsOf (ResolvedEvent ?k) m"
    if none: "map_of (activeAlerts m) ?k = None"
  proof -
    have "callsOf (ResolvedEvent ?k) ?m1 = callsOf (ResolvedEvent ?k) m"
      by (simp add: callsOf_def clearNodeOfflineAlert_inactive [OF none])
    then show ?thesis
      by (simp add: m' checkNodeMetrics_resolved checkNodeMetrics_callsOf_resolved
            clearNodeOfflineAlert_inactive [OF none])
  qed
  show "callsOf (ResolvedEvent ?k) ?m'
          = callsOf (ResolvedEvent ?k) m + (if onResolved m then 1 else 0)"
    if act: "map_of (activeAlerts m) ?k = Some p"
  proof -
    have "callsOf (ResolvedEvent ?k) ?m1
            = callsOf (ResolvedEvent ?k) m + (if onResolved m then 1 else 0)"
      by (simp add: callsOf_def clearNodeOfflineAlert_active [OF act])
    then show ?thesis by (simp add: m' checkNodeMetrics_callsOf_resolved)
  qed
qed

subsection \<open>Hysteresis evaluation of a metric sample\<close>

lemma createAlert_activeAlert:
  "activeAlert (createAlert a rid rn nd inst rt mt v th now quiet m) a
     = Some (newAlert a rid rn nd inst rt mt v th now)"
  by (simp add: activeAlert_def createAlert_frame createAlert_store update_conv')

lemma checkMetric_creates:
  assumes pos: "0 < Trigger th" and ns: "\<not> isSuppressed m (metricAlertID rid mt) now"
    and above: "Trigger th \<le> v" and none: "activeAlert m (metricAlertID rid mt) = None"
    and tt: "TimeThreshold (config m) \<le> 0
             \<or> (\<exists>t. pendingAlerts m (metricAlertID rid mt) = Some t
                    \<and> TimeThreshold (config m) * second \<le> now - t)"
    and nd: "\<not> isRecentDuplicate m (metricAlertID rid mt) v now"
  shows "activeAlert (checkMetric rid rn nd inst rt mt v (Some th) now quiet m) (metricAlertID rid mt)
           = Some (newAlert (metricAlertID rid mt) rid rn nd inst rt mt v th now)"
proof -
  let ?a = "metricAlertID rid mt"
  have none': "map_of (activeAlerts m) ?a = None" using none by (simp add: activeAlert_def)
  show ?thesis
  proof (cases "0 < TimeThreshold (config m)")
    case False
    show ?thesis
      by (simp add: checkMetric_immediate [OF pos ns above none' False] dedupOrCreate_cases nd
            createAlert_activeAlert)
  next
    case True
    with tt obtain t where t: "pendingAlerts m ?a = Some t"
      and met: "TimeThreshold (config m) * second \<le> now - t" by auto
    show ?thesis
      by (simp add: checkMetric_pending_met [OF pos ns above none' True t met] dedupOrCreate_cases
            isRecentDuplicate_pendingAlerts nd createAlert_activeAlert)
  qed
qed

lemma checkMetric_updates:
  assumes pos: "0 < Trigger th" and ns: "\<not> isSuppressed m (metricAlertID rid mt) now"
    and above: "Trigger th \<le> v" and act: "activeAlert m (metricAlertID rid mt) = Some al"
  shows "activeAlert (checkMetric rid rn nd inst rt mt v (Some th) now quiet m) (metricAlertID rid mt)
           = Some (al\<lparr>LastSeen := now, Value := v,
                      Level := (if Trigger th + 10 \<le> v then AlertLevelCritical
                                else AlertLevelWarning)\<rparr>)"
proof -
  from act obtain p where p: "map_of (activeAlerts m) (metricAlertID rid mt) = Some p"
    and al: "al = store m p" by (auto simp: activeAlert_def)
  show ?thesis
    by (simp add: checkMetric_update [OF pos ns above p] activeAlert_def p al)
qed

lemma checkMetric_resolves:
  assumes pos: "0 < Trigger th" and ns: "\<not> isSuppressed m (metricAlertID rid mt) now"
    and below: "v < Trigger th" and act: "activeAlert m (metricAlertID rid mt) = Some al"
  shows "v \<le> clearThreshold th \<Longrightarrow>
           activeAlert (checkMetric rid rn nd inst rt mt v (Some th) now quiet m) (metricAlertID rid mt) = None
         \<and> resolvedAlert (checkMetric rid rn nd inst rt mt v (Some th) now quiet m) (metricAlertID rid mt)
             = Some (al, now)
         \<and> events (checkMetric rid rn nd inst rt mt v (Some th) now quiet m)
             = (if onResolved m then events m @ [ResolvedEvent (metricAlertID rid mt)] else events m)"
    and "\<not> v \<le> clearThreshold th \<Longrightarrow>
           activeAlert (checkMetric rid rn nd inst rt mt v (Some th) now quiet m) (metricAlertID rid mt)
             = Some al"
proof -
  from act obtain p where p: "map_of (activeAlerts m) (metricAlertID rid mt) = Some p"
    and al: "al = store m p" by (auto simp: activeAlert_def)
  have nb: "\<not> Trigger th \<le> v" using below by simp
  show "activeAlert (checkMetric rid rn nd inst rt mt v (Some th) now quiet m) (metricAlertID rid mt) = None
         \<and> resolvedAlert (checkMetric rid rn nd inst rt mt v (Some th) now quiet m) (metricAlertID rid mt)
             = Some (al, now)
         \<and> events (checkMetric rid rn nd inst rt mt v (Some th) now quiet m)
             = (if onResolved m then events m @ [ResolvedEvent (metricAlertID rid mt)] else events m)"
    if c: "v \<le> clearThreshold th"
    by (simp add: checkMetric_below_resolve [OF pos ns nb p c] activeAlert_def resolvedAlert_def
          resolveAlert_frame delete_conv' al)
  show "activeAlert (checkMetric rid rn nd inst rt mt v (Some th) now quiet m) (metricAlertID rid mt)
             = Some al"
    if c: "\<not> v \<le> clearThreshold th"
    by (simp add: checkMetric_below_keep [OF pos ns nb p c] activeAlert_def p al)
qed

lemmas engine_eval =
  sampleCPU_def sampleMemory_def feedCPU_def feedMemory_def checkMetric_def dedupOrCreate_def
  createAlert_def resolveAlert_def checkRateLimit_def isSuppressed_def isRecentDuplicate_def
  newAlert_def Let_def newManager_def defaultConfig_def activeAlert_def resolvedAlert_def
  second_def hour_def minute_def metricAlertID_def clearThreshold_def enumerate_eq_zip

lemma cpu_sample_run:
  "activeAlert (feedCPU [70] (newManager defaultConfig)) ''lab-px1-100-cpu'' = None"
  "map_option Level (activeAlert (feedCPU [70, 80] (newManager defaultConfig)) ''lab-px1-100-cpu'')
     = Some AlertLevelWarning"
  "map_option StartTime (activeAlert (feedCPU [70, 80] (newManager defaultConfig)) ''lab-px1-100-cpu'')
     = Some (10 * second)"
  "map_option Value (activeAlert (feedCPU [70, 80, 82] (newManager defaultConfig)) ''lab-px1-100-cpu'')
     = Some 82"
  "map_option LastSeen (activeAlert (feedCPU [70, 80, 82, 78, 76] (newManager defaultConfig))
      ''lab-px1-100-cpu'') = Some (20 * second)"
  "activeAlert (feedCPU [70, 80, 82, 78, 76, 75] (newManager defaultConfig)) ''lab-px1-100-cpu'' = None"
  "map_option snd (resolvedAlert (feedCPU [70, 80, 82, 78, 76, 75] (newManager defaultConfig))
      ''lab-px1-100-cpu'') = Some (50 * second)"
  "events (feedCPU [70, 80, 82, 78, 76, 75] (newManager defaultConfig))
     = [AlertEvent 0, ResolvedEvent ''lab-px1-100-cpu'']"
  "activeAlert (feedCPU [70, 80, 82, 78, 76, 75, 74] (newManager defaultConfig)) ''lab-px1-100-cpu''
     = None"
  by (simp_all add: engine_eval)

text \<open>
  Claim C1, as amended. A sample is evaluated when its threshold is set with a positive
  trigger, and acted on when its alert id \<^verbatim>\<open>resourceId-metricType\<close> is not inside a
  suppression window. Then: a value at or above the trigger with no active alert, no
  time-threshold wait and no recent duplicate creates the alert, critical when the value is
  at least trigger + 10 and warning otherwise; a value at or above the trigger with an active
  alert updates that alert's \<^verbatim>\<open>LastSeen\<close>, \<^verbatim>\<open>Value\<close> and \<^verbatim>\<open>Level\<close>; a value below the
  trigger resolves an active alert (out of the active alerts, into \<^verbatim>\<open>recentlyResolved\<close>
  with the time of the sample, resolved callback called when set) exactly when the value is
  at most the clear threshold in force, which is \<^verbatim>\<open>clear\<close> when that is positive and the
  trigger otherwise. With trigger 80 and clear 75 the samples 70, 80, 82, 78, 76, 75, 74 raise
  the alert at the sample 80 and resolve it at the sample 75.
\<close>

theorem hysteresis_evaluation:
  assumes "0 < Trigger th" and "\<not> isSuppressed m (metricAlertID rid mt) now"
  shows "(Trigger th \<le> v \<and> activeAlert m (metricAlertID rid mt) = None
            \<and> (TimeThreshold (config m) \<le> 0
                 \<or> (\<exists>t. pendingAlerts m (metricAlertID rid mt) = Some t
                        \<and> TimeThreshold (config m) * second \<le> now - t))
            \<and> \<not> isRecentDuplicate m (metricAlertID rid mt) v now \<longrightarrow>
            (\<exists>al. activeAlert (checkMetric rid rn nd inst rt mt v (Some th) now quiet m)
                     (metricAlertID rid mt) = Some al
                 \<and> ID al = rid @ ''-'' @ mt \<and> Value al = v \<and> StartTime al = now
                 \<and> Level al = (if Trigger th + 10 \<le> v then AlertLevelCritical
                                else AlertLevelWarning)))
       \<and> (\<forall>al. Trigger th \<le> v \<and> activeAlert m (metricAlertID rid mt) = Some al \<longrightarrow>
            activeAlert (checkMetric rid rn nd inst rt mt v (Some th) now quiet m)
              (metricAlertID rid mt)
              = Some (al\<lparr>LastSeen := now, Value := v,
                         Level := (if Trigger th + 10 \<le> v then AlertLevelCritical
                                   else AlertLevelWarning)\<rparr>))
       \<and> (\<forall>al. v < Trigger th \<and> activeAlert m (metricAlertID rid mt) = Some al
              \<and> v \<le> clearThreshold th \<longrightarrow>
            activeAlert (checkMetric rid rn nd inst rt mt v (Some th) now quiet m)
              (metricAlertID rid mt) = None
          \<and> resolvedAlert (checkMetric rid rn nd inst rt mt v (Some th) now quiet m)
              (metricAlertID rid mt) = Some (al, now)
          \<and> events (checkMetric rid rn nd inst rt mt v (Some th) now quiet m)
              = (if onResolved m then events m @ [ResolvedEvent (metricAlertID rid mt)]
                 else events m))
       \<and> (\<forall>al. v < Trigger th \<and> activeAlert m (metricAlertID rid mt) = Some al
              \<and> \<not> v \<le> clearThreshold th \<longrightarrow>
            activeAlert (checkMetric rid rn nd inst rt mt v (Some th) now quiet m)
              (metricAlertID rid mt) = Some al)
       \<and> clearThreshold th = (if Clear th \<le> 0 then Trigger th else Clear th)
       \<and> metricAlertID rid mt = rid @ ''-'' @ mt
       \<and> activeAlert (feedCPU [70] (newManager defaultConfig)) ''lab-px1-100-cpu'' = None
       \<and> map_option StartTime
            (activeAlert (feedCPU [70, 80] (newManager defaultConfig)) ''lab-px1-100-cpu'')
             = Some (10 * second)
       \<and> activeAlert (feedCPU [70, 80, 82, 78, 76] (newManager defaultConfig)) ''lab-px1-100-cpu''
             \<noteq> None
       \<and> activeAlert (feedCPU [70, 80, 82, 78, 76, 75] (newManager defaultConfig))
             ''lab-px1-100-cpu'' = None
       \<and> map_option snd
            (resolvedAlert (feedCPU [70, 80, 82, 78, 76, 75] (newManager defaultConfig))
               ''lab-px1-100-cpu'') = Some (50 * second)"
proof -
  have A: "\<exists>al. activeAlert (checkMetric rid rn nd inst rt mt v (Some th) now quiet m)
                     (metricAlertID rid mt) = Some al
                 \<and> ID al = rid @ ''-'' @ mt \<and> Value al = v \<and> StartTime al = now
                 \<and> Level al = (if Trigger th + 10 \<le> v then AlertLevelCritical
                                else AlertLevelWarning)"
    if "Trigger th \<le> v" and "activeAlert m (metricAlertID rid mt) = None"
      and "TimeThreshold (config m) \<le> 0
                 \<or> (\<exists>t. pendingAlerts m (metricAlertID rid mt) = Some t
                        \<and> TimeThreshold (config m) * second \<le> now - t)"
      and "\<not> isRecentDuplicate m (metricAlertID rid mt) v now"
    using checkMetric_creates [OF assms that, of rn nd inst rt quiet]
    by (simp add: newAlert_def metricAlertID_def)
  have A': "Trigger th \<le> v \<and> activeAlert m (metricAlertID rid mt) = None
            \<and> (TimeThreshold (config m) \<le> 0
                 \<or> (\<exists>t. pendingAlerts m (metricAlertID rid mt) = Some t
                        \<and> TimeThreshold (config m) * second \<le> now - t))
            \<and> \<not> isRecentDuplicate m (metricAlertID rid mt) v now \<longrightarrow>
            (\<exists>al. activeAlert (checkMetric rid rn nd inst rt mt v (Some th) now quiet m)
                     (metricAlertID rid mt) = Some al
                 \<and> ID al = rid @ ''-'' @ mt \<and> Value al = v \<and> StartTime al = now
                 \<and> Level al = (if Trigger th + 10 \<le> v then AlertLevelCritical
                                else AlertLevelWarning))"
    using A by blast
  have B: "\<forall>al. Trigger th \<le> v \<and> activeAlert m (metricAlertID rid mt) = Some al \<longrightarrow>
            activeAlert (checkMetric rid rn nd inst rt mt v (Some th) now quiet m)
              (metricAlertID rid mt)
              = Some (al\<lparr>LastSeen := now, Value := v,
                         Level := (if Trigger th + 10 \<le> v then AlertLevelCritical
                                   else AlertLevelWarning)\<rparr>)"
    using checkMetric_updates [OF assms, of v _ rn nd inst rt quiet] by blast
  have C1: "\<forall>al. v < Trigger th \<and> activeAlert m (metricAlertID rid mt) = Some al
              \<and> v \<le> clearThreshold th \<longrightarrow>
            activeAlert (checkMetric rid rn nd inst rt mt v (Some th) now quiet m)
              (metricAlertID rid mt) = None
          \<and> resolvedAlert (checkMetric rid rn nd inst rt mt v (Some th) now quiet m)
              (metricAlertID rid mt) = Some (al, now)
          \<and> events (checkMetric rid rn nd inst rt mt v (Some th) now quiet m)
              = (if onResolved m then events m @ [ResolvedEvent (metricAlertID rid mt)]
                 else events m)"
    using checkMetric_resolves(1) [OF assms, of v _ rn nd inst rt quiet] by blast
  have C2: "\<forall>al. v < Trigger th \<and> activeAlert m (metricAlertID rid mt) = Some al
              \<and> \<not> v \<le> clearThreshold th \<longrightarrow>
            activeAlert (checkMetric rid rn nd inst rt mt v (Some th) now quiet m)
              (metricAlertID rid mt) = Some al"
    using checkMetric_resolves(2) [OF assms, of v _ rn nd inst rt quiet] by blast
  have D: "clearThreshold th = (if Clear th \<le> 0 then Trigger th else Clear th)"
    by (simp add: clearThreshold_def)
  have E: "metricAlertID rid mt = rid @ ''-'' @ mt" by (simp add: metricAlertID_def)
  have F: "activeAlert (feedCPU [70, 80, 82, 78, 76] (newManager defaultConfig)) ''lab-px1-100-cpu''
             \<noteq> None"
    using cpu_sample_run(5) by auto
  show ?thesis by (intro conjI) (fact A' B C1 C2 D E F cpu_sample_run(1,3,6,7))+
qed

theorem hysteresis_evaluation_witness:
  "0 < Trigger \<lparr>Trigger = 80, Clear = 75\<rparr>
   \<and> \<not> isSuppressed (newManager defaultConfig) (metricAlertID ''lab-px1-100'' ''cpu'') (10 * second)
   \<and> \<not> isSuppressed (feedCPU [70, 80] (newManager defaultConfig))
          (metricAlertID ''lab-px1-100'' ''cpu'') (20 * second)
   \<and> map_option Level
        (activeAlert (checkMetric ''lab-px1-100'' ''vm100'' ''px1'' ''lab'' ''VM'' ''cpu'' 91
                        (Some \<lparr>Trigger = 80, Clear = 75\<rparr>) (10 * second) False
                        (newManager defaultConfig)) (metricAlertID ''lab-px1-100'' ''cpu''))
       = Some AlertLevelCritical
   \<and> activeAlert (checkMetric ''lab-px1-100'' ''vm100'' ''px1'' ''lab'' ''VM'' ''cpu'' 75
                    (Some \<lparr>Trigger = 80, Clear = 75\<rparr>) (20 * second) False
                    (feedCPU [70, 80] (newManager defaultConfig)))
       (metricAlertID ''lab-px1-100'' ''cpu'') = None"
proof -
  let ?th = "\<lparr>Trigger = 80, Clear = 75\<rparr>"
  let ?a = "metricAlertID ''lab-px1-100'' ''cpu''"
  let ?m0 = "newManager defaultConfig"
  let ?m1 = "feedCPU [70, 80] (newManager defaultConfig)"
  have pos: "0 < Trigger ?th" by simp
  have ns0: "\<not> isSuppressed ?m0 ?a (10 * second)"
    by (simp add: isSuppressed_def newManager_def)
  have ns1: "\<not> isSuppressed ?m1 ?a (20 * second)"
    by (simp add: engine_eval)
  have pre0: "Trigger ?th \<le> 91 \<and> activeAlert ?m0 ?a = None
            \<and> (TimeThreshold (config ?m0) \<le> 0
                 \<or> (\<exists>t. pendingAlerts ?m0 ?a = Some t
                        \<and> TimeThreshold (config ?m0) * second \<le> 10 * second - t))
            \<and> \<not> isRecentDuplicate ?m0 ?a 91 (10 * second)"
    by (simp add: engine_eval)
  from hysteresis_evaluation [OF pos ns0, of 91 "''vm100''" "''px1''" "''lab''" "''VM''" False] pre0
  have c0: "map_option Level
        (activeAlert (checkMetric ''lab-px1-100'' ''vm100'' ''px1'' ''lab'' ''VM'' ''cpu'' 91
                        (Some ?th) (10 * second) False ?m0) ?a) = Some AlertLevelCritical"
    by auto
  obtain al where al: "activeAlert ?m1 ?a = Some al"
    using cpu_sample_run(3) by (auto simp: metricAlertID_def)
  have pre1: "(75::real) < Trigger ?th \<and> (75::real) \<le> clearThreshold ?th"
    by (simp add: clearThreshold_def)
  from hysteresis_evaluation [OF pos ns1, of 75 "''vm100''" "''px1''" "''lab''" "''VM''" False] al pre1
  have c1: "activeAlert (checkMetric ''lab-px1-100'' ''vm100'' ''px1'' ''lab'' ''VM'' ''cpu'' 75
                    (Some ?th) (20 * second) False ?m1) ?a = None"
    by blast
  show ?thesis using pos ns0 ns1 c0 c1 by (intro conjI)
qed

text \<open>
  Claim C1 as stated fails where the clear value is not set: the storage threshold with
  trigger 85 and clear 0 raises an alert at usage 90, and the next sample, usage 50, is below
  the trigger and not at or below clear, yet the alert is resolved.
\<close>

theorem hysteresis_resolution_counterexample:
  "activeAlert (CheckStorage (cephStorage 90) 0 False (newManager unsetClearConfig))
     ''shared-ceph-usage'' \<noteq> None
   \<and> (50::real) < Trigger (StorageDefault unsetClearConfig)
   \<and> \<not> (50::real) \<le> Clear (StorageDefault unsetClearConfig)
   \<and> activeAlert (CheckStorage (cephStorage 50) (10 * second) False
          (CheckStorage (cephStorage 90) 0 False (newManager unsetClearConfig)))
        ''shared-ceph-usage'' = None"
  by (simp add: CheckStorage_def cephStorage_def unsetClearConfig_def engine_eval)

subsection \<open>Time-threshold confirmation\<close>

lemma activeAlert_pendingAlerts:
  "activeAlert (m\<lparr>pendingAlerts := x\<rparr>) a = activeAlert m a"
  by (simp add: activeAlert_def)

lemma activeAlert_suppressedUntil:
  "activeAlert (m\<lparr>suppressedUntil := x\<rparr>) a = activeAlert m a"
  by (simp add: activeAlert_def)

lemma checkMetric_time_threshold_met:
  assumes pos: "0 < Trigger th" and ns: "\<not> isSuppressed m (metricAlertID rid mt) now"
    and tt: "0 < TimeThreshold (config m)"
    and none: "activeAlert m (metricAlertID rid mt) = None"
    and above: "Trigger th \<le> v" and pend: "pendingAlerts m (metricAlertID rid mt) = Some t"
    and met: "TimeThreshold (config m) * second \<le> now - t"
  shows "pendingAlerts (checkMetric rid rn nd inst rt mt v (Some th) now quiet m)
           (metricAlertID rid mt) = None"
    and "activeAlert (checkMetric rid rn nd inst rt mt v (Some th) now quiet m)
           (metricAlertID rid mt) \<noteq> None \<longleftrightarrow> \<not> isRecentDuplicate m (metricAlertID rid mt) v now"
proof -
  let ?a = "metricAlertID rid mt"
  let ?m0 = "m\<lparr>pendingAlerts := (pendingAlerts m)(?a := None)\<rparr>"
  have none': "map_of (activeAlerts m) ?a = None" using none by (simp add: activeAlert_def)
  note eq = checkMetric_pending_met [OF pos ns above none' tt pend met]
  show "pendingAlerts (checkMetric rid rn nd inst rt mt v (Some th) now quiet m) ?a = None"
    by (simp add: eq dedupOrCreate_frame)
  show "activeAlert (checkMetric rid rn nd inst rt mt v (Some th) now quiet m) ?a \<noteq> None
          \<longleftrightarrow> \<not> isRecentDuplicate m ?a v now"
  proof (cases "isRecentDuplicate m ?a v now")
    case True
    then show ?thesis
      by (simp add: eq dedupOrCreate_cases isRecentDuplicate_pendingAlerts
            activeAlert_suppressedUntil activeAlert_pendingAlerts none)
  next
    case False
    then show ?thesis
      by (simp add: eq dedupOrCreate_cases isRecentDuplicate_pendingAlerts createAlert_activeAlert)
  qed
qed

lemma checkMetric_below_clears_pending:
  assumes pos: "0 < Trigger th" and ns: "\<not> isSuppressed m (metricAlertID rid mt) now"
    and none: "activeAlert m (metricAlertID rid mt) = None" and below: "v < Trigger th"
  shows "checkMetric rid rn nd inst rt mt v (Some th) now quiet m
           = m\<lparr>pendingAlerts := (pendingAlerts m)(metricAlertID rid mt := None)\<rparr>"
proof -
  have none': "map_of (activeAlerts m) (metricAlertID rid mt) = None"
    using none by (simp add: activeAlert_def)
  have nb: "\<not> Trigger th \<le> v" using below by simp
  show ?thesis by (rule checkMetric_below_inactive [OF pos ns nb none'])
qed

lemma memory_sample_run:
  "pendingAlerts (feedMemory [86, 86, 86] (newManager timeThresholdConfig)) ''lab-px1-100-memory''
     = Some 0"
  "activeAlert (feedMemory [86, 86, 86] (newManager timeThresholdConfig)) ''lab-px1-100-memory''
     = None"
  "map_option StartTime
     (activeAlert (feedMemory [86, 86, 86, 86] (newManager timeThresholdConfig))
        ''lab-px1-100-memory'') = Some (30 * second)"
  "pendingAlerts (feedMemory [86, 86, 70] (newManager timeThresholdConfig)) ''lab-px1-100-memory''
     = None"
  "activeAlert (feedMemory [86, 86, 70, 86] (newManager timeThresholdConfig))
     ''lab-px1-100-memory'' = None"
  by (simp_all add: engine_eval timeThresholdConfig_def)

text \<open>
  Claim C4, as amended. Let the time threshold be positive, the threshold's trigger positive,
  the alert id outside a suppression window and no alert active for it. The first sample at
  or above the trigger only records \<^verbatim>\<open>pendingAlerts[alertId] = now\<close>. A later sample at or
  above the trigger changes nothing while less than \<^verbatim>\<open>timeThreshold\<close> seconds have passed
  since the recorded time; once that time has passed it clears the pending entry, and it
  creates the alert exactly when the sample is not a recent duplicate (the dedup check that
  follows the time threshold). A sample below the trigger deletes the pending entry and
  creates nothing. With a threshold of 30 s and polls every 10 s, samples of 86 at
  t = 0, 10, 20, 30 raise the alert at t = 30; a sample of 70 at t = 20 clears the pending
  entry, and the 86 at t = 30 then raises nothing.
\<close>

theorem time_threshold_confirmation:
  assumes "0 < Trigger th" and "\<not> isSuppressed m (metricAlertID rid mt) now"
    and "0 < TimeThreshold (config m)" and "activeAlert m (metricAlertID rid mt) = None"
  shows "(Trigger th \<le> v \<and> pendingAlerts m (metricAlertID rid mt) = None \<longrightarrow>
            checkMetric rid rn nd inst rt mt v (Some th) now quiet m
              = m\<lparr>pendingAlerts := (pendingAlerts m)(metricAlertID rid mt \<mapsto> now)\<rparr>)
       \<and> (\<forall>t. Trigger th \<le> v \<and> pendingAlerts m (metricAlertID rid mt) = Some t
              \<and> TimeThreshold (config m) * second \<le> now - t \<longrightarrow>
            pendingAlerts (checkMetric rid rn nd inst rt mt v (Some th) now quiet m)
              (metricAlertID rid mt) = None
          \<and> (activeAlert (checkMetric rid rn nd inst rt mt v (Some th) now quiet m)
                (metricAlertID rid mt) \<noteq> None
              \<longleftrightarrow> \<not> isRecentDuplicate m (metricAlertID rid mt) v now))
       \<and> (\<forall>t. Trigger th \<le> v \<and> pendingAlerts m (metricAlertID rid mt) = Some t
              \<and> \<not> TimeThreshold (config m) * second \<le> now - t \<longrightarrow>
            checkMetric rid rn nd inst rt mt v (Some th) now quiet m = m)
       \<and> (v < Trigger th \<longrightarrow>
            checkMetric rid rn nd inst rt mt v (Some th) now quiet m
              = m\<lparr>pendingAlerts := (pendingAlerts m)(metricAlertID rid mt := None)\<rparr>)
       \<and> pendingAlerts (feedMemory [86, 86, 86] (newManager timeThresholdConfig))
            ''lab-px1-100-memory'' = Some 0
       \<and> activeAlert (feedMemory [86, 86, 86] (newManager timeThresholdConfig))
            ''lab-px1-100-memory'' = None
       \<and> map_option StartTime
            (activeAlert (feedMemory [86, 86, 86, 86] (newManager timeThresholdConfig))
               ''lab-px1-100-memory'') = Some (30 * second)
       \<and> pendingAlerts (feedMemory [86, 86, 70] (newManager timeThresholdConfig))
            ''lab-px1-100-memory'' = None
       \<and> activeAlert (feedMemory [86, 86, 70, 86] (newManager timeThresholdConfig))
            ''lab-px1-100-memory'' = None"
proof -
  let ?a = "metricAlertID rid mt"
  let ?m' = "checkMetric rid rn nd inst rt mt v (Some th) now quiet m"
  have none': "map_of (activeAlerts m) ?a = None" using assms(4) by (simp add: activeAlert_def)
  have A: "Trigger th \<le> v \<and> pendingAlerts m ?a = None \<longrightarrow>
            ?m' = m\<lparr>pendingAlerts := (pendingAlerts m)(?a \<mapsto> now)\<rparr>"
    using checkMetric_pending_start [OF assms(1,2) _ none' assms(3)] by blast
  have B: "\<forall>t. Trigger th \<le> v \<and> pendingAlerts m ?a = Some t
              \<and> TimeThreshold (config m) * second \<le> now - t \<longrightarrow>
            pendingAlerts ?m' ?a = None
          \<and> (activeAlert ?m' ?a \<noteq> None \<longleftrightarrow> \<not> isRecentDuplicate m ?a v now)"
    using checkMetric_time_threshold_met [OF assms, of v _ rn nd inst rt quiet] by blast
  have C: "\<forall>t. Trigger th \<le> v \<and> pendingAlerts m ?a = Some t
              \<and> \<not> TimeThreshold (config m) * second \<le> now - t \<longrightarrow> ?m' = m"
    using checkMetric_pending_wait [OF assms(1,2) _ none' assms(3)] by blast
  have D: "v < Trigger th \<longrightarrow> ?m' = m\<lparr>pendingAlerts := (pendingAlerts m)(?a := None)\<rparr>"
    using checkMetric_below_clears_pending [OF assms(1,2,4)] by blast
  show ?thesis by (intro conjI) (fact A B C D memory_sample_run)+
qed

theorem time_threshold_confirmation_witness:
  "0 < Trigger \<lparr>Trigger = 85, Clear = 80\<rparr>
   \<and> \<not> isSuppressed (feedMemory [86, 86, 86] (newManager timeThresholdConfig))
          (metricAlertID ''lab-px1-100'' ''memory'') (30 * second)
   \<and> 0 < TimeThreshold (config (feedMemory [86, 86, 86] (newManager timeThresholdConfig)))
   \<and> activeAlert (feedMemory [86, 86, 86] (newManager timeThresholdConfig))
        (metricAlertID ''lab-px1-100'' ''memory'') = None
   \<and> activeAlert
        (checkMetric ''lab-px1-100'' ''vm100'' ''px1'' ''lab'' ''VM'' ''memory'' 86
           (Some \<lparr>Trigger = 85, Clear = 80\<rparr>) (30 * second) False
           (feedMemory [86, 86, 86] (newManager timeThresholdConfig)))
        (metricAlertID ''lab-px1-100'' ''memory'') \<noteq> None
   \<and> pendingAlerts
        (checkMetric ''lab-px1-100'' ''vm100'' ''px1'' ''lab'' ''VM'' ''memory'' 70
           (Some \<lparr>Trigger = 85, Clear = 80\<rparr>) (30 * second) False
           (feedMemory [86, 86, 86] (newManager timeThresholdConfig)))
        (metricAlertID ''lab-px1-100'' ''memory'') = None"
proof -
  let ?th = "\<lparr>Trigger = 85, Clear = 80\<rparr>"
  let ?a = "metricAlertID ''lab-px1-100'' ''memory''"
  let ?m = "feedMemory [86, 86, 86] (newManager timeThresholdConfig)"
  have pos: "0 < Trigger ?th" by simp
  have ns: "\<not> isSuppressed ?m ?a (30 * second)"
    by (simp add: engine_eval timeThresholdConfig_def)
  have tt: "0 < TimeThreshold (config ?m)"
    by (simp add: engine_eval timeThresholdConfig_def)
  have none: "activeAlert ?m ?a = None"
    using memory_sample_run(2) by (simp add: metricAlertID_def)
  have pend: "pendingAlerts ?m ?a = Some 0"
    using memory_sample_run(1) by (simp add: metricAlertID_def)
  have met: "TimeThreshold (config ?m) * second \<le> 30 * second - 0"
    by (simp add: engine_eval timeThresholdConfig_def)
  have nd: "\<not> isRecentDuplicate ?m ?a 86 (30 * second)"
    by (simp add: engine_eval timeThresholdConfig_def)
  note inst86 = time_threshold_confirmation [OF pos ns tt none, of 86 "''vm100''" "''px1''" "''lab''" "''VM''" False]
  have c1: "activeAlert
        (checkMetric ''lab-px1-100'' ''vm100'' ''px1'' ''lab'' ''VM'' ''memory'' 86
           (Some ?th) (30 * second) False ?m) ?a \<noteq> None"
    using inst86 pend met nd by simp
  note inst70 = time_threshold_confirmation [OF pos ns tt none, of 70 "''vm100''" "''px1''" "''lab''" "''VM''" False]
  have "checkMetric ''lab-px1-100'' ''vm100'' ''px1'' ''lab'' ''VM'' ''memory'' 70
           (Some ?th) (30 * second) False ?m
          = ?m\<lparr>pendingAlerts := (pendingAlerts ?m)(?a := None)\<rparr>"
    using inst70 by simp
  then have c2: "pendingAlerts
        (checkMetric ''lab-px1-100'' ''vm100'' ''px1'' ''lab'' ''VM'' ''memory'' 70
           (Some ?th) (30 * second) False ?m) ?a = None"
    by simp
  show ?thesis using pos ns tt none c1 c2 by (intro conjI)
qed

text \<open>
  Claim C4 as stated fails at the dedup check. Polls every 10 s with a 30 s time threshold:
  86 four times raises the alert at t = 30, 70 at t = 40 resolves it, 86 at t = 50 records a
  new pending time. At t = 80 the value is 86, no alert is active and 30 s have passed since
  the pending time, yet no alert is created: the alert raised at t = 30 is a recent
  duplicate.
\<close>

theorem time_threshold_dedup_counterexample:
  "pendingAlerts (feedMemory [86, 86, 86, 86, 70, 86, 86, 86] (newManager timeThresholdConfig))
     ''lab-px1-100-memory'' = Some (50 * second)
   \<and> activeAlert (feedMemory [86, 86, 86, 86, 70, 86, 86, 86] (newManager timeThresholdConfig))
       ''lab-px1-100-memory'' = None
   \<and> TimeThreshold timeThresholdConfig * second \<le> 80 * second - 50 * second
   \<and> activeAlert (feedMemory [86, 86, 86, 86, 70, 86, 86, 86, 86] (newManager timeThresholdConfig))
       ''lab-px1-100-memory'' = None"
  by (simp add: engine_eval timeThresholdConfig_def)

subsection \<open>Stopped guests\<close>

lemma clearStoppedGuest_none:
  "(alertID, p) \<in> set (activeAlerts (clearStoppedGuest guestID m)) \<Longrightarrow>
     ResourceID (store (clearStoppedGuest guestID m) p) \<noteq> guestID"
  by (auto simp: clearStoppedGuest_def)

text \<open>
  Claim C6, as amended. When alerting is enabled and \<^verbatim>\<open>CheckGuest\<close> is handed a guest
  (a VM or a container) whose status is \<^verbatim>\<open>stopped\<close>, the call removes from the active
  alerts exactly the entries whose alert has the guest's id as \<^verbatim>\<open>ResourceID\<close> and changes
  nothing else: no threshold is looked at and no metric is checked. Afterwards no active
  alert has the stopped guest's id as its resource id.
\<close>

theorem CheckGuest_stopped:
  assumes "Enabled (config m)"
    and "guest = GuestVM g \<or> guest = GuestContainer g"
    and "gStatus g = ''stopped''"
  shows "CheckGuest guest instanceName thresholds now quiet m
           = m\<lparr>activeAlerts :=
                 filter (\<lambda>(alertID, p). ResourceID (store m p) \<noteq> gID g) (activeAlerts m)\<rparr>
       \<and> (\<forall>alertID a.
             activeAlert (CheckGuest guest instanceName thresholds now quiet m) alertID = Some a
               \<longrightarrow> ResourceID a \<noteq> gID g)"
proof -
  have eq: "CheckGuest guest instanceName thresholds now quiet m = clearStoppedGuest (gID g) m"
    using assms by (auto simp: CheckGuest_def checkGuestBody_def)
  have "ResourceID a \<noteq> gID g"
    if "activeAlert (clearStoppedGuest (gID g) m) alertID = Some a" for alertID a
  proof -
    from that obtain p
      where p: "map_of (activeAlerts (clearStoppedGuest (gID g) m)) alertID = Some p"
        and a: "a = store (clearStoppedGuest (gID g) m) p"
      by (auto simp: activeAlert_def)
    from p have "(alertID, p) \<in> set (activeAlerts (clearStoppedGuest (gID g) m))"
      by (rule map_of_SomeD)
    then show ?thesis using a clearStoppedGuest_none by blast
  qed
  then have second: "\<forall>alertID a. activeAlert (clearStoppedGuest (gID g) m) alertID = Some a
             \<longrightarrow> ResourceID a \<noteq> gID g"
    by blast
  have first: "clearStoppedGuest (gID g) m
      = m\<lparr>activeAlerts :=
            filter (\<lambda>(alertID, p). ResourceID (store m p) \<noteq> gID g) (activeAlerts m)\<rparr>"
    by (simp only: clearStoppedGuest_def)
  show ?thesis unfolding eq using first second by (rule conjI)
qed

theorem CheckGuest_stopped_witness:
  "Enabled (config twoAlertManager) \<and> gStatus stoppedGuest = ''stopped''
   \<and> activeAlerts (CheckGuest (GuestVM stoppedGuest) ''lab'' guestThresholds (10 * second) False
                      twoAlertManager)
       = [(''lab-px1-101-cpu'', 1)]
   \<and> activeAlert (CheckGuest (GuestVM stoppedGuest) ''lab'' guestThresholds (10 * second) False
                     twoAlertManager) ''lab-px1-100-cpu'' = None"
proof -
  have en: "Enabled (config twoAlertManager)"
    by (simp add: twoAlertManager_def newManager_def defaultConfig_def)
  have st: "gStatus stoppedGuest = ''stopped''" by (simp add: stoppedGuest_def)
  have vm: "GuestVM stoppedGuest = GuestVM stoppedGuest \<or> GuestVM stoppedGuest = GuestContainer stoppedGuest"
    by simp
  note inst = CheckGuest_stopped [OF en vm st, of "''lab''" guestThresholds "10 * second" False]
  have act: "activeAlerts (CheckGuest (GuestVM stoppedGuest) ''lab'' guestThresholds (10 * second)
                            False twoAlertManager) = [(''lab-px1-101-cpu'', 1)]"
    by (subst inst [THEN conjunct1])
       (simp add: twoAlertManager_def newManager_def newAlert_def stoppedGuest_def)
  show ?thesis using en st act by (simp add: activeAlert_def)
qed

text \<open>
  Without the condition on alerting the claim fails: \<^verbatim>\<open>CheckGuest\<close> returns before it
  looks at the guest when \<^verbatim>\<open>Enabled\<close> is false, and \<^verbatim>\<open>UpdateConfig\<close> keeps the
  active alerts. In the run below guest 100 raises a CPU alert while running, alerting is
  then switched off, and the guest is handed to \<^verbatim>\<open>CheckGuest\<close> stopped: its alert is
  still active.
\<close>

theorem stopped_guest_while_disabled_counterexample:
  "gStatus stoppedGuest = ''stopped''
   \<and> map_option ResourceID
       (activeAlert
          (CheckGuest (GuestVM stoppedGuest) ''lab'' guestThresholds (10 * second) False
            (UpdateConfig (defaultConfig\<lparr>Enabled := False\<rparr>)
              (CheckGuest (GuestVM runningGuest) ''lab'' guestThresholds 0 False
                 (newManager defaultConfig))))
          ''lab-px1-100-cpu'')
       = Some (gID stoppedGuest)"
  by code_simp

subsection \<open>Node-offline confirmation\<close>

lemma activeAlert_None_iff:
  "activeAlert m k = None \<longleftrightarrow> map_of (activeAlerts m) k = None"
  by (simp add: activeAlert_def)

lemma CheckNode_observation:
  assumes en: "Enabled (config m)" and wf: "wellFormed m"
  shows "(nodeIsOffline node \<and> activeAlert m (''node-offline-'' @ nID node) = None \<longrightarrow>
            offlineCount (CheckNode node now quiet m) (nID node) = offlineCount m (nID node) + 1
          \<and> (offlineCount m (nID node) + 1 < 3 \<longrightarrow>
                activeAlert (CheckNode node now quiet m) (''node-offline-'' @ nID node) = None)
          \<and> (3 \<le> offlineCount m (nID node) + 1 \<longrightarrow>
                activeAlert (CheckNode node now quiet m) (''node-offline-'' @ nID node)
                  = Some (offlineAlert node now)
              \<and> callsOf (AlertEvent (nextPtr m)) (CheckNode node now quiet m)
                  = callsOf (AlertEvent (nextPtr m)) m + (if onAlert m then 1 else 0)))
       \<and> (\<not> nodeIsOffline node \<longrightarrow>
            offlineCount (CheckNode node now quiet m) (nID node) = 0
          \<and> activeAlert (CheckNode node now quiet m) (''node-offline-'' @ nID node) = None
          \<and> (activeAlert m (''node-offline-'' @ nID node) = None \<longrightarrow>
                recentlyResolved (CheckNode node now quiet m) (''node-offline-'' @ nID node)
                  = recentlyResolved m (''node-offline-'' @ nID node)
              \<and> callsOf (ResolvedEvent (''node-offline-'' @ nID node)) (CheckNode node now quiet m)
                  = callsOf (ResolvedEvent (''node-offline-'' @ nID node)) m)
          \<and> (\<forall>a. activeAlert m (''node-offline-'' @ nID node) = Some a \<longrightarrow>
                resolvedAlert (CheckNode node now quiet m) (''node-offline-'' @ nID node) = Some (a, now)
              \<and> callsOf (ResolvedEvent (''node-offline-'' @ nID node)) (CheckNode node now quiet m)
                  = callsOf (ResolvedEvent (''node-offline-'' @ nID node)) m
                      + (if onResolved m then 1 else 0)))"
proof -
  let ?k = "offlineAlertID node"
  let ?m' = "CheckNode node now quiet m"
  have k: "''node-offline-'' @ nID node = ?k" by (simp add: offlineAlertID_def)
  have B: "offlineCount ?m' (nID node) = offlineCount m (nID node) + 1
          \<and> (offlineCount m (nID node) + 1 < 3 \<longrightarrow> activeAlert ?m' ?k = None)
          \<and> (3 \<le> offlineCount m (nID node) + 1 \<longrightarrow>
                activeAlert ?m' ?k = Some (offlineAlert node now)
              \<and> callsOf (AlertEvent (nextPtr m)) ?m'
                  = callsOf (AlertEvent (nextPtr m)) m + (if onAlert m then 1 else 0))"
    if off: "nodeIsOffline node" and none: "activeAlert m ?k = None"
  proof -
    have none': "map_of (activeAlerts m) ?k = None" using none by (simp add: activeAlert_None_iff)
    note step = CheckNode_offline_step [OF en wf off none', where now = now and quiet = quiet]
    have b1: "offlineCount m (nID node) + 1 < 3 \<longrightarrow> activeAlert ?m' ?k = None"
      using step(2) by (simp add: requiredOfflineCount_def activeAlert_None_iff)
    have b2: "3 \<le> offlineCount m (nID node) + 1 \<longrightarrow>
                activeAlert ?m' ?k = Some (offlineAlert node now)
              \<and> callsOf (AlertEvent (nextPtr m)) ?m'
                  = callsOf (AlertEvent (nextPtr m)) m + (if onAlert m then 1 else 0)"
    proof
      assume "3 \<le> offlineCount m (nID node) + 1"
      then have r: "\<not> offlineCount m (nID node) + 1 < requiredOfflineCount"
        by (simp add: requiredOfflineCount_def)
      have a: "activeAlert ?m' ?k = Some (offlineAlert node now)"
        using step(3) [OF r] by (simp add: activeAlert_def)
      have c: "callsOf (AlertEvent (nextPtr m)) ?m'
                  = callsOf (AlertEvent (nextPtr m)) m + (if onAlert m then 1 else 0)"
        by (rule CheckNode_offline_calls [OF en off none' r])
      show "activeAlert ?m' ?k = Some (offlineAlert node now)
              \<and> callsOf (AlertEvent (nextPtr m)) ?m'
                  = callsOf (AlertEvent (nextPtr m)) m + (if onAlert m then 1 else 0)"
        using a c by (rule conjI)
    qed
    show ?thesis using step(1) b1 b2 by simp
  qed
  have C: "offlineCount ?m' (nID node) = 0 \<and> activeAlert ?m' ?k = None
          \<and> (activeAlert m ?k = None \<longrightarrow>
                recentlyResolved ?m' ?k = recentlyResolved m ?k
              \<and> callsOf (ResolvedEvent ?k) ?m' = callsOf (ResolvedEvent ?k) m)
          \<and> (\<forall>a. activeAlert m ?k = Some a \<longrightarrow>
                resolvedAlert ?m' ?k = Some (a, now)
              \<and> callsOf (ResolvedEvent ?k) ?m'
                  = callsOf (ResolvedEvent ?k) m + (if onResolved m then 1 else 0))"
    if on: "\<not> nodeIsOffline node"
  proof -
    note step = CheckNode_online_step [OF en wf on, where now = now and quiet = quiet]
    note calls = CheckNode_online_calls [OF en on, where now = now and quiet = quiet]
    have c2: "activeAlert m ?k = None \<longrightarrow>
                recentlyResolved ?m' ?k = recentlyResolved m ?k
              \<and> callsOf (ResolvedEvent ?k) ?m' = callsOf (ResolvedEvent ?k) m"
      using calls(1) by (simp add: activeAlert_None_iff)
    have c3: "resolvedAlert ?m' ?k = Some (a, now)
              \<and> callsOf (ResolvedEvent ?k) ?m'
                  = callsOf (ResolvedEvent ?k) m + (if onResolved m then 1 else 0)"
      if "activeAlert m ?k = Some a" for a
    proof -
      from that obtain p where p: "map_of (activeAlerts m) ?k = Some p" and a: "a = store m p"
        by (auto simp: activeAlert_def)
      have r: "resolvedAlert ?m' ?k = Some (a, now)"
        using step(3) [OF p] by (simp add: resolvedAlert_def a)
      show ?thesis using r calls(2) [OF p] by (rule conjI)
    qed
    show ?thesis using step(1,2) c2 c3 by (simp add: activeAlert_None_iff)
  qed
  show ?thesis unfolding k using B C by blast
qed

text \<open>
  Claim C5, as amended. \<^verbatim>\<open>CheckNode\<close> treats a node as offline when its status is
  \<^verbatim>\<open>offline\<close> or its connection health is \<^verbatim>\<open>error\<close> or \<^verbatim>\<open>failed\<close>. With alerting
  disabled the call returns the manager as it was: neither the counter nor an offline alert
  changes. With alerting enabled, on a well-formed manager:

  \<^item> an offline observation of a node without an active alert \<^verbatim>\<open>node-offline-<id>\<close>
    increments the node's counter; it creates no alert while the counter stays below
    three; when the counter reaches three it stores, under the id
    \<^verbatim>\<open>node-offline-<id>\<close>, the alert whose fields are listed below (that id, type
    \<^verbatim>\<open>connectivity\<close>, level critical, the node's id as resource id, the time of the
    observation as start time) and calls the alert callback, when set, once with it;

  \<^item> so from a counter of zero the first two observations create nothing and the third
    creates the alert;

  \<^item> an observation of the node online resets the counter to zero and leaves no active
    offline alert; an offline alert that was active enters \<^verbatim>\<open>recentlyResolved\<close> with
    the time of the observation and the resolved callback, when set, is called exactly once
    more with the alert id; when no offline alert was active, the entry of
    \<^verbatim>\<open>recentlyResolved\<close> stays and the resolved callback is not called with that id.
\<close>

theorem node_offline_confirmation:
  assumes wf: "wellFormed m"
  shows "(nodeIsOffline node \<longleftrightarrow>
            nStatus node = ''offline'' \<or> ConnectionHealth node = ''error''
              \<or> ConnectionHealth node = ''failed'')
       \<and> (\<not> Enabled (config m) \<longrightarrow> CheckNode node now quiet m = m)
       \<and> offlineAlert node now =
            \<lparr>ID = ''node-offline-'' @ nID node, Type = ''connectivity'', Level = AlertLevelCritical,
             ResourceID = nID node, ResourceName = nName node, Node = nName node,
             Instance = nInstance node, Message = NodeOfflineMessage (nName node),
             Value = 0, Threshold = 0, StartTime = now, LastSeen = zeroTime,
             Acknowledged = False, AckTime = None, AckUser = [], Metadata = None,
             LastEscalation = 0, EscalationTimes = []\<rparr>
       \<and> (Enabled (config m) \<and> nodeIsOffline node
            \<and> activeAlert m (''node-offline-'' @ nID node) = None \<longrightarrow>
            offlineCount (CheckNode node now quiet m) (nID node) = offlineCount m (nID node) + 1
          \<and> (offlineCount m (nID node) + 1 < 3 \<longrightarrow>
                activeAlert (CheckNode node now quiet m) (''node-offline-'' @ nID node) = None)
          \<and> (3 \<le> offlineCount m (nID node) + 1 \<longrightarrow>
                activeAlert (CheckNode node now quiet m) (''node-offline-'' @ nID node)
                  = Some (offlineAlert node now)
              \<and> callsOf (AlertEvent (nextPtr m)) (CheckNode node now quiet m)
                  = callsOf (AlertEvent (nextPtr m)) m + (if onAlert m then 1 else 0)))
       \<and> (Enabled (config m) \<and> nodeIsOffline node
            \<and> activeAlert m (''node-offline-'' @ nID node) = None
            \<and> offlineCount m (nID node) = 0 \<longrightarrow>
            activeAlert (CheckNode node now quiet m) (''node-offline-'' @ nID node) = None
          \<and> activeAlert (CheckNode node now2 quiet2 (CheckNode node now quiet m))
                (''node-offline-'' @ nID node) = None
          \<and> activeAlert (CheckNode node now3 quiet3 (CheckNode node now2 quiet2 (CheckNode node now quiet m)))
                (''node-offline-'' @ nID node) = Some (offlineAlert node now3))
       \<and> (Enabled (config m) \<and> \<not> nodeIsOffline node \<longrightarrow>
            offlineCount (CheckNode node now quiet m) (nID node) = 0
          \<and> activeAlert (CheckNode node now quiet m) (''node-offline-'' @ nID node) = None
          \<and> (activeAlert m (''node-offline-'' @ nID node) = None \<longrightarrow>
                recentlyResolved (CheckNode node now quiet m) (''node-offline-'' @ nID node)
                  = recentlyResolved m (''node-offline-'' @ nID node)
              \<and> callsOf (ResolvedEvent (''node-offline-'' @ nID node)) (CheckNode node now quiet m)
                  = callsOf (ResolvedEvent (''node-offline-'' @ nID node)) m)
          \<and> (\<forall>a. activeAlert m (''node-offline-'' @ nID node) = Some a \<longrightarrow>
                resolvedAlert (CheckNode node now quiet m) (''node-offline-'' @ nID node) = Some (a, now)
              \<and> callsOf (ResolvedEvent (''node-offline-'' @ nID node)) (CheckNode node now quiet m)
                  = callsOf (ResolvedEvent (''node-offline-'' @ nID node)) m
                      + (if onResolved m then 1 else 0)))"
proof -
  let ?k = "''node-offline-'' @ nID node"
  let ?m1 = "CheckNode node now quiet m"
  let ?m2 = "CheckNode node now2 quiet2 ?m1"
  let ?m3 = "CheckNode node now3 quiet3 ?m2"
  have A: "nodeIsOffline node \<longleftrightarrow>
            nStatus node = ''offline'' \<or> ConnectionHealth node = ''error''
              \<or> ConnectionHealth node = ''failed''"
    by (simp add: nodeIsOffline_def)
  have D: "\<not> Enabled (config m) \<longrightarrow> CheckNode node now quiet m = m"
    by (simp add: CheckNode_disabled)
  note R = offlineAlert_record [of node now]
  have chain: "activeAlert ?m1 ?k = None \<and> activeAlert ?m2 ?k = None
                 \<and> activeAlert ?m3 ?k = Some (offlineAlert node now3)"
    if en: "Enabled (config m)" and off: "nodeIsOffline node" and none: "activeAlert m ?k = None"
      and zero: "offlineCount m (nID node) = 0"
  proof -
    note o1 = CheckNode_observation [OF en wf, of node now quiet]
    have en1: "Enabled (config ?m1)" using en by (simp add: CheckNode_config)
    have wf1: "wellFormed ?m1" using wf by (rule wellFormed_CheckNode)
    note o2 = CheckNode_observation [OF en1 wf1, of node now2 quiet2]
    have en2: "Enabled (config ?m2)" using en1 by (simp add: CheckNode_config)
    have wf2: "wellFormed ?m2" using wf1 by (rule wellFormed_CheckNode)
    note o3 = CheckNode_observation [OF en2 wf2, of node now3 quiet3]
    have c1: "offlineCount ?m1 (nID node) = 1" and a1: "activeAlert ?m1 ?k = None"
      using o1 off none zero by auto
    have c2: "offlineCount ?m2 (nID node) = 2" and a2: "activeAlert ?m2 ?k = None"
      using o2 off a1 c1 by auto
    have a3: "activeAlert ?m3 ?k = Some (offlineAlert node now3)"
      using o3 off a2 c2 by auto
    show ?thesis using a1 a2 a3 by simp
  qed
  have B: "Enabled (config m) \<and> nodeIsOffline node \<and> activeAlert m ?k = None \<longrightarrow>
            offlineCount ?m1 (nID node) = offlineCount m (nID node) + 1
          \<and> (offlineCount m (nID node) + 1 < 3 \<longrightarrow> activeAlert ?m1 ?k = None)
          \<and> (3 \<le> offlineCount m (nID node) + 1 \<longrightarrow>
                activeAlert ?m1 ?k = Some (offlineAlert node now)
              \<and> callsOf (AlertEvent (nextPtr m)) ?m1
                  = callsOf (AlertEvent (nextPtr m)) m + (if onAlert m then 1 else 0))"
    using CheckNode_observation [OF _ wf, of node now quiet] by blast
  have C: "Enabled (config m) \<and> nodeIsOffline node \<and> activeAlert m ?k = None
            \<and> offlineCount m (nID node) = 0 \<longrightarrow>
            activeAlert ?m1 ?k = None \<and> activeAlert ?m2 ?k = None
          \<and> activeAlert ?m3 ?k = Some (offlineAlert node now3)"
    using chain by blast
  have E: "Enabled (config m) \<and> \<not> nodeIsOffline node \<longrightarrow>
            offlineCount ?m1 (nID node) = 0
          \<and> activeAlert ?m1 ?k = None
          \<and> (activeAlert m ?k = None \<longrightarrow>
                recentlyResolved ?m1 ?k = recentlyResolved m ?k
              \<and> callsOf (ResolvedEvent ?k) ?m1 = callsOf (ResolvedEvent ?k) m)
          \<and> (\<forall>a. activeAlert m ?k = Some a \<longrightarrow>
                resolvedAlert ?m1 ?k = Some (a, now)
              \<and> callsOf (ResolvedEvent ?k) ?m1
                  = callsOf (ResolvedEvent ?k) m + (if onResolved m then 1 else 0))"
    using CheckNode_observation [OF _ wf, of node now quiet] by blast
  show ?thesis by (intro conjI) (fact A D R B C E)+
qed

theorem node_offline_confirmation_witness:
  "wellFormed (newManager defaultConfig) \<and> Enabled (config (newManager defaultConfig))
   \<and> nodeIsOffline offlineNode
   \<and> activeAlert (CheckNode offlineNode (10 * second) False
         (CheckNode offlineNode 0 False (newManager defaultConfig))) ''node-offline-lab-px1'' = None
   \<and> map_option (\<lambda>a. (ID a, Level a, ResourceID a, StartTime a))
       (activeAlert (CheckNode offlineNode (20 * second) False
         (CheckNode offlineNode (10 * second) False
           (CheckNode offlineNode 0 False (newManager defaultConfig)))) ''node-offline-lab-px1'')
       = Some (''node-offline-lab-px1'', AlertLevelCritical, ''lab-px1'', 20 * second)
   \<and> wellFormed offlineAlertManager \<and> Enabled (config offlineAlertManager)
   \<and> \<not> nodeIsOffline onlineNode
   \<and> offlineCount (CheckNode onlineNode (10 * second) False offlineAlertManager) ''lab-px1'' = 0
   \<and> activeAlert (CheckNode onlineNode (10 * second) False offlineAlertManager)
       ''node-offline-lab-px1'' = None
   \<and> map_option (\<lambda>(a, t). (ID a, t))
       (resolvedAlert (CheckNode onlineNode (10 * second) False offlineAlertManager)
          ''node-offline-lab-px1'') = Some (''node-offline-lab-px1'', 10 * second)
   \<and> callsOf (ResolvedEvent ''node-offline-lab-px1'')
       (CheckNode onlineNode (10 * second) False offlineAlertManager) = 1"
proof -
  have en: "Enabled (config (newManager defaultConfig))"
    by (simp add: newManager_def defaultConfig_def)
  have wf: "wellFormed (newManager defaultConfig)"
    by (simp add: newManager_def wellFormed_def)
  have off: "nodeIsOffline offlineNode" by (simp add: nodeIsOffline_def offlineNode_def)
  have on: "\<not> nodeIsOffline onlineNode"
    by (simp add: nodeIsOffline_def onlineNode_def offlineNode_def)
  have none: "activeAlert (newManager defaultConfig) (''node-offline-'' @ nID offlineNode) = None"
    by (simp add: activeAlert_def newManager_def)
  have zero: "offlineCount (newManager defaultConfig) (nID offlineNode) = 0"
    by (simp add: offlineCount_def newManager_def)
  have id: "nID offlineNode = ''lab-px1''" "nID onlineNode = ''lab-px1''"
    by (simp_all add: offlineNode_def onlineNode_def)
  have en2: "Enabled (config offlineAlertManager)"
    and wf2: "wellFormed offlineAlertManager"
    and act2: "activeAlert offlineAlertManager (''node-offline-'' @ nID onlineNode)
                 = Some (offlineAlert offlineNode 0)"
    and res2: "onResolved offlineAlertManager"
    and calls2: "callsOf (ResolvedEvent (''node-offline-'' @ nID onlineNode)) offlineAlertManager = 0"
    by (simp_all add: offlineAlertManager_def newManager_def escalatingConfig_def defaultConfig_def
          wellFormed_def activeAlert_def callsOf_def id)
  from node_offline_confirmation [OF wf, of offlineNode 0 False "10 * second" False "20 * second" False]
    en off none zero
  have one: "activeAlert (CheckNode offlineNode (10 * second) False
         (CheckNode offlineNode 0 False (newManager defaultConfig))) (''node-offline-'' @ nID offlineNode) = None
     \<and> activeAlert (CheckNode offlineNode (20 * second) False
         (CheckNode offlineNode (10 * second) False
           (CheckNode offlineNode 0 False (newManager defaultConfig)))) (''node-offline-'' @ nID offlineNode)
         = Some (offlineAlert offlineNode (20 * second))"
    by blast
  from node_offline_confirmation [OF wf2, of onlineNode "10 * second" False] en2 on act2
  have two: "offlineCount (CheckNode onlineNode (10 * second) False offlineAlertManager) (nID onlineNode) = 0
     \<and> activeAlert (CheckNode onlineNode (10 * second) False offlineAlertManager)
         (''node-offline-'' @ nID onlineNode) = None
     \<and> resolvedAlert (CheckNode onlineNode (10 * second) False offlineAlertManager)
         (''node-offline-'' @ nID onlineNode) = Some (offlineAlert offlineNode 0, 10 * second)
     \<and> callsOf (ResolvedEvent (''node-offline-'' @ nID onlineNode))
          (CheckNode onlineNode (10 * second) False offlineAlertManager)
         = callsOf (ResolvedEvent (''node-offline-'' @ nID onlineNode)) offlineAlertManager
             + (if onResolved offlineAlertManager then 1 else 0)"
    by blast
  show ?thesis using en wf off on en2 wf2 one two res2 calls2
    by (simp add: id offlineAlert_record)
qed

text \<open>
  The claim as first stated does not hold when alerting has been switched off. The run
  below raises the offline alert of node \<^verbatim>\<open>px1\<close> with three offline observations,
  installs a configuration with \<^verbatim>\<open>Enabled\<close> false and then hands the node to
  \<^verbatim>\<open>CheckNode\<close> online: the counter is still 3, the alert is still active, nothing has
  entered \<^verbatim>\<open>recentlyResolved\<close>, and the only callback of the run is the alert callback of
  the third observation.
\<close>

theorem node_online_while_disabled_counterexample:
  "\<not> nodeIsOffline onlineNode
   \<and> offlineCount
       (CheckNode onlineNode (30 * second) False
         (UpdateConfig (defaultConfig\<lparr>Enabled := False\<rparr>)
           (CheckNode offlineNode (20 * second) False
             (CheckNode offlineNode (10 * second) False
               (CheckNode offlineNode 0 False (newManager defaultConfig)))))) ''lab-px1'' = 3
   \<and> map_option ID (activeAlert
       (CheckNode onlineNode (30 * second) False
         (UpdateConfig (defaultConfig\<lparr>Enabled := False\<rparr>)
           (CheckNode offlineNode (20 * second) False
             (CheckNode offlineNode (10 * second) False
               (CheckNode offlineNode 0 False (newManager defaultConfig))))))
       ''node-offline-lab-px1'') = Some ''node-offline-lab-px1''
   \<and> resolvedAlert
       (CheckNode onlineNode (30 * second) False
         (UpdateConfig (defaultConfig\<lparr>Enabled := False\<rparr>)
           (CheckNode offlineNode (20 * second) False
             (CheckNode offlineNode (10 * second) False
               (CheckNode offlineNode 0 False (newManager defaultConfig))))))
       ''node-offline-lab-px1'' = None
   \<and> events
       (CheckNode onlineNode (30 * second) False
         (UpdateConfig (defaultConfig\<lparr>Enabled := False\<rparr>)
           (CheckNode offlineNode (20 * second) False
             (CheckNode offlineNode (10 * second) False
               (CheckNode offlineNode 0 False (newManager defaultConfig))))))
       = [AlertEvent 0]"
  by code_simp

subsection \<open>Escalation of the node-offline alert\<close>

lemma dedupOrCreate_escalationsOf:
  "escalationsOf p (dedupOrCreate a rid rn nd inst rt mt v th now quiet m) = escalationsOf p m"
  using dedupOrCreate_events_cases [OF refl, of a rid rn nd inst rt mt v th now quiet m]
  by (auto simp: escalationsOf_def)

lemma escalationsOf_pendingAlerts:
  "escalationsOf p (m\<lparr>pendingAlerts := x\<rparr>) = escalationsOf p m"
  by (simp add: escalationsOf_def)

lemma escalationsOf_store:
  "escalationsOf p (m\<lparr>store := x\<rparr>) = escalationsOf p m"
  by (simp add: escalationsOf_def)

lemma resolveAlert_escalationsOf:
  "escalationsOf p (resolveAlert a q now m) = escalationsOf p m"
  by (simp add: escalationsOf_def resolveAlert_frame)

lemma checkMetric_escalationsOf:
  "escalationsOf p (checkMetric rid rn nd inst rt mt v threshold now quiet m) = escalationsOf p m"
proof (cases threshold)
  case None
  then show ?thesis by (simp add: checkMetric_None)
next
  case (Some th)
  let ?a = "metricAlertID rid mt"
  show ?thesis
  proof (cases "Trigger th \<le> 0 \<or> isSuppressed m ?a now")
    case True
    then show ?thesis
      using checkMetric_disabled [of th rid rn nd inst rt mt v now quiet m]
        checkMetric_suppressed [of m rid mt now rn nd inst rt v th quiet]
      by (auto simp: Some)
  next
    case False
    then have pos: "0 < Trigger th" and ns: "\<not> isSuppressed m ?a now" by auto
    show ?thesis
    proof (cases "Trigger th \<le> v")
      case above: True
      show ?thesis
      proof (cases "map_of (activeAlerts m) ?a")
        case act: (Some q)
        show ?thesis
          unfolding Some checkMetric_update [OF pos ns above act] by (rule escalationsOf_store)
      next
        case None
        show ?thesis
        proof (cases "0 < TimeThreshold (config m)")
          case nt: False
          show ?thesis
            unfolding Some checkMetric_immediate [OF pos ns above None nt]
            by (rule dedupOrCreate_escalationsOf)
        next
          case tt: True
          show ?thesis
          proof (cases "pendingAlerts m ?a")
            case pn: None
            show ?thesis
              unfolding Some checkMetric_pending_start [OF pos ns above None tt pn]
              by (rule escalationsOf_pendingAlerts)
          next
            case ps: (Some t)
            show ?thesis
            proof (cases "TimeThreshold (config m) * second \<le> now - t")
              case True
              show ?thesis
                unfolding Some checkMetric_pending_met [OF pos ns above None tt ps True]
                by (simp only: dedupOrCreate_escalationsOf escalationsOf_pendingAlerts)
            next
              case False
              show ?thesis
                unfolding Some checkMetric_pending_wait [OF pos ns above None tt ps False] ..
            qed
          qed
        qed
      qed
    next
      case below: False
      show ?thesis
      proof (cases "map_of (activeAlerts m) ?a")
        case None
        show ?thesis
          unfolding Some checkMetric_below_inactive [OF pos ns below None]
          by (rule escalationsOf_pendingAlerts)
      next
        case act: (Some q)
        show ?thesis
        proof (cases "v \<le> clearThreshold th")
          case True
          show ?thesis
            unfolding Some checkMetric_below_resolve [OF pos ns below act True]
            by (simp only: resolveAlert_escalationsOf escalationsOf_pendingAlerts)
        next
          case False
          show ?thesis
            unfolding Some checkMetric_below_keep [OF pos ns below act False]
            by (rule escalationsOf_pendingAlerts)
        qed
      qed
    qed
  qed
qed

lemma checkNodeMetrics_escalationsOf:
  "escalationsOf p (checkNodeMetrics node th now quiet m) = escalationsOf p m"
  by (simp add: checkNodeMetrics_def Let_def checkMetric_escalationsOf)

lemma CheckNode_offline_existing:
  assumes en: "Enabled (config m)" and wf: "wellFormed m" and off: "nodeIsOffline node"
    and act: "map_of (activeAlerts m) (offlineAlertID node) = Some p"
  shows "map_of (activeAlerts (CheckNode node now quiet m)) (offlineAlertID node) = Some p"
    and "store (CheckNode node now quiet m) p = (store m p)\<lparr>StartTime := now\<rparr>"
    and "escalationsOf p (CheckNode node now quiet m) = escalationsOf p m"
proof -
  let ?k = "offlineAlertID node"
  let ?m1 = "checkNodeOffline node now m"
  let ?m' = "CheckNode node now quiet m"
  have m': "?m' = (if nStatus node \<noteq> ''offline''
                   then checkNodeMetrics node (NodeDefaults (config m)) now quiet ?m1 else ?m1)"
    using en off by (simp add: CheckNode_enabled)
  note ex = checkNodeOffline_existing [OF act, of now]
  show "map_of (activeAlerts ?m') ?k = Some p"
    by (simp add: m' checkNodeMetrics_active ex act)
  have other: "map_of (activeAlerts ?m1) (metricAlertID (nID node) mt) \<noteq> Some p"
    if ne: "offlineAlertID node \<noteq> metricAlertID (nID node) mt" for mt
  proof
    assume "map_of (activeAlerts ?m1) (metricAlertID (nID node) mt) = Some p"
    then have "map_of (activeAlerts m) (metricAlertID (nID node) mt) = Some p" by (simp add: ex)
    then have "?k = metricAlertID (nID node) mt" by (rule wellFormed_ptr_inj [OF wf act])
    then show False using ne by simp
  qed
  have "p < nextPtr m" by (rule wellFormed_ptr_allocated [OF wf act])
  then have "p < nextPtr ?m1" by (simp add: ex)
  then have "store (checkNodeMetrics node (NodeDefaults (config m)) now quiet ?m1) p = store ?m1 p"
    by (rule checkNodeMetrics_store [OF _ other [OF offlineAlertID_neq_metrics(1)]
          other [OF offlineAlertID_neq_metrics(2)] other [OF offlineAlertID_neq_metrics(3)]])
  then show "store ?m' p = (store m p)\<lparr>StartTime := now\<rparr>"
    by (simp add: m' ex)
  have "escalationsOf p ?m1 = escalationsOf p m" by (simp add: ex escalationsOf_def)
  then show "escalationsOf p ?m' = escalationsOf p m"
    by (simp add: m' checkNodeMetrics_escalationsOf)
qed

lemma escalateLevels_frame:
  "config (escalateLevels now q i levels m) = config m"
  "activeAlerts (escalateLevels now q i levels m) = activeAlerts m"
  "nextPtr (escalateLevels now q i levels m) = nextPtr m"
  by (induction now q i levels m rule: escalateLevels.induct; simp add: Let_def)+

lemma escalateLevels_other:
  "q \<noteq> p \<Longrightarrow> store (escalateLevels now q i levels m) p = store m p"
  "q \<noteq> p \<Longrightarrow> escalationsOf p (escalateLevels now q i levels m) = escalationsOf p m"
  by (induction now q i levels m rule: escalateLevels.induct; simp add: Let_def escalationsOf_def)+

lemma escalateLevels_not_due:
  "\<forall>level \<in> set levels. now \<le> StartTime (store m p) + After level * minute \<Longrightarrow>
     escalateLevels now p i levels m = m"
  by (induction now p i levels m rule: escalateLevels.induct) (simp_all add: Let_def)


lemma escalateAlert_frame:
  "config (escalateAlert now q m) = config m"
  "activeAlerts (escalateAlert now q m) = activeAlerts m"
  "nextPtr (escalateAlert now q m) = nextPtr m"
  by (simp_all add: escalateAlert_def escalateLevels_frame)

lemma escalateAlert_other:
  "q \<noteq> p \<Longrightarrow> store (escalateAlert now q m) p = store m p"
  "q \<noteq> p \<Longrightarrow> escalationsOf p (escalateAlert now q m) = escalationsOf p m"
  by (simp_all add: escalateAlert_def escalateLevels_other)

lemma escalateAlert_not_due:
  "\<forall>level \<in> set (Levels (Escalation (Schedule (config m)))).
      now \<le> StartTime (store m p) + After level * minute \<Longrightarrow>
     escalateAlert now p m = m"
  by (simp add: escalateAlert_def escalateLevels_not_due)

lemma fold_escalateAlert_not_due:
  assumes "\<forall>level \<in> set (Levels (Escalation (Schedule (config m)))).
             now \<le> StartTime (store m p) + After level * minute"
  shows "config (fold (\<lambda>(alertID, q). escalateAlert now q) al m) = config m
       \<and> activeAlerts (fold (\<lambda>(alertID, q). escalateAlert now q) al m) = activeAlerts m
       \<and> nextPtr (fold (\<lambda>(alertID, q). escalateAlert now q) al m) = nextPtr m
       \<and> store (fold (\<lambda>(alertID, q). escalateAlert now q) al m) p = store m p
       \<and> escalationsOf p (fold (\<lambda>(alertID, q). escalateAlert now q) al m) = escalationsOf p m"
  using assms
proof (induction al arbitrary: m)
  case Nil
  then show ?case by simp
next
  case (Cons e al)
  obtain alertID q where e: "e = (alertID, q)" by (cases e)
  let ?m1 = "escalateAlert now q m"
  have m1: "config ?m1 = config m \<and> activeAlerts ?m1 = activeAlerts m \<and> nextPtr ?m1 = nextPtr m
              \<and> store ?m1 p = store m p \<and> escalationsOf p ?m1 = escalationsOf p m"
  proof (cases "q = p")
    case True
    then show ?thesis using escalateAlert_not_due [OF Cons.prems] by simp
  next
    case False
    then show ?thesis by (simp add: escalateAlert_frame escalateAlert_other)
  qed
  have "\<forall>level \<in> set (Levels (Escalation (Schedule (config ?m1)))).
          now \<le> StartTime (store ?m1 p) + After level * minute"
    using Cons.prems m1 by simp
  from Cons.IH [OF this] show ?case using m1 by (simp add: e)
qed

lemma checkEscalations_not_due:
  assumes "\<forall>level \<in> set (Levels (Escalation (Schedule (config m)))).
             now \<le> StartTime (store m p) + After level * minute"
  shows "config (checkEscalations now m) = config m"
    and "activeAlerts (checkEscalations now m) = activeAlerts m"
    and "nextPtr (checkEscalations now m) = nextPtr m"
    and "store (checkEscalations now m) p = store m p"
    and "escalationsOf p (checkEscalations now m) = escalationsOf p m"
  using fold_escalateAlert_not_due [OF assms, of "activeAlerts m"]
  by (simp_all add: checkEscalations_def)

lemma run_Cons: "run (s # steps) m = run steps (runStep s m)"
  by (simp add: run_def)

lemma run_keeps_ahead:
  assumes "Enabled (config m)" and "wellFormed m"
    and "map_of (activeAlerts m) (''node-offline-'' @ nodeID) = Some p"
    and "pollsKeepAhead nodeID (Levels (Escalation (Schedule (config m)))) (StartTime (store m p)) steps"
  shows "map_of (activeAlerts (run steps m)) (''node-offline-'' @ nodeID) = Some p
       \<and> LastEscalation (store (run steps m) p) = LastEscalation (store m p)
       \<and> EscalationTimes (store (run steps m) p) = EscalationTimes (store m p)
       \<and> escalationsOf p (run steps m) = escalationsOf p m"
  using assms
proof (induction steps arbitrary: m)
  case Nil
  then show ?case by (simp add: run_def)
next
  case (Cons s steps)
  show ?case
  proof (cases s)
    case (Poll node now quiet)
    let ?m1 = "CheckNode node now quiet m"
    have nid: "nID node = nodeID" and off: "nodeIsOffline node"
      and rest: "pollsKeepAhead nodeID (Levels (Escalation (Schedule (config m)))) now steps"
      using Cons.prems(4) by (simp_all add: Poll)
    have act: "map_of (activeAlerts m) (offlineAlertID node) = Some p"
      using Cons.prems(3) by (simp add: offlineAlertID_def nid)
    note ex = CheckNode_offline_existing [OF Cons.prems(1,2) off act, of now quiet]
    have c1: "config ?m1 = config m" by (rule CheckNode_config)
    have en1: "Enabled (config ?m1)" using Cons.prems(1) by (simp add: c1)
    have wf1: "wellFormed ?m1" using Cons.prems(2) by (rule wellFormed_CheckNode)
    have act1: "map_of (activeAlerts ?m1) (''node-offline-'' @ nodeID) = Some p"
      using ex(1) by (simp add: offlineAlertID_def nid)
    have st1: "StartTime (store ?m1 p) = now" by (simp add: ex(2))
    have rest1: "pollsKeepAhead nodeID (Levels (Escalation (Schedule (config ?m1))))
                   (StartTime (store ?m1 p)) steps"
      using rest by (simp add: c1 st1)
    from Cons.IH [OF en1 wf1 act1 rest1]
    show ?thesis by (simp add: run_Cons Poll ex(2,3))
  next
    case (Tick now)
    let ?m1 = "checkEscalations now m"
    have nd: "\<forall>level \<in> set (Levels (Escalation (Schedule (config m)))).
                now \<le> StartTime (store m p) + After level * minute"
      and rest: "pollsKeepAhead nodeID (Levels (Escalation (Schedule (config m))))
                   (StartTime (store m p)) steps"
      using Cons.prems(4) by (simp_all add: Tick)
    note ce = checkEscalations_not_due [OF nd]
    have en1: "Enabled (config ?m1)" using Cons.prems(1) by (simp add: ce(1))
    have wf1: "wellFormed ?m1"
      by (rule wellFormed_same [OF Cons.prems(2)]) (simp_all add: ce)
    have act1: "map_of (activeAlerts ?m1) (''node-offline-'' @ nodeID) = Some p"
      using Cons.prems(3) by (simp add: ce(2))
    have rest1: "pollsKeepAhead nodeID (Levels (Escalation (Schedule (config ?m1))))
                   (StartTime (store ?m1 p)) steps"
      using rest by (simp add: ce(1,4))
    from Cons.IH [OF en1 wf1 act1 rest1]
    show ?thesis by (simp add: run_Cons Tick ce(4,5))
  qed
qed

text \<open>
  Claim C9, as amended. On a manager whose alerting is enabled, once the alert
  \<^verbatim>\<open>node-offline-<id>\<close> is active, every \<^verbatim>\<open>CheckNode\<close> call that observes the node
  offline replaces the alert's \<^verbatim>\<open>StartTime\<close> by the time of the call and leaves the rest
  of the alert as it was. \<^verbatim>\<open>checkEscalations\<close> escalates a level only when its clock
  reading is after \<^verbatim>\<open>StartTime\<close> plus the level's delay; so in every run of offline
  polls and escalation ticks in which each tick comes no later than every level's delay after
  the latest poll (a node polled more often than the shortest escalation delay), the alert
  stays active, its \<^verbatim>\<open>LastEscalation\<close> and \<^verbatim>\<open>EscalationTimes\<close> never change and the
  escalate callback is never called for it.
\<close>

theorem offline_alert_never_escalates:
  assumes en: "Enabled (config m)" and wf: "wellFormed m"
    and act: "map_of (activeAlerts m) (''node-offline-'' @ nodeID) = Some p"
  shows "(nID node = nodeID \<and> nodeIsOffline node \<longrightarrow>
            activeAlert (CheckNode node now quiet m) (''node-offline-'' @ nodeID)
              = Some ((store m p)\<lparr>StartTime := now\<rparr>))
       \<and> (pollsKeepAhead nodeID (Levels (Escalation (Schedule (config m))))
             (StartTime (store m p)) steps \<longrightarrow>
            (\<exists>a. activeAlert (run steps m) (''node-offline-'' @ nodeID) = Some a
                 \<and> LastEscalation a = LastEscalation (store m p)
                 \<and> EscalationTimes a = EscalationTimes (store m p))
          \<and> escalationsOf p (run steps m) = escalationsOf p m)"
proof -
  have one: "activeAlert (CheckNode node now quiet m) (''node-offline-'' @ nodeID)
              = Some ((store m p)\<lparr>StartTime := now\<rparr>)"
    if nid: "nID node = nodeID" and off: "nodeIsOffline node"
  proof -
    have act': "map_of (activeAlerts m) (offlineAlertID node) = Some p"
      using act by (simp add: offlineAlertID_def nid)
    note ex = CheckNode_offline_existing [OF en wf off act', of now quiet]
    have "map_of (activeAlerts (CheckNode node now quiet m)) (''node-offline-'' @ nodeID) = Some p"
      using ex(1) by (simp add: offlineAlertID_def nid)
    then show ?thesis by (simp add: activeAlert_def ex(2))
  qed
  have two: "(\<exists>a. activeAlert (run steps m) (''node-offline-'' @ nodeID) = Some a
                 \<and> LastEscalation a = LastEscalation (store m p)
                 \<and> EscalationTimes a = EscalationTimes (store m p))
          \<and> escalationsOf p (run steps m) = escalationsOf p m"
    if "pollsKeepAhead nodeID (Levels (Escalation (Schedule (config m))))
             (StartTime (store m p)) steps"
    using run_keeps_ahead [OF en wf act that] by (simp add: activeAlert_def)
  show ?thesis using one two by blast
qed

lemma offlineAlertManager_facts:
  "Enabled (config offlineAlertManager)"
  "wellFormed offlineAlertManager"
  "map_of (activeAlerts offlineAlertManager) (''node-offline-'' @ ''lab-px1'') = Some 0"
  "Levels (Escalation (Schedule (config offlineAlertManager)))
     = [\<lparr>After = 15, Notify = ''email''\<rparr>, \<lparr>After = 30, Notify = ''webhook''\<rparr>,
        \<lparr>After = 60, Notify = ''all''\<rparr>]"
  "StartTime (store offlineAlertManager 0) = 0"
  "escalationsOf 0 offlineAlertManager = []"
  by (simp_all add: offlineAlertManager_def newManager_def escalatingConfig_def defaultConfig_def
        wellFormed_def offlineAlert_def escalationsOf_def)

theorem offline_alert_never_escalates_witness:
  "Enabled (config offlineAlertManager) \<and> wellFormed offlineAlertManager
   \<and> map_of (activeAlerts offlineAlertManager) (''node-offline-'' @ ''lab-px1'') = Some 0
   \<and> nID offlineNode = ''lab-px1'' \<and> nodeIsOffline offlineNode
   \<and> pollsKeepAhead ''lab-px1'' (Levels (Escalation (Schedule (config offlineAlertManager))))
        (StartTime (store offlineAlertManager 0))
        [Poll offlineNode (10 * minute) False, Tick (16 * minute)]
   \<and> map_option StartTime
        (activeAlert (CheckNode offlineNode (10 * minute) False offlineAlertManager)
           ''node-offline-lab-px1'') = Some (10 * minute)
   \<and> escalationsOf 0 (run [Poll offlineNode (10 * minute) False, Tick (16 * minute)]
                         offlineAlertManager) = []
   \<and> escalationsOf 0 (run [Tick (16 * minute)] offlineAlertManager) = [EscalateEvent 0 1]"
proof -
  note f = offlineAlertManager_facts
  have nid: "nID offlineNode = ''lab-px1''" and off: "nodeIsOffline offlineNode"
    by (simp_all add: offlineNode_def nodeIsOffline_def)
  have ahead: "pollsKeepAhead ''lab-px1'' (Levels (Escalation (Schedule (config offlineAlertManager))))
        (StartTime (store offlineAlertManager 0))
        [Poll offlineNode (10 * minute) False, Tick (16 * minute)]"
    by (simp add: f(4,5) nid off minute_def second_def)
  note inst = offline_alert_never_escalates [OF f(1,2,3), of offlineNode "10 * minute" False
      "[Poll offlineNode (10 * minute) False, Tick (16 * minute)]"]
  have a: "map_option StartTime
        (activeAlert (CheckNode offlineNode (10 * minute) False offlineAlertManager)
           ''node-offline-lab-px1'') = Some (10 * minute)"
    using inst nid off by simp
  have b: "escalationsOf 0 (run [Poll offlineNode (10 * minute) False, Tick (16 * minute)]
                         offlineAlertManager) = []"
    using inst ahead by (simp add: f(6))
  have c: "escalationsOf 0 (run [Tick (16 * minute)] offlineAlertManager) = [EscalateEvent 0 1]"
    by (simp add: run_def checkEscalations_def escalateAlert_def Let_def escalationsOf_def
          offlineAlertManager_def newManager_def escalatingConfig_def defaultConfig_def
          offlineAlert_def minute_def second_def)
  show ?thesis using f(1,2,3) nid off ahead a b c by simp
qed

text \<open>
  Without the condition on alerting the claim fails: with \<^verbatim>\<open>Enabled\<close> false
  \<^verbatim>\<open>CheckNode\<close> returns before it looks at the node, so the polls no longer move
  \<^verbatim>\<open>StartTime\<close>, while \<^verbatim>\<open>checkEscalations\<close> reads only the escalation switch. In the
  run below three offline polls raise the alert at 20 s, alerting is switched off, the node
  is polled offline every five minutes, and the tick at 16 min escalates the alert to
  level 1.
\<close>

theorem offline_alert_escalates_while_disabled_counterexample:
  "nodeIsOffline offlineNode
   \<and> escalationsOf 0
       (run [Poll offlineNode (5 * minute) False, Poll offlineNode (10 * minute) False,
             Poll offlineNode (15 * minute) False, Tick (16 * minute)]
          (UpdateConfig (escalatingConfig\<lparr>Enabled := False\<rparr>)
             (run [Poll offlineNode 0 False, Poll offlineNode (10 * second) False,
                   Poll offlineNode (20 * second) False] (newManager escalatingConfig))))
       = [EscalateEvent 0 1]
   \<and> map_option (\<lambda>a. (ID a, StartTime a, LastEscalation a))
       (activeAlert
          (run [Poll offlineNode (5 * minute) False, Poll offlineNode (10 * minute) False,
                Poll offlineNode (15 * minute) False, Tick (16 * minute)]
             (UpdateConfig (escalatingConfig\<lparr>Enabled := False\<rparr>)
                (run [Poll offlineNode 0 False, Poll offlineNode (10 * second) False,
                      Poll offlineNode (20 * second) False] (newManager escalatingConfig))))
          ''node-offline-lab-px1'')
       = Some (''node-offline-lab-px1'', 20 * second, 1)"
  by code_simp

section \<open>Properties of the cluster failover client\<close>

subsection \<open>The invariant\<close>

lemma ccWellFormed_setHealth: "ccWellFormed cc \<Longrightarrow> ccWellFormed (setHealth endpoint h cc)"
  by (simp add: ccWellFormed_def setHealth_def distinct_update)

lemma ccWellFormed_lastHealthCheck:
  "ccWellFormed (cc\<lparr>lastHealthCheck := x\<rparr>) = ccWellFormed cc"
  by (simp add: ccWellFormed_def)

lemma ccWellFormed_storeNewClient:
  assumes "ccWellFormed cc"
  shows "ccWellFormed (storeNewClient endpoint cc)"
proof -
  have d: "distinct (map fst (clients cc))"
    and lt: "\<And>ep p. map_of (clients cc) ep = Some (Some p) \<Longrightarrow> p < nextClient cc"
    and inj: "\<And>ep ep' p. map_of (clients cc) ep = Some (Some p) \<Longrightarrow>
                map_of (clients cc) ep' = Some (Some p) \<Longrightarrow> ep = ep'"
    using assms by (auto simp: ccWellFormed_def)
  have "p < Suc (nextClient cc)"
    if "map_of (AList.update endpoint (Some (nextClient cc)) (clients cc)) ep = Some (Some p)"
    for ep p
    using that lt [of ep p] by (auto simp: update_conv' split: if_splits)
  moreover have "ep = ep'"
    if "map_of (AList.update endpoint (Some (nextClient cc)) (clients cc)) ep = Some (Some p)"
      and "map_of (AList.update endpoint (Some (nextClient cc)) (clients cc)) ep' = Some (Some p)"
    for ep ep' p
    using that lt [of ep p] lt [of ep' p] inj [of ep p ep']
    by (auto simp: update_conv' split: if_splits)
  ultimately show ?thesis
    using assms unfolding ccWellFormed_def storeNewClient_def
    by (simp add: distinct_update del: map_of_eq_Some_iff)
qed

lemma ccWellFormed_storeNil:
  assumes "ccWellFormed cc"
  shows "ccWellFormed (cc\<lparr>clients := AList.update endpoint None (clients cc)\<rparr>)"
proof -
  have lt: "\<And>ep p. map_of (clients cc) ep = Some (Some p) \<Longrightarrow> p < nextClient cc"
    and inj: "\<And>ep ep' p. map_of (clients cc) ep = Some (Some p) \<Longrightarrow>
                map_of (clients cc) ep' = Some (Some p) \<Longrightarrow> ep = ep'"
    using assms by (auto simp: ccWellFormed_def)
  have "p < nextClient cc"
    if "map_of (AList.update endpoint None (clients cc)) ep = Some (Some p)" for ep p
    using that lt [of ep p] by (auto simp: update_conv' split: if_splits)
  moreover have "ep = ep'"
    if "map_of (AList.update endpoint None (clients cc)) ep = Some (Some p)"
      and "map_of (AList.update endpoint None (clients cc)) ep' = Some (Some p)"
    for ep ep' p
    using that inj [of ep p ep'] by (auto simp: update_conv' split: if_splits)
  ultimately show ?thesis
    using assms unfolding ccWellFormed_def
    by (simp add: distinct_update del: map_of_eq_Some_iff)
qed


lemma ccWellFormed_markUnhealthy: "ccWellFormed cc \<Longrightarrow> ccWellFormed (markUnhealthy endpoint cc)"
  by (simp add: markUnhealthy_def ccWellFormed_setHealth)

lemma ccWellFormed_recoverEndpoint:
  assumes "ccWellFormed cc"
  shows "ccWellFormed (recoverEndpoint e i endpoint cc)"
proof -
  let ?cc1 = "cc\<lparr>lastHealthCheck := (lastHealthCheck cc)(endpoint \<mapsto> clock e i)\<rparr>"
  have wf1: "ccWellFormed ?cc1" using assms by (simp add: ccWellFormed_lastHealthCheck)
  have wf2: "ccWellFormed (setHealth endpoint True ?cc1)" using wf1 by (rule ccWellFormed_setHealth)
  show ?thesis
  proof (cases "recovers e i endpoint")
    case ProbeFailed
    then show ?thesis using wf1 by (simp add: recoverEndpoint_def)
  next
    case Recovered
    then show ?thesis using ccWellFormed_storeNewClient [OF wf2] by (simp add: recoverEndpoint_def)
  next
    case RecoveredNilClient
    then show ?thesis
      using ccWellFormed_storeNil [OF wf2, of endpoint]
      by (simp add: recoverEndpoint_def setHealth_def)
  qed
qed

lemma ccWellFormed_fold_recoverEndpoint:
  "ccWellFormed cc \<Longrightarrow> ccWellFormed (fold (recoverEndpoint e i) eps cc)"
  by (induction eps arbitrary: cc) (simp_all add: ccWellFormed_recoverEndpoint)

lemma ccWellFormed_afterRecovery: "ccWellFormed cc \<Longrightarrow> ccWellFormed (afterRecovery e i cc)"
  by (simp add: afterRecovery_def recoverUnhealthyNodes_def Let_def
        ccWellFormed_fold_recoverEndpoint)

lemma ccWellFormed_getHealthyClient:
  assumes "ccWellFormed cc"
  shows "ccWellFormed (fst (getHealthyClient e i cc))"
proof -
  have wf1: "ccWellFormed (afterRecovery e i cc)" using assms by (rule ccWellFormed_afterRecovery)
  show ?thesis
    using wf1
    by (simp add: getHealthyClient_def Let_def ccWellFormed_setHealth ccWellFormed_storeNewClient
          split: option.splits connectResult.splits)
qed

lemma ccWellFormed_failoverLoop:
  "ccWellFormed cc \<Longrightarrow> ccWellFormed (fst (failoverLoop e i n cc))"
proof (induction n arbitrary: i cc)
  case 0
  then show ?case by simp
next
  case (Suc n)
  obtain cc1 r where g: "getHealthyClient e i cc = (cc1, r)" by (cases "getHealthyClient e i cc")
  have wf1: "ccWellFormed cc1" using ccWellFormed_getHealthyClient [OF Suc.prems, of e i] g by simp
  have rec: "ccWellFormed (fst (failoverLoop e (i + 1) n (markUnhealthy ep cc1)))" for ep
    by (rule Suc.IH) (rule ccWellFormed_markUnhealthy [OF wf1])
  show ?case
    using g wf1 rec
    by (auto simp: split_beta split: sum.splits option.splits)
qed

lemma ccWellFormed_initialCheckEndpoint:
  "ccWellFormed cc \<Longrightarrow> ccWellFormed (initialCheckEndpoint probe now endpoint cc)"
  by (simp add: initialCheckEndpoint_def Let_def ccWellFormed_lastHealthCheck
        ccWellFormed_setHealth ccWellFormed_storeNewClient split: connectResult.splits)

lemma ccWellFormed_fold_initialCheckEndpoint:
  "ccWellFormed cc \<Longrightarrow> ccWellFormed (fold (initialCheckEndpoint probe now) eps cc)"
  by (induction eps arbitrary: cc) (simp_all add: ccWellFormed_initialCheckEndpoint)

lemma distinct_fold_update:
  "distinct (map fst al) \<Longrightarrow> distinct (map fst (fold (\<lambda>k. AList.update k v) ks al))"
  by (induction ks arbitrary: al) (simp_all add: distinct_update)

lemma ccWellFormed_NewClusterClient: "ccWellFormed (NewClusterClient probe now clusterName eps)"
  unfolding NewClusterClient_def
  by (rule ccWellFormed_fold_initialCheckEndpoint) (simp add: ccWellFormed_def distinct_fold_update)

subsection \<open>Selection and search\<close>

lemma find_client:
  assumes "distinct (map fst cl)"
    and "\<And>ep ep'. map_of cl ep = Some (Some p) \<Longrightarrow> map_of cl ep' = Some (Some p) \<Longrightarrow> ep = ep'"
    and "map_of cl endpoint = Some (Some p)"
  shows "find (\<lambda>(ep, c). c = Some p) cl = Some (endpoint, Some p)"
proof -
  have "(endpoint, Some p) \<in> set cl" using assms(3) by (rule map_of_SomeD)
  then have "find (\<lambda>(ep, c). c = Some p) cl \<noteq> None" by (auto simp: find_None_iff)
  then obtain ep c where f: "find (\<lambda>(ep, c). c = Some p) cl = Some (ep, c)" by auto
  then have "(ep, c) \<in> set cl" and c: "c = Some p"
    by (auto simp: find_Some_iff in_set_conv_nth)
  then have "map_of cl ep = Some (Some p)" using assms(1) by simp
  then have "ep = endpoint" using assms(2,3) by blast
  then show ?thesis using f c by simp
qed

lemma clientEndpointOf_cached:
  assumes "ccWellFormed cc" and "map_of (clients cc) endpoint = Some (Some p)"
  shows "clientEndpointOf cc (Some p) = endpoint"
proof -
  have "find (\<lambda>(ep, c). c = Some p) (clients cc) = Some (endpoint, Some p)"
    using assms by (intro find_client) (auto simp: ccWellFormed_def simp del: map_of_eq_Some_iff)
  then show ?thesis by (simp add: clientEndpointOf_def)
qed

lemma isHealthy_in_healthyEndpoints:
  "isHealthy cc x \<Longrightarrow> x \<in> set (healthyEndpoints cc)"
  by (force simp: isHealthy_def healthyEndpoints_def dest: map_of_SomeD)

lemma healthyEndpoints_isHealthy:
  "distinct (map fst (nodeHealth cc)) \<Longrightarrow> x \<in> set (healthyEndpoints cc) \<Longrightarrow> isHealthy cc x"
  by (auto simp: isHealthy_def healthyEndpoints_def)

lemma afterRecovery_keeps_healthy: "isHealthy cc x \<Longrightarrow> isHealthy (afterRecovery e i cc) x"
  using isHealthy_in_healthyEndpoints [of cc x] by (auto simp: afterRecovery_def)

lemma afterRecovery_healthy: "healthyEndpoints cc \<noteq> [] \<Longrightarrow> afterRecovery e i cc = cc"
  by (simp add: afterRecovery_def)

lemma selectedEndpoint_healthy:
  assumes "ccWellFormed cc" and "healthyEndpoints (afterRecovery e i cc) \<noteq> []"
  shows "isHealthy (afterRecovery e i cc) (selectedEndpoint e i cc)"
proof -
  let ?h = "healthyEndpoints (afterRecovery e i cc)"
  have "?h ! (rnd e i mod length ?h) \<in> set ?h" using assms(2) by simp
  moreover have "distinct (map fst (nodeHealth (afterRecovery e i cc)))"
    using ccWellFormed_afterRecovery [OF assms(1), of e i] by (simp add: ccWellFormed_def)
  ultimately show ?thesis
    unfolding selectedEndpoint_def Let_def by (intro healthyEndpoints_isHealthy)
qed

lemma isHealthy_frame:
  "isHealthy (storeNewClient endpoint cc) = isHealthy cc"
  "healthyEndpoints (storeNewClient endpoint cc) = healthyEndpoints cc"
  "nodeHealth (storeNewClient endpoint cc) = nodeHealth cc"
  by (simp_all add: isHealthy_def healthyEndpoints_def storeNewClient_def fun_eq_iff)

text \<open>What a successful \<^verbatim>\<open>getHealthyClient\<close> returns and leaves behind.\<close>

lemma getHealthyClient_client:
  assumes wf: "ccWellFormed cc" and g: "getHealthyClient e i cc = (cc1, Inr c)"
  shows "nodeHealth cc1 = nodeHealth (afterRecovery e i cc)"
    and "isHealthy cc1 (selectedEndpoint e i cc)"
    and "map_of (clients cc1) (selectedEndpoint e i cc) = Some c"
    and "ccWellFormed cc1"
    and "\<And>x. isHealthy cc x \<Longrightarrow> isHealthy cc1 x"
proof -
  let ?c = "afterRecovery e i cc"
  let ?s = "selectedEndpoint e i cc"
  have ne: "healthyEndpoints ?c \<noteq> []" using g by (auto simp: getHealthyClient_def Let_def)
  have cases: "(cc1 = ?c \<and> map_of (clients ?c) ?s = Some c)
             \<or> (cc1 = storeNewClient ?s ?c \<and> c = Some (nextClient ?c))"
    using g ne
    by (auto simp: getHealthyClient_def Let_def split: option.splits connectResult.splits)
  show h: "nodeHealth cc1 = nodeHealth ?c" using cases by (auto simp: isHealthy_frame)
  show "isHealthy cc1 ?s"
    using selectedEndpoint_healthy [OF wf ne] h by (simp add: isHealthy_def)
  show "map_of (clients cc1) ?s = Some c"
    using cases by (auto simp: storeNewClient_def update_conv')
  show "ccWellFormed cc1" using ccWellFormed_getHealthyClient [OF wf, of e i] g by simp
  show "isHealthy cc1 x" if "isHealthy cc x" for x
    using afterRecovery_keeps_healthy [OF that, of e i] h by (simp add: isHealthy_def)
qed

lemma getHealthyClient_endpoint:
  assumes wf: "ccWellFormed cc" and g: "getHealthyClient e i cc = (cc1, Inr (Some p))"
  shows "clientEndpointOf cc1 (Some p) = selectedEndpoint e i cc"
  using getHealthyClient_client(3,4) [OF wf g] by (intro clientEndpointOf_cached)

text \<open>What a failed \<^verbatim>\<open>getHealthyClient\<close> leaves behind.\<close>

lemma getHealthyClient_error:
  assumes g: "getHealthyClient e i cc = (cc1, Inl err)" and h: "isHealthy cc x" and u: "\<not> isHealthy cc1 x"
  shows "err = CreateClientFailed x \<or> err = ConnectivityFailed x"
proof -
  let ?c = "afterRecovery e i cc"
  let ?s = "selectedEndpoint e i cc"
  have hx: "isHealthy ?c x" using h by (rule afterRecovery_keeps_healthy)
  then have ne: "healthyEndpoints ?c \<noteq> []" using isHealthy_in_healthyEndpoints [of ?c x] by auto
  have "cc1 = setHealth ?s False ?c \<and> (err = CreateClientFailed ?s \<or> err = ConnectivityFailed ?s)"
    using g ne
    by (auto simp: getHealthyClient_def Let_def split: option.splits connectResult.splits)
  moreover have "x = ?s" if "cc1 = setHealth ?s False ?c"
  proof (rule ccontr)
    assume "x \<noteq> ?s"
    then have "isHealthy cc1 x" using hx that by (simp add: isHealthy_def setHealth_def update_conv')
    then show False using u by simp
  qed
  ultimately show ?thesis by auto
qed

lemma markUnhealthy_unhealthy: "\<not> isHealthy (markUnhealthy ep cc) ep"
  by (simp add: markUnhealthy_def setHealth_def isHealthy_def update_conv')

lemma markUnhealthy_others:
  "x \<noteq> ep \<Longrightarrow> isHealthy (markUnhealthy ep cc) x = isHealthy cc x"
  by (simp add: markUnhealthy_def setHealth_def isHealthy_def update_conv')

lemma markUnhealthy_not_selected:
  assumes "ccWellFormed cc"
  shows "ep \<notin> set (healthyEndpoints (markUnhealthy ep cc))"
proof
  assume "ep \<in> set (healthyEndpoints (markUnhealthy ep cc))"
  moreover have "distinct (map fst (nodeHealth (markUnhealthy ep cc)))"
    using ccWellFormed_markUnhealthy [OF assms, of ep] by (simp add: ccWellFormed_def)
  ultimately have "isHealthy (markUnhealthy ep cc) ep" by (intro healthyEndpoints_isHealthy)
  then show False using markUnhealthy_unhealthy by blast
qed

subsection \<open>The loop\<close>

lemma failoverLoop_calls_bound:
  "length (snd (snd (failoverLoop e i n cc))) \<le> n"
proof (induction n arbitrary: i cc)
  case 0
  then show ?case by simp
next
  case (Suc n)
  obtain cc1 r where g: "getHealthyClient e i cc = (cc1, r)" by (cases "getHealthyClient e i cc")
  have rec: "length (snd (snd (failoverLoop e (i + 1) n (markUnhealthy ep cc1)))) \<le> n" for ep
    by (rule Suc.IH)
  show ?case
    using g rec [of "clientEndpointOf cc1 (Some p)" for p]
    by (auto simp: split_beta le_SucI split: sum.splits option.splits)
qed

lemma failoverLoop_passthrough:
  assumes wf: "ccWellFormed cc" and g: "getHealthyClient e i cc = (cc1, Inr (Some p))"
    and f: "fn e i p = Some errStr" and a: "isNodeSpecific errStr \<or> IsAuthError errStr"
  shows "failoverLoop e i (Suc n) cc
           = (cc1, Returned (Some (CallError errStr)), [(selectedEndpoint e i cc, Some errStr)])"
  using g f a getHealthyClient_endpoint [OF wf g] by auto

lemma failoverLoop_other:
  assumes wf: "ccWellFormed cc" and g: "getHealthyClient e i cc = (cc1, Inr (Some p))"
    and f: "fn e i p = Some errStr" and a: "\<not> isNodeSpecific errStr" "\<not> IsAuthError errStr"
  shows "failoverLoop e i (Suc n) cc =
           (case failoverLoop e (i + 1) n (markUnhealthy (selectedEndpoint e i cc) cc1) of
              (cc2, result, calls) \<Rightarrow> (cc2, result, (selectedEndpoint e i cc, Some errStr) # calls))"
  using g f a getHealthyClient_endpoint [OF wf g] by simp

text \<open>
  An endpoint that was healthy before the loop and is not healthy after it was the endpoint
  of a call that failed with an error of the third class, or the endpoint whose client
  could not be created.
\<close>

lemma failoverLoop_lost_health:
  assumes "ccWellFormed cc" and "failoverLoop e i n cc = (cc', out, calls)"
    and "isHealthy cc x" and "\<not> isHealthy cc' x"
  shows "(\<exists>err. (x, Some err) \<in> set calls \<and> \<not> isNodeSpecific err \<and> \<not> IsAuthError err)
       \<or> out = Returned (Some (CreateClientFailed x))
       \<or> out = Returned (Some (ConnectivityFailed x))"
  using assms
proof (induction n arbitrary: i cc cc' out calls)
  case 0
  then show ?case by simp
next
  case (Suc n)
  obtain cc1 r where g: "getHealthyClient e i cc = (cc1, r)" by (cases "getHealthyClient e i cc")
  show ?case
  proof (cases r)
    case (Inl err)
    then have res: "cc' = cc1" "out = Returned (Some err)" using g Suc.prems(2) by auto
    have "err = CreateClientFailed x \<or> err = ConnectivityFailed x"
      using getHealthyClient_error [OF g [unfolded Inl] Suc.prems(3)] Suc.prems(4) res by simp
    then show ?thesis using res by auto
  next
    case (Inr c)
    note gc = getHealthyClient_client [OF Suc.prems(1) g [unfolded Inr]]
    have hx1: "isHealthy cc1 x" using gc(5) Suc.prems(3) by simp
    show ?thesis
    proof (cases c)
      case None
      then have "cc' = cc1" using g Inr Suc.prems(2) by auto
      then show ?thesis using hx1 Suc.prems(4) by simp
    next
      case (Some p)
      note g' = g [unfolded Inr Some]
      let ?s = "selectedEndpoint e i cc"
      show ?thesis
      proof (cases "fn e i p")
        case None
        then have "cc' = cc1" using g' Suc.prems(2) by auto
        then show ?thesis using hx1 Suc.prems(4) by simp
      next
        case (Some errStr)
        show ?thesis
        proof (cases "isNodeSpecific errStr \<or> IsAuthError errStr")
          case True
          then have "cc' = cc1"
            using failoverLoop_passthrough [OF Suc.prems(1) g' Some True, of n] Suc.prems(2) by simp
          then show ?thesis using hx1 Suc.prems(4) by simp
        next
          case False
          then have b: "\<not> isNodeSpecific errStr" "\<not> IsAuthError errStr" by auto
          obtain cc2 res2 calls2
            where rec: "failoverLoop e (i + 1) n (markUnhealthy ?s cc1) = (cc2, res2, calls2)"
            by (cases "failoverLoop e (i + 1) n (markUnhealthy ?s cc1)")
          have eq: "cc' = cc2" "out = res2" "calls = (?s, Some errStr) # calls2"
            using failoverLoop_other [OF Suc.prems(1) g' Some b, of n] rec Suc.prems(2) by auto
          show ?thesis
          proof (cases "x = ?s")
            case True
            then show ?thesis using eq b by auto
          next
            case False
            then have "isHealthy (markUnhealthy ?s cc1) x" using hx1 by (simp add: markUnhealthy_others)
            from Suc.IH [OF ccWellFormed_markUnhealthy [OF gc(4)] rec this] Suc.prems(4) eq
            show ?thesis by auto
          qed
        qed
      qed
    qed
  qed
qed

lemma threeHealthy_record:
  "threeHealthy =
     \<lparr>name = ''lab'', clients = [(''e1'', Some 0), (''e2'', Some 1), (''e3'', Some 2)],
      endpoints = [''e1'', ''e2'', ''e3''],
      nodeHealth = [(''e1'', True), (''e2'', True), (''e3'', True)],
      lastHealthCheck = [''e1'' \<mapsto> 0, ''e2'' \<mapsto> 0, ''e3'' \<mapsto> 0], nextClient = 3\<rparr>"
  by (simp add: threeHealthy_def NewClusterClient_def initialCheckEndpoint_def setHealth_def
        storeNewClient_def Let_def)

lemma world595_error:
  "isNodeSpecific ''API error 595: no ticket for hostname lookup''"
  unfolding isNodeSpecific_def contains_def by code_simp

lemma worldRefused_error:
  "\<not> isNodeSpecific ''connection refused''" "\<not> IsAuthError ''connection refused''"
  unfolding isNodeSpecific_def IsAuthError_def contains_def by code_simp+

lemma threeHealthy_select:
  "getHealthyClient world595 0 threeHealthy = (threeHealthy, Inr (Some 1))"
  "getHealthyClient worldRefused 0 threeHealthy = (threeHealthy, Inr (Some 1))"
  "selectedEndpoint world595 0 threeHealthy = ''e2''"
  "selectedEndpoint worldRefused 0 threeHealthy = ''e2''"
  "endpoints threeHealthy = [''e1'', ''e2'', ''e3'']"
  "nodeHealth threeHealthy = [(''e1'', True), (''e2'', True), (''e3'', True)]"
  unfolding threeHealthy_record
  by (simp_all add: getHealthyClient_def selectedEndpoint_def afterRecovery_def
        healthyEndpoints_def world595_def worldRefused_def Let_def)

lemma threeHealthy_595:
  "executeWithFailover world595 threeHealthy
     = (threeHealthy, Returned (Some (CallError ''API error 595: no ticket for hostname lookup'')),
        [(''e2'', Some ''API error 595: no ticket for hostname lookup'')])"
proof -
  have wf: "ccWellFormed threeHealthy"
    unfolding threeHealthy_def by (rule ccWellFormed_NewClusterClient)
  have f: "fn world595 0 1 = Some ''API error 595: no ticket for hostname lookup''"
    by (simp add: world595_def)
  have "failoverLoop world595 0 (Suc 2) threeHealthy
          = (threeHealthy, Returned (Some (CallError ''API error 595: no ticket for hostname lookup'')),
             [(selectedEndpoint world595 0 threeHealthy,
               Some ''API error 595: no ticket for hostname lookup'')])"
    using wf threeHealthy_select(1) f by (rule failoverLoop_passthrough) (simp add: world595_error)
  then show ?thesis
    by (simp add: executeWithFailover_def threeHealthy_select(3,5) numeral_3_eq_3)
qed

lemma threeHealthy_refused:
  "nodeHealth (fst (executeWithFailover worldRefused threeHealthy))
     = [(''e1'', False), (''e2'', False), (''e3'', False)]"
  "fst (snd (executeWithFailover worldRefused threeHealthy)) = Returned (Some AllNodesFailed)"
  "snd (snd (executeWithFailover worldRefused threeHealthy))
     = [(''e2'', Some ''connection refused''), (''e3'', Some ''connection refused''),
        (''e1'', Some ''connection refused'')]"
  by code_simp+

text \<open>
  Claim C2. \<^verbatim>\<open>executeWithFailover\<close> runs at most \<^verbatim>\<open>len(endpoints)\<close> attempts; in each it
  takes a client for a healthy endpoint from \<^verbatim>\<open>getHealthyClient\<close> and calls \<^verbatim>\<open>fn\<close> on it.
  On a client state that satisfies the invariant of the two maps (which
  \<^verbatim>\<open>NewClusterClient\<close> establishes and \<^verbatim>\<open>executeWithFailover\<close> keeps):

  \<^item> an error of \<^verbatim>\<open>fn\<close> whose text contains \<^verbatim>\<open>595\<close>, or \<^verbatim>\<open>500\<close> together with
    \<^verbatim>\<open>hostname lookup\<close> or \<^verbatim>\<open>Name or service not known\<close>, or that is an authentication
    error (its text contains \<^verbatim>\<open>authentication\<close>, \<^verbatim>\<open>401\<close> or \<^verbatim>\<open>403\<close>), ends the loop
    at once: that error is returned, \<^verbatim>\<open>fn\<close> is not called again, and the state is the one
    \<^verbatim>\<open>fn\<close> was called in, so the health map is the one the attempt started with (after the
    recovery pass when it started with no healthy endpoint) and every endpoint that was
    healthy before the attempt is healthy after it;

  \<^item> any other error marks the selected endpoint, which was healthy, unhealthy, changes the
    health of no other endpoint, and goes on with the next attempt on that state; the next
    attempt, when it gets a client, has it from an endpoint that is healthy then, and from
    another endpoint than the one just marked whenever a healthy endpoint is left;

  \<^item> \<^verbatim>\<open>fn\<close> is called at most \<^verbatim>\<open>len(endpoints)\<close> times;

  \<^item> over the whole call, an endpoint that was healthy before and is not healthy afterwards
    is the endpoint of a call of \<^verbatim>\<open>fn\<close> that failed with an error of neither of the first
    two classes, or the endpoint named by the returned error for which no client could be
    created: no endpoint loses its health on account of a node-specific or an
    authentication error;

  \<^item> with the endpoints \<^verbatim>\<open>e1\<close>, \<^verbatim>\<open>e2\<close>, \<^verbatim>\<open>e3\<close> all healthy and a call that fails with
    status 595, the call returns that error after one call of \<^verbatim>\<open>fn\<close> and the three
    endpoints are healthy as before.
\<close>

theorem failover_error_classes:
  assumes wf: "ccWellFormed cc"
  shows "(isNodeSpecific s \<longleftrightarrow>
            contains s ''595'' \<or> (contains s ''500'' \<and> contains s ''hostname lookup'')
              \<or> (contains s ''500'' \<and> contains s ''Name or service not known''))
       \<and> (IsAuthError s \<longleftrightarrow>
            contains s ''authentication'' \<or> contains s ''401'' \<or> contains s ''403'')
       \<and> executeWithFailover e cc = failoverLoop e 0 (length (endpoints cc)) cc
       \<and> ccWellFormed (NewClusterClient probe now clusterName eps)
       \<and> ccWellFormed (fst (executeWithFailover e cc))
       \<and> (\<forall>cc1 p errStr.
            getHealthyClient e i cc = (cc1, Inr (Some p)) \<and> fn e i p = Some errStr
              \<and> (isNodeSpecific errStr \<or> IsAuthError errStr) \<longrightarrow>
            failoverLoop e i (Suc n) cc
              = (cc1, Returned (Some (CallError errStr)), [(selectedEndpoint e i cc, Some errStr)])
          \<and> nodeHealth cc1 = nodeHealth (afterRecovery e i cc)
          \<and> (healthyEndpoints cc \<noteq> [] \<longrightarrow> nodeHealth cc1 = nodeHealth cc)
          \<and> (\<forall>x. isHealthy cc x \<longrightarrow> isHealthy cc1 x))
       \<and> (\<forall>cc1 p errStr.
            getHealthyClient e i cc = (cc1, Inr (Some p)) \<and> fn e i p = Some errStr
              \<and> \<not> isNodeSpecific errStr \<and> \<not> IsAuthError errStr \<longrightarrow>
            failoverLoop e i (Suc n) cc
              = (case failoverLoop e (i + 1) n (markUnhealthy (selectedEndpoint e i cc) cc1) of
                   (cc2, result, calls) \<Rightarrow>
                     (cc2, result, (selectedEndpoint e i cc, Some errStr) # calls))
          \<and> isHealthy cc1 (selectedEndpoint e i cc)
          \<and> \<not> isHealthy (markUnhealthy (selectedEndpoint e i cc) cc1) (selectedEndpoint e i cc)
          \<and> (\<forall>x. x \<noteq> selectedEndpoint e i cc \<longrightarrow>
                isHealthy (markUnhealthy (selectedEndpoint e i cc) cc1) x = isHealthy cc1 x)
          \<and> (\<forall>cc2 c.
                getHealthyClient e (i + 1) (markUnhealthy (selectedEndpoint e i cc) cc1)
                  = (cc2, Inr c) \<longrightarrow>
                isHealthy cc2 (selectedEndpoint e (i + 1) (markUnhealthy (selectedEndpoint e i cc) cc1))
              \<and> map_of (clients cc2)
                    (selectedEndpoint e (i + 1) (markUnhealthy (selectedEndpoint e i cc) cc1))
                  = Some c
              \<and> (healthyEndpoints (markUnhealthy (selectedEndpoint e i cc) cc1) \<noteq> [] \<longrightarrow>
                    selectedEndpoint e (i + 1) (markUnhealthy (selectedEndpoint e i cc) cc1)
                      \<noteq> selectedEndpoint e i cc)))
       \<and> length (snd (snd (executeWithFailover e cc))) \<le> length (endpoints cc)
       \<and> (\<forall>x. isHealthy cc x \<and> \<not> isHealthy (fst (executeWithFailover e cc)) x \<longrightarrow>
            (\<exists>err. (x, Some err) \<in> set (snd (snd (executeWithFailover e cc)))
                  \<and> \<not> isNodeSpecific err \<and> \<not> IsAuthError err)
          \<or> fst (snd (executeWithFailover e cc)) = Returned (Some (CreateClientFailed x))
          \<or> fst (snd (executeWithFailover e cc)) = Returned (Some (ConnectivityFailed x)))
       \<and> nodeHealth threeHealthy = [(''e1'', True), (''e2'', True), (''e3'', True)]
       \<and> executeWithFailover world595 threeHealthy
            = (threeHealthy,
               Returned (Some (CallError ''API error 595: no ticket for hostname lookup'')),
               [(''e2'', Some ''API error 595: no ticket for hostname lookup'')])"
proof -
  have E: "isNodeSpecific s \<longleftrightarrow>
            contains s ''595'' \<or> (contains s ''500'' \<and> contains s ''hostname lookup'')
              \<or> (contains s ''500'' \<and> contains s ''Name or service not known'')"
    by (simp only: isNodeSpecific_def)
  have F: "IsAuthError s \<longleftrightarrow>
            contains s ''authentication'' \<or> contains s ''401'' \<or> contains s ''403''"
    by (simp only: IsAuthError_def)
  have G: "executeWithFailover e cc = failoverLoop e 0 (length (endpoints cc)) cc"
    by (simp only: executeWithFailover_def)
  have I1: "ccWellFormed (NewClusterClient probe now clusterName eps)"
    by (rule ccWellFormed_NewClusterClient)
  have I2: "ccWellFormed (fst (executeWithFailover e cc))"
    unfolding executeWithFailover_def using wf by (rule ccWellFormed_failoverLoop)
  have A: "\<forall>cc1 p errStr.
            getHealthyClient e i cc = (cc1, Inr (Some p)) \<and> fn e i p = Some errStr
              \<and> (isNodeSpecific errStr \<or> IsAuthError errStr) \<longrightarrow>
            failoverLoop e i (Suc n) cc
              = (cc1, Returned (Some (CallError errStr)), [(selectedEndpoint e i cc, Some errStr)])
          \<and> nodeHealth cc1 = nodeHealth (afterRecovery e i cc)
          \<and> (healthyEndpoints cc \<noteq> [] \<longrightarrow> nodeHealth cc1 = nodeHealth cc)
          \<and> (\<forall>x. isHealthy cc x \<longrightarrow> isHealthy cc1 x)"
  proof (intro allI impI)
    fix cc1 p errStr
    assume h: "getHealthyClient e i cc = (cc1, Inr (Some p)) \<and> fn e i p = Some errStr
              \<and> (isNodeSpecific errStr \<or> IsAuthError errStr)"
    then have g: "getHealthyClient e i cc = (cc1, Inr (Some p))" and f: "fn e i p = Some errStr"
      and a: "isNodeSpecific errStr \<or> IsAuthError errStr" by auto
    note gc = getHealthyClient_client [OF wf g]
    have 1: "failoverLoop e i (Suc n) cc
              = (cc1, Returned (Some (CallError errStr)), [(selectedEndpoint e i cc, Some errStr)])"
      using wf g f a by (rule failoverLoop_passthrough)
    have 2: "healthyEndpoints cc \<noteq> [] \<longrightarrow> nodeHealth cc1 = nodeHealth cc"
      using gc(1) by (simp add: afterRecovery_healthy)
    have 3: "\<forall>x. isHealthy cc x \<longrightarrow> isHealthy cc1 x" using gc(5) by blast
    show "failoverLoop e i (Suc n) cc
              = (cc1, Returned (Some (CallError errStr)), [(selectedEndpoint e i cc, Some errStr)])
          \<and> nodeHealth cc1 = nodeHealth (afterRecovery e i cc)
          \<and> (healthyEndpoints cc \<noteq> [] \<longrightarrow> nodeHealth cc1 = nodeHealth cc)
          \<and> (\<forall>x. isHealthy cc x \<longrightarrow> isHealthy cc1 x)"
      by (intro conjI) (fact 1 gc(1) 2 3)+
  qed
  have B: "\<forall>cc1 p errStr.
            getHealthyClient e i cc = (cc1, Inr (Some p)) \<and> fn e i p = Some errStr
              \<and> \<not> isNodeSpecific errStr \<and> \<not> IsAuthError errStr \<longrightarrow>
            failoverLoop e i (Suc n) cc
              = (case failoverLoop e (i + 1) n (markUnhealthy (selectedEndpoint e i cc) cc1) of
                   (cc2, result, calls) \<Rightarrow>
                     (cc2, result, (selectedEndpoint e i cc, Some errStr) # calls))
          \<and> isHealthy cc1 (selectedEndpoint e i cc)
          \<and> \<not> isHealthy (markUnhealthy (selectedEndpoint e i cc) cc1) (selectedEndpoint e i cc)
          \<and> (\<forall>x. x \<noteq> selectedEndpoint e i cc \<longrightarrow>
                isHealthy (markUnhealthy (selectedEndpoint e i cc) cc1) x = isHealthy cc1 x)
          \<and> (\<forall>cc2 c.
                getHealthyClient e (i + 1) (markUnhealthy (selectedEndpoint e i cc) cc1)
                  = (cc2, Inr c) \<longrightarrow>
                isHealthy cc2 (selectedEndpoint e (i + 1) (markUnhealthy (selectedEndpoint e i cc) cc1))
              \<and> map_of (clients cc2)
                    (selectedEndpoint e (i + 1) (markUnhealthy (selectedEndpoint e i cc) cc1))
                  = Some c
              \<and> (healthyEndpoints (markUnhealthy (selectedEndpoint e i cc) cc1) \<noteq> [] \<longrightarrow>
                    selectedEndpoint e (i + 1) (markUnhealthy (selectedEndpoint e i cc) cc1)
                      \<noteq> selectedEndpoint e i cc))"
  proof (intro allI impI)
    fix cc1 p errStr
    assume h: "getHealthyClient e i cc = (cc1, Inr (Some p)) \<and> fn e i p = Some errStr
              \<and> \<not> isNodeSpecific errStr \<and> \<not> IsAuthError errStr"
    then have g: "getHealthyClient e i cc = (cc1, Inr (Some p))" and f: "fn e i p = Some errStr"
      and b: "\<not> isNodeSpecific errStr" "\<not> IsAuthError errStr" by auto
    let ?s = "selectedEndpoint e i cc"
    let ?m = "markUnhealthy ?s cc1"
    note gc = getHealthyClient_client [OF wf g]
    have wfm: "ccWellFormed ?m" using gc(4) by (rule ccWellFormed_markUnhealthy)
    have 1: "failoverLoop e i (Suc n) cc
              = (case failoverLoop e (i + 1) n ?m of
                   (cc2, result, calls) \<Rightarrow> (cc2, result, (?s, Some errStr) # calls))"
      using wf g f b by (rule failoverLoop_other)
    have 3: "\<not> isHealthy ?m ?s" by (rule markUnhealthy_unhealthy)
    have 4: "\<forall>x. x \<noteq> ?s \<longrightarrow> isHealthy ?m x = isHealthy cc1 x"
      by (simp add: markUnhealthy_others)
    have 5: "\<forall>cc2 c. getHealthyClient e (i + 1) ?m = (cc2, Inr c) \<longrightarrow>
                isHealthy cc2 (selectedEndpoint e (i + 1) ?m)
              \<and> map_of (clients cc2) (selectedEndpoint e (i + 1) ?m) = Some c
              \<and> (healthyEndpoints ?m \<noteq> [] \<longrightarrow> selectedEndpoint e (i + 1) ?m \<noteq> ?s)"
    proof (intro allI impI)
      fix cc2 c
      assume g2: "getHealthyClient e (i + 1) ?m = (cc2, Inr c)"
      note gc2 = getHealthyClient_client [OF wfm g2]
      have "selectedEndpoint e (i + 1) ?m \<noteq> ?s" if ne: "healthyEndpoints ?m \<noteq> []"
      proof
        assume eq: "selectedEndpoint e (i + 1) ?m = ?s"
        have "isHealthy (afterRecovery e (i + 1) ?m) (selectedEndpoint e (i + 1) ?m)"
          using gc2(1,2) by (simp add: isHealthy_def)
        then have "isHealthy ?m ?s" using ne eq by (simp add: afterRecovery_healthy)
        then show False using 3 by simp
      qed
      then show "isHealthy cc2 (selectedEndpoint e (i + 1) ?m)
              \<and> map_of (clients cc2) (selectedEndpoint e (i + 1) ?m) = Some c
              \<and> (healthyEndpoints ?m \<noteq> [] \<longrightarrow> selectedEndpoint e (i + 1) ?m \<noteq> ?s)"
        using gc2(2,3) by blast
    qed
    show "failoverLoop e i (Suc n) cc
              = (case failoverLoop e (i + 1) n ?m of
                   (cc2, result, calls) \<Rightarrow> (cc2, result, (?s, Some errStr) # calls))
          \<and> isHealthy cc1 ?s
          \<and> \<not> isHealthy ?m ?s
          \<and> (\<forall>x. x \<noteq> ?s \<longrightarrow> isHealthy ?m x = isHealthy cc1 x)
          \<and> (\<forall>cc2 c. getHealthyClient e (i + 1) ?m = (cc2, Inr c) \<longrightarrow>
                isHealthy cc2 (selectedEndpoint e (i + 1) ?m)
              \<and> map_of (clients cc2) (selectedEndpoint e (i + 1) ?m) = Some c
              \<and> (healthyEndpoints ?m \<noteq> [] \<longrightarrow> selectedEndpoint e (i + 1) ?m \<noteq> ?s))"
      by (intro conjI) (fact 1 gc(2) 3 4 5)+
  qed
  have C: "length (snd (snd (executeWithFailover e cc))) \<le> length (endpoints cc)"
    unfolding executeWithFailover_def by (rule failoverLoop_calls_bound)
  have D: "\<forall>x. isHealthy cc x \<and> \<not> isHealthy (fst (executeWithFailover e cc)) x \<longrightarrow>
            (\<exists>err. (x, Some err) \<in> set (snd (snd (executeWithFailover e cc)))
                  \<and> \<not> isNodeSpecific err \<and> \<not> IsAuthError err)
          \<or> fst (snd (executeWithFailover e cc)) = Returned (Some (CreateClientFailed x))
          \<or> fst (snd (executeWithFailover e cc)) = Returned (Some (ConnectivityFailed x))"
  proof (intro allI impI)
    fix x
    assume h: "isHealthy cc x \<and> \<not> isHealthy (fst (executeWithFailover e cc)) x"
    obtain cc' out calls where r: "failoverLoop e 0 (length (endpoints cc)) cc = (cc', out, calls)"
      by (cases "failoverLoop e 0 (length (endpoints cc)) cc")
    have "isHealthy cc x" and "\<not> isHealthy cc' x"
      using h r by (simp_all add: executeWithFailover_def)
    from failoverLoop_lost_health [OF wf r this]
    show "(\<exists>err. (x, Some err) \<in> set (snd (snd (executeWithFailover e cc)))
                  \<and> \<not> isNodeSpecific err \<and> \<not> IsAuthError err)
          \<or> fst (snd (executeWithFailover e cc)) = Returned (Some (CreateClientFailed x))
          \<or> fst (snd (executeWithFailover e cc)) = Returned (Some (ConnectivityFailed x))"
      by (simp add: executeWithFailover_def r)
  qed
  show ?thesis by (intro conjI) (fact E F G I1 I2 A B C D threeHealthy_select(6) threeHealthy_595)+
qed

theorem failover_error_classes_witness:
  "ccWellFormed threeHealthy
   \<and> getHealthyClient worldRefused 0 threeHealthy = (threeHealthy, Inr (Some 1))
   \<and> fn worldRefused 0 1 = Some ''connection refused''
   \<and> \<not> isNodeSpecific ''connection refused'' \<and> \<not> IsAuthError ''connection refused''
   \<and> isHealthy threeHealthy ''e2''
   \<and> \<not> isHealthy (markUnhealthy ''e2'' threeHealthy) ''e2''
   \<and> isHealthy (markUnhealthy ''e2'' threeHealthy) ''e1''
   \<and> isHealthy (markUnhealthy ''e2'' threeHealthy) ''e3''
   \<and> length (snd (snd (executeWithFailover worldRefused threeHealthy))) \<le> 3
   \<and> snd (snd (executeWithFailover worldRefused threeHealthy))
       = [(''e2'', Some ''connection refused''), (''e3'', Some ''connection refused''),
          (''e1'', Some ''connection refused'')]
   \<and> fst (snd (executeWithFailover worldRefused threeHealthy)) = Returned (Some AllNodesFailed)"
proof -
  have wf: "ccWellFormed threeHealthy"
    unfolding threeHealthy_def by (rule ccWellFormed_NewClusterClient)
  note g = threeHealthy_select(2)
  have f: "fn worldRefused 0 1 = Some ''connection refused''"
    by (simp add: worldRefused_def)
  have h: "isHealthy threeHealthy ''e1''" "isHealthy threeHealthy ''e2''"
    "isHealthy threeHealthy ''e3''"
    by (simp_all add: isHealthy_def threeHealthy_select(6))
  have len: "length (endpoints threeHealthy) = 3" by (simp add: threeHealthy_select(5))
  note inst = failover_error_classes [OF wf, where e = worldRefused and i = 0 and n = 2]
  have other: "isHealthy threeHealthy (selectedEndpoint worldRefused 0 threeHealthy)
     \<and> \<not> isHealthy (markUnhealthy (selectedEndpoint worldRefused 0 threeHealthy) threeHealthy)
           (selectedEndpoint worldRefused 0 threeHealthy)
     \<and> (\<forall>x. x \<noteq> selectedEndpoint worldRefused 0 threeHealthy \<longrightarrow>
           isHealthy (markUnhealthy (selectedEndpoint worldRefused 0 threeHealthy) threeHealthy) x
             = isHealthy threeHealthy x)"
    using inst g f worldRefused_error by blast
  have y: "\<not> isHealthy (markUnhealthy ''e2'' threeHealthy) ''e2''"
    "isHealthy (markUnhealthy ''e2'' threeHealthy) ''e1''"
    "isHealthy (markUnhealthy ''e2'' threeHealthy) ''e3''"
    using other h by (simp_all add: threeHealthy_select(4))
  have d: "length (snd (snd (executeWithFailover worldRefused threeHealthy)))
             \<le> length (endpoints threeHealthy)"
    using inst by blast
  have z: "length (snd (snd (executeWithFailover worldRefused threeHealthy))) \<le> 3"
    using d unfolding len .
  show ?thesis
    using wf g f worldRefused_error h(2) y z threeHealthy_refused(2,3) by (intro conjI)
qed

end
